theory Spec2Isabelle
  imports Complex_Main
begin

section \<open>Values, messages and exceptions\<close>

text \<open>
  The checker of \<^verbatim>\<open>esmvalcore/cmor/check.py\<close> formats every error and warning with
  \<^verbatim>\<open>message.format(*args)\<close>. A formatted message is kept here as the pair of its
  template and its arguments, so that two messages are equal exactly when template and
  arguments are. An f-string is kept the same way, its holes written \<^verbatim>\<open>{}\<close>.
  Python floats are modelled as reals: rounding is not modelled.
\<close>

datatype pyval = PStr string | PNone | PFloat real

definition of_opt :: "string option \<Rightarrow> pyval" where
  "of_opt x = (case x of None \<Rightarrow> PNone | Some s \<Rightarrow> PStr s)"

datatype msg = Msg string "pyval list"

definition attr_msg :: string where
  "attr_msg = ''{}: {} should be {}, not {}''"

definition does_msg :: string where
  "does_msg = ''{}: does not {}''"

definition is_msg :: string where
  "is_msg = ''{}: is not {}''"

definition vals_msg :: string where
  "vals_msg = ''{}: has values {} {}''"

definition contain_msg :: string where
  "contain_msg = ''{}: does not contain {} {}''"

text \<open>
  \<^verbatim>\<open>str.lower\<close>, on ASCII letters. The source only compares the result with
  \<^verbatim>\<open>'psu'\<close>, and no character outside ASCII has \<^verbatim>\<open>p\<close>, \<^verbatim>\<open>s\<close> or \<^verbatim>\<open>u\<close> as its
  lower case.
\<close>

definition lower_char :: "char \<Rightarrow> char" where
  "lower_char c =
     (case map_of (zip ''ABCDEFGHIJKLMNOPQRSTUVWXYZ'' ''abcdefghijklmnopqrstuvwxyz'') c of
        None \<Rightarrow> c
      | Some l \<Rightarrow> l)"

definition lower :: "string \<Rightarrow> string" where
  "lower s = map lower_char s"

definition endswith :: "string \<Rightarrow> string \<Rightarrow> bool" where
  "endswith s suf = (length suf \<le> length s \<and> drop (length s - length suf) s = suf)"

section \<open>Cubes and coordinates\<close>

text \<open>
  An iris coordinate, as far as the checker reads it. \<open>c_dims\<close> are the cube dimensions
  the coordinate spans (\<^verbatim>\<open>cube.coord_dims(coord)\<close>), so \<^verbatim>\<open>coord.ndim\<close> is their number.
  \<open>c_points\<close> are the entries of \<^verbatim>\<open>coord.points\<close> along its first axis, which is all
  the checker indexes; bounds and the data array of the cube are never read by the
  checker and are left out. \<open>c_units\<close> is \<^verbatim>\<open>str(coord.units)\<close> and \<open>c_calendar\<close> is
  \<^verbatim>\<open>coord.units.calendar\<close>.
\<close>

record coord =
  c_var_name :: "string option"
  c_standard_name :: "string option"
  c_long_name :: "string option"
  c_units :: string
  c_calendar :: "string option"
  c_points :: "real list"
  c_dims :: "nat list"

record cube =
  cube_var_name :: "string option"
  cube_standard_name :: "string option"
  cube_units :: string
  attributes :: "(string \<times> string) list"
  ndim :: nat
  dim_coords :: "coord list"
  aux_coords :: "coord list"

text \<open>
  \<^verbatim>\<open>coord.name()\<close> of iris: \<^verbatim>\<open>standard_name or long_name or var_name or 'unknown'\<close>.
\<close>

definition or_else :: "string option \<Rightarrow> string \<Rightarrow> string" where
  "or_else x d = (case x of None \<Rightarrow> d | Some s \<Rightarrow> if s = [] then d else s)"

definition coord_name :: "coord \<Rightarrow> string" where
  "coord_name c =
     or_else (c_standard_name c) (or_else (c_long_name c) (or_else (c_var_name c) ''unknown''))"

text \<open>
  \<^verbatim>\<open>cube.coord(...)\<close> returns the one coordinate that passes its filters and raises
  \<^verbatim>\<open>CoordinateNotFoundError\<close> when none or several do; \<open>None\<close> stands for that
  exception, which every caller in the checker catches.
\<close>

definition find_one :: "('a \<Rightarrow> bool) \<Rightarrow> 'a list \<Rightarrow> 'a option" where
  "find_one P xs = (case filter P xs of [x] \<Rightarrow> Some x | _ \<Rightarrow> None)"

definition coords :: "cube \<Rightarrow> coord list" where
  "coords c = dim_coords c @ aux_coords c"

definition coord_by_var_name :: "cube \<Rightarrow> string \<Rightarrow> coord option" where
  "coord_by_var_name c v = find_one (\<lambda>x. c_var_name x = Some v) (coords c)"

definition coord_by_name :: "cube \<Rightarrow> string \<Rightarrow> coord option" where
  "coord_by_name c n = find_one (\<lambda>x. coord_name x = n) (coords c)"

definition dim_coord_by_var_name :: "cube \<Rightarrow> string \<Rightarrow> coord option" where
  "dim_coord_by_var_name c v = find_one (\<lambda>x. c_var_name x = Some v) (dim_coords c)"

definition dim_coord_by_name :: "cube \<Rightarrow> string \<Rightarrow> coord option" where
  "dim_coord_by_name c n = find_one (\<lambda>x. coord_name x = n) (dim_coords c)"

text \<open>
  A coordinate object found by a lookup is changed in place by the source; here the
  changed coordinate replaces the one the lookup found.
\<close>

definition set_dim_coord_by_var_name :: "cube \<Rightarrow> string \<Rightarrow> coord \<Rightarrow> cube" where
  "set_dim_coord_by_var_name c v x =
     c\<lparr>dim_coords := map (\<lambda>y. if c_var_name y = Some v then x else y) (dim_coords c)\<rparr>"

definition set_dim_coord_by_name :: "cube \<Rightarrow> string \<Rightarrow> coord \<Rightarrow> cube" where
  "set_dim_coord_by_name c n x =
     c\<lparr>dim_coords := map (\<lambda>y. if coord_name y = n then x else y) (dim_coords c)\<rparr>"

text \<open>Python dictionaries with string keys, in insertion order.\<close>

definition dict_get :: "(string \<times> string) list \<Rightarrow> string \<Rightarrow> string \<Rightarrow> string" where
  "dict_get d k dflt = (case map_of d k of None \<Rightarrow> dflt | Some v \<Rightarrow> v)"

definition dict_del :: "(string \<times> string) list \<Rightarrow> string \<Rightarrow> (string \<times> string) list" where
  "dict_del d k = filter (\<lambda>kv. fst kv \<noteq> k) d"

section \<open>The variable specification\<close>

text \<open>
  \<^verbatim>\<open>VariableInfo\<close> and \<^verbatim>\<open>CoordinateInfo\<close> come from the CMOR tables; the checker reads
  the attributes below. All are strings as the tables give them (the empty string is
  Python's falsy value), \<^verbatim>\<open>valid_min\<close>, \<^verbatim>\<open>valid_max\<close> and the \<^verbatim>\<open>requested\<close>
  values included: the checker passes them through \<^verbatim>\<open>float()\<close>.
\<close>

record coordinate_info =
  ci_name :: string
  ci_generic_level :: bool
  ci_value :: string
  ci_standard_name :: string
  ci_out_name :: string
  ci_units :: string
  ci_stored_direction :: string
  ci_valid_min :: string
  ci_valid_max :: string
  ci_requested :: "string list"

record variable_info =
  vi_standard_name :: string
  vi_units :: string
  vi_positive :: string
  vi_frequency :: string
  vi_coordinates :: "(string \<times> coordinate_info) list"

section \<open>The libraries the checker calls\<close>

text \<open>
  The checker computes with numbers, units and dates only through Python's \<^verbatim>\<open>float\<close>,
  cf_units and iris. These are not part of the checker, so they are parameters of the
  model: every theorem below holds for whatever they compute.
  \<^item> \<open>py_float\<close>: \<^verbatim>\<open>float(s)\<close>; \<open>None\<close> is its \<^verbatim>\<open>ValueError\<close>.
  \<^item> \<open>is_convertible u v\<close>: \<^verbatim>\<open>Unit(u).is_convertible(v)\<close>.
  \<^item> \<open>is_time_reference u\<close>: \<^verbatim>\<open>Unit(u).is_time_reference()\<close>.
  \<^item> \<open>convert u cal v ps\<close>: the points \<open>ps\<close>, given in units \<open>u\<close> with calendar \<open>cal\<close>,
    after \<^verbatim>\<open>coord.convert_units(Unit(v, calendar=cal))\<close>; \<open>None\<close> is the \<^verbatim>\<open>ValueError\<close>
    of an impossible conversion.
  \<^item> \<open>is_monotonic c\<close>: \<^verbatim>\<open>coord.is_monotonic()\<close>.
  \<^item> \<open>num2date u cal p\<close>: the date \<^verbatim>\<open>coord.cell(i).point\<close> of the point \<open>p\<close> of a
    coordinate with time-reference units \<open>u\<close> and calendar \<open>cal\<close>.
  \<^item> \<open>intersection_points c\<close>: the points of the coordinate \<open>c\<close> in the cube returned by
    \<^verbatim>\<open>cube.intersection(CoordExtent(c, 0.0, 360., True, False))\<close>.
  \<^item> \<open>category_points n c\<close>: the points of the auxiliary coordinate \<open>n\<close> that
    \<^verbatim>\<open>iris.coord_categorisation\<close> derives from the time coordinate \<open>c\<close>.
\<close>

record date =
  year :: int
  month :: int

record lib =
  py_float :: "string \<Rightarrow> real option"
  is_convertible :: "string \<Rightarrow> string \<Rightarrow> bool"
  is_time_reference :: "string \<Rightarrow> bool"
  convert :: "string \<Rightarrow> string option \<Rightarrow> string \<Rightarrow> real list \<Rightarrow> real list option"
  is_monotonic :: "coord \<Rightarrow> bool"
  num2date :: "string \<Rightarrow> string option \<Rightarrow> real \<Rightarrow> date"
  intersection_points :: "coord \<Rightarrow> real list"
  category_points :: "string \<Rightarrow> coord \<Rightarrow> real list"

section \<open>The checker\<close>

text \<open>
  The fields of \<^verbatim>\<open>CMORCheck\<close>: \<open>the_cube\<close> is \<^verbatim>\<open>self._cube\<close>. Two more fields record
  what the object sends outside: \<open>stdout\<close> the messages \<^verbatim>\<open>print\<close> wrote (each after
  the prefix \<^verbatim>\<open>WARNING: \<close>), \<open>logged\<close> the calls
  of \<^verbatim>\<open>logger.warning\<close> (variable name and the warnings joined into the message).
\<close>

record checker =
  the_cube :: cube
  failerr :: bool
  errors :: "msg list"
  warnings :: "msg list"
  cmor_var :: variable_info
  frequency :: string
  automatic_fixes :: bool
  stdout :: "msg list"
  logged :: "(string option \<times> msg list) list"

text \<open>
  \<^verbatim>\<open>CMORCheckError\<close> is raised at two places: by \<^verbatim>\<open>report_error\<close> with one message and
  the cube (\<open>Single\<close>), and by \<^verbatim>\<open>report_errors\<close> with the variable name, the list of
  messages it joins, and the cube (\<open>Summary\<close>). The other exceptions come from Python
  and the libraries and are not caught by the checker.
\<close>

datatype report = Single msg cube | Summary "string option" "msg list" cube

datatype error =
  CMORCheckError report
  | ValueError
  | IndexError
  | AttributeError
  | CoordinateNotFoundError

definition then_do :: "error + 'a \<Rightarrow> ('a \<Rightarrow> error + 'b) \<Rightarrow> error + 'b" where
  "then_do r f = (case r of Inl e \<Rightarrow> Inl e | Inr x \<Rightarrow> f x)"

fun for_each :: "('s \<Rightarrow> 'a \<Rightarrow> error + 's) \<Rightarrow> 'a list \<Rightarrow> 's \<Rightarrow> error + 's" where
  "for_each f [] s = Inr s"
| "for_each f (x # xs) s = then_do (f s x) (for_each f xs)"

definition CMORCheck ::
  "cube \<Rightarrow> variable_info \<Rightarrow> string option \<Rightarrow> bool \<Rightarrow> bool \<Rightarrow> checker" where
  "CMORCheck c var_info freq fail_on_error fixes =
     \<lparr>the_cube = c, failerr = fail_on_error, errors = [], warnings = [],
      cmor_var = var_info,
      frequency = (case freq of None \<Rightarrow> vi_frequency var_info | Some f \<Rightarrow> f),
      automatic_fixes = fixes, stdout = [], logged = []\<rparr>"

definition has_errors :: "checker \<Rightarrow> bool" where
  "has_errors st = (length (errors st) > 0)"

definition has_warnings :: "checker \<Rightarrow> bool" where
  "has_warnings st = (length (warnings st) > 0)"

definition report_error :: "checker \<Rightarrow> string \<Rightarrow> pyval list \<Rightarrow> error + checker" where
  "report_error st message args =
     (let m = Msg message args in
      if failerr st then Inl (CMORCheckError (Single m (the_cube st)))
      else Inr (st\<lparr>errors := errors st @ [m]\<rparr>))"

definition report_warning :: "checker \<Rightarrow> string \<Rightarrow> pyval list \<Rightarrow> checker" where
  "report_warning st message args =
     (let m = Msg message args in
      if failerr st then st\<lparr>stdout := stdout st @ [m]\<rparr>
      else st\<lparr>warnings := warnings st @ [m]\<rparr>)"

definition report_errors :: "checker \<Rightarrow> error + checker" where
  "report_errors st =
     (if has_errors st
      then Inl (CMORCheckError (Summary (cube_var_name (the_cube st)) (errors st) (the_cube st)))
      else Inr st)"

definition report_warnings :: "checker \<Rightarrow> checker" where
  "report_warnings st =
     (if has_warnings st
      then st\<lparr>logged := logged st @ [(cube_var_name (the_cube st), warnings st)]\<rparr>
      else st)"

subsection \<open>Variable metadata\<close>

definition get_effective_units :: "checker \<Rightarrow> string" where
  "get_effective_units st =
     (if lower (vi_units (cmor_var st)) = ''psu'' then ''1.0'' else vi_units (cmor_var st))"

text \<open>
  The three parts of \<^verbatim>\<open>_check_var_metadata\<close>, in the order of the source: the standard
  name, the units (with the repair of the legacy attribute), the attribute
  \<^verbatim>\<open>positive\<close> (the only entry of \<^verbatim>\<open>attrs\<close>).
\<close>

definition check_standard_name :: "checker \<Rightarrow> error + checker" where
  "check_standard_name st =
     (if vi_standard_name (cmor_var st) \<noteq> []
         \<and> cube_standard_name (the_cube st) \<noteq> Some (vi_standard_name (cmor_var st))
      then report_error st attr_msg
             [of_opt (cube_var_name (the_cube st)), PStr ''standard_name'',
              PStr (vi_standard_name (cmor_var st)), of_opt (cube_standard_name (the_cube st))]
      else Inr st)"

definition fix_invalid_units :: "checker \<Rightarrow> checker" where
  "fix_invalid_units st =
     (if automatic_fixes st
         \<and> lower (dict_get (attributes (the_cube st)) ''invalid_units'' []) = ''psu''
      then st\<lparr>the_cube := (the_cube st)
                \<lparr>cube_units := ''1.0'',
                 attributes := dict_del (attributes (the_cube st)) ''invalid_units''\<rparr>\<rparr>
      else st)"

definition check_units :: "lib \<Rightarrow> checker \<Rightarrow> error + checker" where
  "check_units L st =
     (if vi_units (cmor_var st) \<noteq> []
         \<and> \<not> is_convertible L (cube_units (the_cube st)) (get_effective_units st)
      then report_error st ''Variable {} units {} can not be converted to {}''
             [of_opt (cube_var_name (the_cube st)), PStr (cube_units (the_cube st)),
              PStr (vi_units (cmor_var st))]
      else Inr st)"

definition check_positive :: "checker \<Rightarrow> error + checker" where
  "check_positive st =
     (let attr_value = vi_positive (cmor_var st) in
      if attr_value \<noteq> [] then
        (case map_of (attributes (the_cube st)) ''positive'' of
           None \<Rightarrow>
             Inr (report_warning st ''{}: attribute {} not present''
                    [of_opt (cube_var_name (the_cube st)), PStr ''positive''])
         | Some v \<Rightarrow>
             if v \<noteq> attr_value
             then report_error st attr_msg
                    [of_opt (cube_var_name (the_cube st)), PStr ''positive'', PStr attr_value, PStr v]
             else Inr st)
      else Inr st)"

definition check_var_metadata :: "lib \<Rightarrow> checker \<Rightarrow> error + checker" where
  "check_var_metadata L st =
     then_do (check_standard_name st)
       (\<lambda>st1. then_do (check_units L (fix_invalid_units st1)) check_positive)"

definition check_fill_value :: "checker \<Rightarrow> error + checker" where
  "check_fill_value st = Inr st"

subsection \<open>Rank and dimension names\<close>

definition rank_dims :: "cube \<Rightarrow> coordinate_info \<Rightarrow> nat list" where
  "rank_dims c coordinate =
     (if ci_generic_level coordinate then []
      else if ci_value coordinate = [] then
        (case coord_by_name c (ci_standard_name coordinate) of
           None \<Rightarrow> []
         | Some x \<Rightarrow> c_dims x)
      else [])"

definition check_rank :: "checker \<Rightarrow> error + checker" where
  "check_rank st =
     (let cs = map snd (vi_coordinates (cmor_var st));
          dimensions = concat (map (rank_dims (the_cube st)) cs);
          rank = length (filter ci_generic_level cs) + length (remdups dimensions)
      in if ndim (the_cube st) \<noteq> rank
         then report_error st does_msg
                [of_opt (cube_var_name (the_cube st)), PStr ''match coordinate rank'']
         else Inr st)"

definition check_dim_name :: "checker \<Rightarrow> coordinate_info \<Rightarrow> error + checker" where
  "check_dim_name st coordinate =
     (if ci_generic_level coordinate then Inr st
      else
        (case coord_by_var_name (the_cube st) (ci_out_name coordinate) of
           Some cube_coord \<Rightarrow>
             if c_standard_name cube_coord \<noteq> Some (ci_standard_name coordinate)
             then report_error st attr_msg
                    [PStr (ci_out_name coordinate), PStr ''standard_name'',
                     PStr (ci_standard_name coordinate), of_opt (c_standard_name cube_coord)]
             else Inr st
         | None \<Rightarrow>
             (case coord_by_name (the_cube st) (ci_standard_name coordinate) of
                Some x \<Rightarrow>
                  report_error st ''Coordinate {0} has var name {1} instead of {2}''
                    [PStr (ci_name coordinate), of_opt (c_var_name x),
                     PStr (ci_out_name coordinate)]
              | None \<Rightarrow>
                  report_error st does_msg [PStr (ci_name coordinate), PStr ''exist''])))"

definition check_dim_names :: "checker \<Rightarrow> error + checker" where
  "check_dim_names st = for_each check_dim_name (map snd (vi_coordinates (cmor_var st))) st"

subsection \<open>Direction and monotonicity\<close>

text \<open>
  \<^verbatim>\<open>iris.util.reverse(cube, dims)\<close> returns the cube with the data and every coordinate
  along the dimensions \<open>dims\<close> reversed; of a coordinate the model holds the entries
  along its first dimension.
\<close>

definition reverse_points :: "nat list \<Rightarrow> coord \<Rightarrow> coord" where
  "reverse_points ds x =
     (case c_dims x of
        [] \<Rightarrow> x
      | d # _ \<Rightarrow> if d \<in> set ds then x\<lparr>c_points := rev (c_points x)\<rparr> else x)"

definition reverse :: "cube \<Rightarrow> nat list \<Rightarrow> cube" where
  "reverse c ds =
     c\<lparr>dim_coords := map (reverse_points ds) (dim_coords c),
       aux_coords := map (reverse_points ds) (aux_coords c)\<rparr>"

definition reverse_coord :: "checker \<Rightarrow> coord \<Rightarrow> checker" where
  "reverse_coord st x =
     (if length (c_dims x) = 1 then st\<lparr>the_cube := reverse (the_cube st) (c_dims x)\<rparr> else st)"

definition check_direction ::
  "checker \<Rightarrow> coord \<Rightarrow> string \<Rightarrow> string \<Rightarrow> bool \<Rightarrow> error + checker" where
  "check_direction st x var_name direction wrong =
     (if wrong then
        (if \<not> automatic_fixes st \<or> length (c_dims x) > 1
         then report_error st is_msg [PStr var_name, PStr direction]
         else Inr (reverse_coord st x))
      else Inr st)"

definition check_coord_monotonicity_and_direction ::
  "lib \<Rightarrow> checker \<Rightarrow> coordinate_info \<Rightarrow> coord \<Rightarrow> string \<Rightarrow> error + checker" where
  "check_coord_monotonicity_and_direction L st cmor x var_name =
     then_do
       (if \<not> is_monotonic L x then report_error st is_msg [PStr var_name, PStr ''monotonic'']
        else Inr st)
       (\<lambda>st1.
          if length (c_points x) = 1 then Inr st1
          else if ci_stored_direction cmor \<noteq> [] then
            (if ci_stored_direction cmor = ''increasing'' then
               (case c_points x of
                  p0 # p1 # _ \<Rightarrow> check_direction st1 x var_name ''increasing'' (p0 > p1)
                | _ \<Rightarrow> Inl IndexError)
             else if ci_stored_direction cmor = ''decreasing'' then
               (case c_points x of
                  p0 # p1 # _ \<Rightarrow> check_direction st1 x var_name ''decreasing'' (p0 < p1)
                | _ \<Rightarrow> Inl IndexError)
             else Inr st1)
          else Inr st1)"

subsection \<open>Coordinate values\<close>

definition check_requested_values ::
  "lib \<Rightarrow> checker \<Rightarrow> coord \<Rightarrow> coordinate_info \<Rightarrow> string \<Rightarrow> error + checker" where
  "check_requested_values L st x coord_info var_name =
     (if ci_requested coord_info \<noteq> [] then
        (case those (map (py_float L) (ci_requested coord_info)) of
           None \<Rightarrow> Inl ValueError
         | Some cmor_points \<Rightarrow>
             Inr (fold (\<lambda>point s.
                         if point \<notin> set (c_points x)
                         then report_warning s contain_msg
                                [PStr var_name, PFloat point, PStr (c_units x)]
                         else s)
                    cmor_points st))
      else Inr st)"

text \<open>
  One bound of \<^verbatim>\<open>_check_coord_values\<close>: the state and the flag
  \<^verbatim>\<open>l_fix_coord_value\<close> go in and come out. \<open>below\<close> tells the lower bound
  (\<^verbatim>\<open>coord.points < valid_min\<close>) from the upper one (\<^verbatim>\<open>coord.points > valid_max\<close>).
\<close>

definition check_bound ::
  "lib \<Rightarrow> coordinate_info \<Rightarrow> coord \<Rightarrow> string \<Rightarrow> bool \<Rightarrow> string \<Rightarrow> checker \<times> bool
     \<Rightarrow> error + checker \<times> bool" where
  "check_bound L coord_info x var_name below bound sf =
     (if bound \<noteq> [] then
        (case py_float L bound of
           None \<Rightarrow> Inl ValueError
         | Some b \<Rightarrow>
             if list_ex (\<lambda>p. if below then p < b else p > b) (c_points x) then
               (if ci_standard_name coord_info = ''longitude'' \<and> automatic_fixes (fst sf)
                then Inr (fst sf, True)
                else map_sum id (\<lambda>s. (s, snd sf))
                       (report_error (fst sf) vals_msg
                          [PStr var_name,
                           PStr (if below then ''< valid_min ='' else ''> valid_max =''),
                           PFloat b]))
             else Inr sf)
      else Inr sf)"

text \<open>
  \<^verbatim>\<open>cube.intersection\<close> with the longitude extent: the cube with the points of that
  coordinate as the library wraps them.
\<close>

definition intersection :: "lib \<Rightarrow> cube \<Rightarrow> string \<Rightarrow> coord \<Rightarrow> cube" where
  "intersection L c var_name x =
     set_dim_coord_by_var_name c var_name (x\<lparr>c_points := intersection_points L x\<rparr>)"

definition check_coord_values ::
  "lib \<Rightarrow> checker \<Rightarrow> coordinate_info \<Rightarrow> coord \<Rightarrow> string \<Rightarrow> error + checker" where
  "check_coord_values L st coord_info x var_name =
     then_do (check_requested_values L st x coord_info var_name)
       (\<lambda>st1.
          then_do (check_bound L coord_info x var_name True (ci_valid_min coord_info) (st1, False))
            (\<lambda>sf1.
               then_do (check_bound L coord_info x var_name False (ci_valid_max coord_info) sf1)
                 (\<lambda>sf2.
                    if snd sf2
                    then Inr ((fst sf2)\<lparr>the_cube := intersection L (the_cube (fst sf2)) var_name x\<rparr>)
                    else Inr (fst sf2))))"

subsection \<open>Single coordinates\<close>

text \<open>
  The units part of \<^verbatim>\<open>_check_coord\<close>: the state and the coordinate after it. The
  conversion is tried only with automatic fixes; its \<^verbatim>\<open>ValueError\<close> is caught and
  leaves \<^verbatim>\<open>fixed\<close> false.
\<close>

definition check_coord_units ::
  "lib \<Rightarrow> checker \<Rightarrow> coordinate_info \<Rightarrow> coord \<Rightarrow> string \<Rightarrow> error + checker \<times> coord" where
  "check_coord_units L st cmor x var_name =
     (if ci_units cmor \<noteq> [] \<and> c_units x \<noteq> ci_units cmor then
        (case (if automatic_fixes st
               then convert L (c_units x) (c_calendar x) (ci_units cmor) (c_points x)
               else None) of
           Some ps \<Rightarrow>
             (let x' = x\<lparr>c_units := ci_units cmor, c_points := ps\<rparr>
              in Inr (st\<lparr>the_cube := set_dim_coord_by_var_name (the_cube st) var_name x'\<rparr>, x'))
         | None \<Rightarrow>
             map_sum id (\<lambda>s. (s, x))
               (report_error st attr_msg
                  [PStr var_name, PStr ''units'', PStr (ci_units cmor), PStr (c_units x)]))
      else Inr (st, x))"

definition check_coord ::
  "lib \<Rightarrow> checker \<Rightarrow> coordinate_info \<Rightarrow> coord \<Rightarrow> string \<Rightarrow> error + checker" where
  "check_coord L st cmor x var_name =
     (if c_var_name x = Some ''time'' then Inr st
      else
        then_do (check_coord_units L st cmor x var_name)
          (\<lambda>sx.
             then_do (check_coord_values L (fst sx) cmor (snd sx) var_name)
               (\<lambda>st2.
                  if \<not> automatic_fixes st2
                  then check_coord_monotonicity_and_direction L st2 cmor (snd sx) var_name
                  else Inr st2)))"

definition check_coords_step :: "lib \<Rightarrow> checker \<Rightarrow> coordinate_info \<Rightarrow> error + checker" where
  "check_coords_step L st coordinate =
     (if ci_generic_level coordinate then Inr st
      else
        (case dim_coord_by_var_name (the_cube st) (ci_out_name coordinate) of
           None \<Rightarrow> Inr st
         | Some x \<Rightarrow> check_coord L st coordinate x (ci_out_name coordinate)))"

definition check_coords :: "lib \<Rightarrow> checker \<Rightarrow> error + checker" where
  "check_coords L st =
     for_each (check_coords_step L) (map snd (vi_coordinates (cmor_var st))) st"

definition check_coords_data_step ::
  "lib \<Rightarrow> checker \<Rightarrow> coordinate_info \<Rightarrow> error + checker" where
  "check_coords_data_step L st coordinate =
     (if ci_generic_level coordinate then Inr st
      else
        (case dim_coord_by_var_name (the_cube st) (ci_out_name coordinate) of
           None \<Rightarrow> Inr st
         | Some x \<Rightarrow>
             check_coord_monotonicity_and_direction L st coordinate x (ci_out_name coordinate)))"

definition check_coords_data :: "lib \<Rightarrow> checker \<Rightarrow> error + checker" where
  "check_coords_data L st =
     for_each (check_coords_data_step L) (map snd (vi_coordinates (cmor_var st))) st"

subsection \<open>The time coordinate\<close>

definition simplify_calendar :: "string option \<Rightarrow> string option" where
  "simplify_calendar calendar =
     (if calendar = Some ''all_leap'' then Some ''366_day''
      else if calendar = Some ''noleap'' then Some ''365_day''
      else if calendar = Some ''standard'' then Some ''gregorian''
      else calendar)"

definition days_since_1950 :: string where
  "days_since_1950 = ''days since 1950-1-1 00:00:00''"

definition freq_msg :: string where
  "freq_msg = ''{}: Frequency {} does not match input data''"

text \<open>
  The three scans over consecutive points. Each reports at the first pair that fails
  and leaves the loop (\<^verbatim>\<open>break\<close>).
\<close>

fun scan_mon :: "checker \<Rightarrow> pyval \<Rightarrow> date list \<Rightarrow> error + checker" where
  "scan_mon st var_name (first # second # rest) =
     (let second_month = month first + 1;
          second_year = year first;
          second_year' = (if second_month = 13 then second_year + 1 else second_year);
          second_month' = (if second_month = 13 then 1 else second_month)
      in if second_month' \<noteq> month second \<or> second_year' \<noteq> year second
         then report_error st freq_msg [var_name, PStr (frequency st)]
         else scan_mon st var_name (second # rest))"
| "scan_mon st var_name _ = Inr st"

fun scan_yr :: "checker \<Rightarrow> pyval \<Rightarrow> date list \<Rightarrow> error + checker" where
  "scan_yr st var_name (first # second # rest) =
     (if year first + 1 \<noteq> year second
      then report_error st freq_msg [var_name, PStr (frequency st)]
      else scan_yr st var_name (second # rest))"
| "scan_yr st var_name _ = Inr st"

fun scan_intervals :: "checker \<Rightarrow> pyval \<Rightarrow> real \<times> real \<Rightarrow> real list \<Rightarrow> error + checker" where
  "scan_intervals st var_name target_interval (p # q # rest) =
     (let interval = q - p
      in if interval < fst target_interval \<or> interval > snd target_interval
         then report_error st freq_msg [var_name, PStr (frequency st)]
         else scan_intervals st var_name target_interval (q # rest))"
| "scan_intervals st var_name target_interval _ = Inr st"

text \<open>
  \<^verbatim>\<open>coord.cell(i).point\<close> is a date only when the units of the coordinate are a time
  reference; otherwise it is a number, and reading its \<^verbatim>\<open>month\<close> raises
  \<^verbatim>\<open>AttributeError\<close>. No cell is read when there are fewer than two points.
\<close>

definition cells :: "lib \<Rightarrow> coord \<Rightarrow> error + date list" where
  "cells L x =
     (if length (c_points x) < 2 then Inr []
      else if is_time_reference L (c_units x)
      then Inr (map (num2date L (c_units x) (c_calendar x)) (c_points x))
      else Inl AttributeError)"

definition tol :: real where
  "tol = 0.001"

definition target_interval_of :: "lib \<Rightarrow> string \<Rightarrow> error + (real \<times> real) option" where
  "target_interval_of L freq =
     (if freq = ''dec'' then Inr (Some (3600 - tol, 3660 + tol))
      else if freq = ''day'' then Inr (Some (1 - tol, 1 + tol))
      else if endswith freq ''hr'' then
        (let f = take (length freq - 2) freq in
         if f = ''sub'' then Inr (Some (- tol, 1 / 24 + tol))
         else (case py_float L f of
                 None \<Rightarrow> Inl ValueError
               | Some n \<Rightarrow> Inr (Some (n / 24 - tol, n / 24 + tol))))
      else Inr None)"

definition check_frequency :: "lib \<Rightarrow> checker \<Rightarrow> coord \<Rightarrow> error + checker" where
  "check_frequency L st x =
     (let var_name = of_opt (c_var_name x) in
      if frequency st = ''mon'' then then_do (cells L x) (scan_mon st var_name)
      else if frequency st = ''yr'' then then_do (cells L x) (scan_yr st var_name)
      else
        then_do (target_interval_of L (frequency st))
          (\<lambda>t. case t of
                  None \<Rightarrow>
                    report_error st ''{}: Frequency {} not supported by checker''
                      [var_name, PStr (frequency st)]
                | Some target_interval \<Rightarrow>
                    scan_intervals st var_name target_interval (c_points x)))"

definition normalize_time :: "lib \<Rightarrow> checker \<Rightarrow> coord \<Rightarrow> error + checker \<times> coord" where
  "normalize_time L st x =
     (if \<not> is_time_reference L (c_units x) then
        map_sum id (\<lambda>s. (s, x))
          (report_error st does_msg [of_opt (c_var_name x), PStr ''have time reference units''])
      else
        (case convert L (c_units x) (c_calendar x) days_since_1950 (c_points x) of
           None \<Rightarrow> Inl ValueError
         | Some ps \<Rightarrow>
             (let x' = x\<lparr>c_units := days_since_1950,
                         c_calendar := simplify_calendar (c_calendar x),
                         c_points := ps\<rparr>
              in Inr (st\<lparr>the_cube := set_dim_coord_by_name (the_cube st) ''time'' x'\<rparr>, x'))))"

definition check_time_coord :: "lib \<Rightarrow> checker \<Rightarrow> error + checker" where
  "check_time_coord L st =
     (case dim_coord_by_name (the_cube st) ''time'' of
        None \<Rightarrow> Inr st
      | Some x \<Rightarrow>
          then_do (normalize_time L st x) (\<lambda>sx. check_frequency L (fst sx) (snd sx)))"

subsection \<open>Auxiliary time coordinates\<close>

text \<open>
  \<^verbatim>\<open>iris.coord_categorisation.add_day_of_month(cube, 'time')\<close> and its three siblings
  look the coordinate \<^verbatim>\<open>time\<close> up among all coordinates of the cube
  (\<^verbatim>\<open>CoordinateNotFoundError\<close> when it is not there), refuse a name the cube already
  has (\<^verbatim>\<open>ValueError\<close>), and add an auxiliary coordinate with that long name along the
  dimensions of the time coordinate.
\<close>

definition categorised_coord :: "lib \<Rightarrow> coord \<Rightarrow> string \<Rightarrow> coord" where
  "categorised_coord L from_coord name =
     \<lparr>c_var_name = None, c_standard_name = None, c_long_name = Some name,
      c_units = ''1'', c_calendar = None,
      c_points = category_points L name from_coord,
      c_dims = c_dims from_coord\<rparr>"

definition add_categorised_coord :: "lib \<Rightarrow> cube \<Rightarrow> string \<Rightarrow> error + cube" where
  "add_categorised_coord L c name =
     (case coord_by_name c ''time'' of
        None \<Rightarrow> Inl CoordinateNotFoundError
      | Some from_coord \<Rightarrow>
          if filter (\<lambda>x. coord_name x = name) (coords c) \<noteq> [] then Inl ValueError
          else Inr (c\<lparr>aux_coords := aux_coords c @ [categorised_coord L from_coord name]\<rparr>))"

definition add_if_missing :: "lib \<Rightarrow> string list \<Rightarrow> string \<Rightarrow> checker \<Rightarrow> error + checker" where
  "add_if_missing L names name st =
     (if name \<notin> set names
      then map_sum id (\<lambda>c. st\<lparr>the_cube := c\<rparr>) (add_categorised_coord L (the_cube st) name)
      else Inr st)"

definition add_auxiliar_time_coordinates :: "lib \<Rightarrow> checker \<Rightarrow> error + checker" where
  "add_auxiliar_time_coordinates L st =
     (let names = map coord_name (aux_coords (the_cube st)) in
      then_do (add_if_missing L names ''day_of_month'' st)
        (\<lambda>st1. then_do (add_if_missing L names ''day_of_year'' st1)
           (\<lambda>st2. then_do (add_if_missing L names ''month_number'' st2)
              (add_if_missing L names ''year''))))"

subsection \<open>The two phases\<close>

text \<open>
  \<open>metadata_checks\<close> and \<open>data_checks\<close> are the checks of a phase, before the
  warnings and the errors are reported. \<open>check_metadata_st\<close> and \<open>check_data_st\<close> give
  the checker after the phase; the methods \<^verbatim>\<open>check_metadata\<close> and \<^verbatim>\<open>check_data\<close> return
  its cube.
\<close>

definition metadata_checks :: "lib \<Rightarrow> checker \<Rightarrow> error + checker" where
  "metadata_checks L st =
     then_do (check_var_metadata L st)
       (\<lambda>st1. then_do (check_fill_value st1)
          (\<lambda>st2. then_do (check_dim_names st2)
             (\<lambda>st3. then_do (check_coords L st3)
                (\<lambda>st4. then_do (check_time_coord L st4) check_rank))))"

definition check_metadata_st :: "lib \<Rightarrow> checker \<Rightarrow> error + checker" where
  "check_metadata_st L st =
     then_do (metadata_checks L st)
       (\<lambda>st1. then_do (report_errors (report_warnings st1)) (add_auxiliar_time_coordinates L))"

definition check_metadata :: "lib \<Rightarrow> checker \<Rightarrow> error + cube" where
  "check_metadata L st = map_sum id the_cube (check_metadata_st L st)"

text \<open>
  \<^verbatim>\<open>cube.convert_units(units)\<close> raises \<^verbatim>\<open>ValueError\<close> when the units of the cube cannot be
  converted; otherwise it scales the data and sets the units of the cube.
\<close>

definition convert_units :: "lib \<Rightarrow> cube \<Rightarrow> string \<Rightarrow> error + cube" where
  "convert_units L c u =
     (if is_convertible L (cube_units c) u then Inr (c\<lparr>cube_units := u\<rparr>) else Inl ValueError)"

definition convert_cube_units :: "lib \<Rightarrow> checker \<Rightarrow> error + checker" where
  "convert_cube_units L st =
     (if vi_units (cmor_var st) \<noteq> [] then
        (let u = get_effective_units st in
         if cube_units (the_cube st) \<noteq> u
         then map_sum id (\<lambda>c. st\<lparr>the_cube := c\<rparr>) (convert_units L (the_cube st) u)
         else Inr st)
      else Inr st)"

definition data_checks :: "lib \<Rightarrow> checker \<Rightarrow> error + checker" where
  "data_checks L st = then_do (convert_cube_units L st) (check_coords_data L)"

definition check_data_st :: "lib \<Rightarrow> checker \<Rightarrow> error + checker" where
  "check_data_st L st =
     then_do (data_checks L st) (\<lambda>st1. report_errors (report_warnings st1))"

definition check_data :: "lib \<Rightarrow> checker \<Rightarrow> error + cube" where
  "check_data L st = map_sum id the_cube (check_data_st L st)"

subsection \<open>Sequences of report calls\<close>

text \<open>
  A call of \<^verbatim>\<open>report_error\<close> or \<^verbatim>\<open>report_warning\<close> from outside, and the checker
  object after a sequence of them. A call of \<^verbatim>\<open>report_error\<close> that raises leaves the
  object as it was: \<^verbatim>\<open>raise\<close> comes before the only assignment of the method.
\<close>

datatype report_call = Report_error string "pyval list" | Report_warning string "pyval list"

fun after_call :: "checker \<Rightarrow> report_call \<Rightarrow> checker" where
  "after_call st (Report_error message args) =
     (case report_error st message args of Inl e \<Rightarrow> st | Inr st' \<Rightarrow> st')"
| "after_call st (Report_warning message args) = report_warning st message args"

definition after_calls :: "checker \<Rightarrow> report_call list \<Rightarrow> checker" where
  "after_calls st calls = fold (\<lambda>c s. after_call s c) calls st"

section \<open>What the checks keep\<close>

text \<open>
  Relations used to state what a check leaves alone. \<open>ident\<close> is what identifies a
  coordinate in the lookups; \<open>same_head\<close> and \<open>same_names\<close> compare two cubes on their
  own attributes and on the identities of their coordinates. \<open>advances st st'\<close>: the
  checker \<open>st'\<close> has the settings of \<open>st\<close> and lists that extend those of \<open>st\<close>.
  \<open>frame R st r\<close>: the outcome \<open>r\<close> of a check started in \<open>st\<close> is a checker that
  advances \<open>st\<close>, or an exception; a \<^verbatim>\<open>CMORCheckError\<close> is then the one of
  \<^verbatim>\<open>report_error\<close> in fail-fast mode; the cube of the outcome is related by \<open>R\<close> to the
  cube of \<open>st\<close>.
\<close>

definition ident :: "coord \<Rightarrow> string option \<times> string option \<times> string option \<times> nat list" where
  "ident x = (c_var_name x, c_standard_name x, c_long_name x, c_dims x)"

definition same_head :: "cube \<Rightarrow> cube \<Rightarrow> bool" where
  "same_head c c' =
     (cube_var_name c' = cube_var_name c \<and> cube_standard_name c' = cube_standard_name c
      \<and> cube_units c' = cube_units c \<and> attributes c' = attributes c \<and> ndim c' = ndim c)"

definition same_names :: "cube \<Rightarrow> cube \<Rightarrow> bool" where
  "same_names c c' =
     (map ident (dim_coords c') = map ident (dim_coords c)
      \<and> map ident (aux_coords c') = map ident (aux_coords c))"

definition kept :: "cube \<Rightarrow> cube \<Rightarrow> bool" where
  "kept c c' = (same_head c c' \<and> same_names c c')"

definition advances :: "checker \<Rightarrow> checker \<Rightarrow> bool" where
  "advances st st' =
     (failerr st' = failerr st \<and> cmor_var st' = cmor_var st \<and> frequency st' = frequency st
      \<and> automatic_fixes st' = automatic_fixes st \<and> logged st' = logged st
      \<and> (\<exists>es. errors st' = errors st @ es) \<and> (\<exists>ws. warnings st' = warnings st @ ws)
      \<and> (\<exists>os. stdout st' = stdout st @ os)
      \<and> (if failerr st then errors st' = errors st \<and> warnings st' = warnings st
          else stdout st' = stdout st))"

definition frame :: "(cube \<Rightarrow> cube \<Rightarrow> bool) \<Rightarrow> checker \<Rightarrow> error + checker \<Rightarrow> bool" where
  "frame R st r =
     (case r of
        Inr st' \<Rightarrow> advances st st' \<and> R (the_cube st) (the_cube st')
      | Inl e \<Rightarrow>
          (case e of
             CMORCheckError rep \<Rightarrow>
               (case rep of
                  Single m c \<Rightarrow> failerr st \<and> R (the_cube st) c
                | Summary n es c \<Rightarrow> False)
           | _ \<Rightarrow> True))"

definition located :: "cube \<Rightarrow> string \<Rightarrow> coord \<Rightarrow> bool" where
  "located c v x = list_all (\<lambda>y. c_var_name y = Some v \<longrightarrow> ident y = ident x) (dim_coords c)"

section \<open>A library instance and sample inputs\<close>

text \<open>
  An instance of the library parameters, to evaluate the checker on concrete inputs:
  decimal digits for \<^verbatim>\<open>float\<close>, a few convertible units, strictly monotonic points,
  the 360-day calendar counted from 1950, and longitudes wrapped into [0, 360) in
  ascending order.
\<close>

definition digit_of :: "char \<Rightarrow> nat option" where
  "digit_of c = (let n = (of_char c :: nat) in if 48 \<le> n \<and> n \<le> 57 then Some (n - 48) else None)"

fun parse_nat :: "nat \<Rightarrow> string \<Rightarrow> nat option" where
  "parse_nat acc [] = Some acc"
| "parse_nat acc (c # cs) =
     (case digit_of c of None \<Rightarrow> None | Some d \<Rightarrow> parse_nat (10 * acc + d) cs)"

definition sample_float :: "string \<Rightarrow> real option" where
  "sample_float s = (if s = [] then None else map_option real (parse_nat 0 s))"

definition sample_is_convertible :: "string \<Rightarrow> string \<Rightarrow> bool" where
  "sample_is_convertible u v =
     (u = v \<or> (u \<in> set [''1'', ''1.0''] \<and> v \<in> set [''1'', ''1.0''])
      \<or> (u \<in> set [''K'', ''degC''] \<and> v \<in> set [''K'', ''degC'']))"

definition sample_is_time_reference :: "string \<Rightarrow> bool" where
  "sample_is_time_reference u = (take 11 u = ''days since '')"

definition sample_convert ::
  "string \<Rightarrow> string option \<Rightarrow> string \<Rightarrow> real list \<Rightarrow> real list option" where
  "sample_convert u cal v ps =
     (if u = v then Some ps
      else if u = ''days since 1949-1-1 00:00:00'' \<and> v = days_since_1950
      then Some (map (\<lambda>p. p - 360) ps)
      else if u = ''degrees'' \<and> v = ''degrees_east'' then Some ps
      else None)"

definition sample_is_monotonic :: "coord \<Rightarrow> bool" where
  "sample_is_monotonic x =
     (sorted_wrt (\<lambda>a b. a < b) (c_points x) \<or> sorted_wrt (\<lambda>a b. a > b) (c_points x))"

definition sample_num2date :: "string \<Rightarrow> string option \<Rightarrow> real \<Rightarrow> date" where
  "sample_num2date u cal p = \<lparr>year = 1950 + \<lfloor>p / 360\<rfloor>, month = \<lfloor>p / 30\<rfloor> mod 12 + 1\<rparr>"

definition wrap360 :: "real \<Rightarrow> real" where
  "wrap360 p = p - 360 * of_int \<lfloor>p / 360\<rfloor>"

definition sample_intersection_points :: "coord \<Rightarrow> real list" where
  "sample_intersection_points x = sort (map wrap360 (c_points x))"

definition sample_category_points :: "string \<Rightarrow> coord \<Rightarrow> real list" where
  "sample_category_points n x =
     map (\<lambda>p. if n = ''year'' then of_int (1950 + \<lfloor>p / 360\<rfloor>)
               else if n = ''month_number'' then of_int (\<lfloor>p / 30\<rfloor> mod 12 + 1)
               else if n = ''day_of_month'' then of_int (\<lfloor>p\<rfloor> mod 30 + 1)
               else of_int (\<lfloor>p\<rfloor> mod 360 + 1))
       (c_points x)"

definition sample_lib :: lib where
  "sample_lib =
     \<lparr>py_float = sample_float, is_convertible = sample_is_convertible,
      is_time_reference = sample_is_time_reference, convert = sample_convert,
      is_monotonic = sample_is_monotonic, num2date = sample_num2date,
      intersection_points = sample_intersection_points,
      category_points = sample_category_points\<rparr>"

definition empty_cube :: cube where
  "empty_cube =
     \<lparr>cube_var_name = Some ''tas'', cube_standard_name = Some ''air_temperature'',
      cube_units = ''K'', attributes = [], ndim = 0, dim_coords = [], aux_coords = []\<rparr>"

definition no_coords_var :: variable_info where
  "no_coords_var =
     \<lparr>vi_standard_name = ''air_temperature'', vi_units = ''K'', vi_positive = [],
      vi_frequency = ''mon'', vi_coordinates = []\<rparr>"

section \<open>What the frequency check accepts\<close>

text \<open>
  The statements of the frequency checks, written from their description and not from
  the loops: a series is \<open>monthly\<close> when every point is one calendar month after the
  one before it, December being followed by January of the next year; its gaps are
  within \<open>lo\<close> and \<open>hi\<close> when every difference of consecutive points lies in the
  closed interval.
\<close>

definition one_month_apart :: "date \<Rightarrow> date \<Rightarrow> bool" where
  "one_month_apart a b =
     (if month a = 12 then month b = 1 \<and> year b = year a + 1
      else month b = month a + 1 \<and> year b = year a)"

fun monthly :: "date list \<Rightarrow> bool" where
  "monthly (a # b # rest) = (one_month_apart a b \<and> monthly (b # rest))"
| "monthly _ = True"

fun gaps_within :: "real \<Rightarrow> real \<Rightarrow> real list \<Rightarrow> bool" where
  "gaps_within lo hi (p # q # rest) = (lo \<le> q - p \<and> q - p \<le> hi \<and> gaps_within lo hi (q # rest))"
| "gaps_within lo hi _ = True"

text \<open>
  The time coordinate after \<^verbatim>\<open>_check_time_coord\<close> has normalised it: days since 1950
  in its own calendar, the calendar under its simplified name, the points \<open>ps\<close> as
  converted.
\<close>

definition normalized_time :: "coord \<Rightarrow> real list \<Rightarrow> coord" where
  "normalized_time x ps =
     x\<lparr>c_units := days_since_1950, c_calendar := simplify_calendar (c_calendar x), c_points := ps\<rparr>"

text \<open>Sample cubes with one time coordinate in the 360-day calendar.\<close>

definition time_coord :: "real list \<Rightarrow> coord" where
  "time_coord ps =
     \<lparr>c_var_name = Some ''time'', c_standard_name = Some ''time'', c_long_name = None,
      c_units = days_since_1950, c_calendar = Some ''360_day'', c_points = ps, c_dims = [0]\<rparr>"

definition time_cube :: "real list \<Rightarrow> cube" where
  "time_cube ps =
     \<lparr>cube_var_name = Some ''tas'', cube_standard_name = Some ''air_temperature'',
      cube_units = ''K'', attributes = [], ndim = 1, dim_coords = [time_coord ps],
      aux_coords = []\<rparr>"

definition time_info :: coordinate_info where
  "time_info =
     \<lparr>ci_name = ''time'', ci_generic_level = False, ci_value = [], ci_standard_name = ''time'',
      ci_out_name = ''time'', ci_units = ''days since ?'', ci_stored_direction = ''increasing'',
      ci_valid_min = [], ci_valid_max = [], ci_requested = []\<rparr>"

definition time_var :: variable_info where
  "time_var =
     \<lparr>vi_standard_name = ''air_temperature'', vi_units = ''K'', vi_positive = [],
      vi_frequency = ''mon'', vi_coordinates = [(''time'', time_info)]\<rparr>"

definition time_checker :: "real list \<Rightarrow> string \<Rightarrow> bool \<Rightarrow> checker" where
  "time_checker ps freq fail_on_error =
     CMORCheck (time_cube ps) time_var (Some freq) fail_on_error False"

text \<open>
  The interval for a frequency \<^verbatim>\<open>Nhr\<close>: \<^verbatim>\<open>N/24\<close> days plus or minus the tolerance, and
  for \<^verbatim>\<open>subhr\<close> from minus the tolerance to \<^verbatim>\<open>1/24\<close> plus the tolerance.
\<close>

definition hr_interval :: "lib \<Rightarrow> string \<Rightarrow> (real \<times> real) option" where
  "hr_interval L n =
     (if n = ''sub'' then Some (- 0.001, 1 / 24 + 0.001)
      else map_option (\<lambda>f. (f / 24 - 0.001, f / 24 + 0.001)) (py_float L n))"

text \<open>Sample cubes with one latitude or longitude coordinate along dimension 0.\<close>

definition axis_coord :: "string \<Rightarrow> string \<Rightarrow> string \<Rightarrow> real list \<Rightarrow> coord" where
  "axis_coord v sn u ps =
     \<lparr>c_var_name = Some v, c_standard_name = Some sn, c_long_name = None,
      c_units = u, c_calendar = None, c_points = ps, c_dims = [0]\<rparr>"

definition axis_info :: "string \<Rightarrow> string \<Rightarrow> string \<Rightarrow> string \<Rightarrow> string \<Rightarrow> string \<Rightarrow> coordinate_info" where
  "axis_info v sn u direction vmin vmax =
     \<lparr>ci_name = sn, ci_generic_level = False, ci_value = [], ci_standard_name = sn,
      ci_out_name = v, ci_units = u, ci_stored_direction = direction,
      ci_valid_min = vmin, ci_valid_max = vmax, ci_requested = []\<rparr>"

definition axis_cube :: "coord \<Rightarrow> cube" where
  "axis_cube x =
     \<lparr>cube_var_name = Some ''tas'', cube_standard_name = Some ''air_temperature'',
      cube_units = ''K'', attributes = [], ndim = 1, dim_coords = [x], aux_coords = []\<rparr>"

definition axis_var :: "coordinate_info \<Rightarrow> variable_info" where
  "axis_var ci =
     \<lparr>vi_standard_name = ''air_temperature'', vi_units = ''K'', vi_positive = [],
      vi_frequency = ''mon'', vi_coordinates = [(ci_name ci, ci)]\<rparr>"

definition lat_coord :: "real list \<Rightarrow> coord" where
  "lat_coord ps = axis_coord ''lat'' ''latitude'' ''degrees_north'' ps"

definition lat_info :: coordinate_info where
  "lat_info = axis_info ''lat'' ''latitude'' ''degrees_north'' ''increasing'' [] []"

definition lon_coord :: "real list \<Rightarrow> coord" where
  "lon_coord ps = axis_coord ''lon'' ''longitude'' ''degrees_east'' ps"

definition lon_info :: coordinate_info where
  "lon_info = axis_info ''lon'' ''longitude'' ''degrees_east'' ''increasing'' ''0'' ''360''"

text \<open>Sample cube with the legacy attribute of practical salinity units.\<close>

definition psu_cube :: cube where
  "psu_cube =
     (time_cube [15, 45])
       \<lparr>cube_var_name := Some ''so'', cube_standard_name := Some ''sea_water_salinity'',
        cube_units := ''unknown'', attributes := [(''invalid_units'', ''PSU'')]\<rparr>"

definition psu_var :: variable_info where
  "psu_var = time_var\<lparr>vi_standard_name := ''sea_water_salinity'', vi_units := ''psu''\<rparr>"

text \<open>
  The four auxiliary coordinates derived from time, and the ones a cube still lacks:
  those whose name no auxiliary coordinate of the cube has, each derived from the time
  coordinate of the cube.
\<close>

definition time_aux_names :: "string list" where
  "time_aux_names = [''day_of_month'', ''day_of_year'', ''month_number'', ''year'']"

definition missing_time_aux :: "lib \<Rightarrow> cube \<Rightarrow> coord list" where
  "missing_time_aux L c =
     (case coord_by_name c ''time'' of
        None \<Rightarrow> []
      | Some from_coord \<Rightarrow>
          map (categorised_coord L from_coord)
            (filter (\<lambda>n. n \<notin> set (map coord_name (aux_coords c))) time_aux_names))"

text \<open>Sample cubes in degrees Celsius, and with another standard name.\<close>

definition degC_cube :: cube where
  "degC_cube = (time_cube [15, 45])\<lparr>cube_units := ''degC''\<rparr>"

definition renamed_cube :: cube where
  "renamed_cube = (time_cube [15, 45])\<lparr>cube_standard_name := Some ''surface_temperature''\<rparr>"

text \<open>
  A fail-fast run against a collect-all run of the same check. \<open>in_step s t\<close>: the
  fail-fast checker \<open>s\<close> and the collect-all checker \<open>t\<close> have the same cube and the
  same settings but the flag, and neither has seen an error. \<open>follows V p rs rt\<close>
  compares the outcomes \<open>rs\<close> and \<open>rt\<close> of the two runs (\<open>p\<close> gives the checker of a
  result, \<open>V\<close> relates two results): when the collect-all run ends without error, the
  fail-fast run ends in a related result; when it ends with errors, the fail-fast run
  has raised the first of them; when a library exception ends it, the fail-fast run has
  ended with the same exception or has raised an error before.
\<close>

definition in_step :: "checker \<Rightarrow> checker \<Rightarrow> bool" where
  "in_step s t =
     (failerr s \<and> \<not> failerr t \<and> errors s = [] \<and> errors t = [] \<and> the_cube s = the_cube t
      \<and> cmor_var s = cmor_var t \<and> frequency s = frequency t
      \<and> automatic_fixes s = automatic_fixes t)"

definition follows ::
  "('a \<Rightarrow> 'a \<Rightarrow> bool) \<Rightarrow> ('a \<Rightarrow> checker) \<Rightarrow> error + 'a \<Rightarrow> error + 'a \<Rightarrow> bool" where
  "follows V p rs rt =
     (case rt of
        Inr t' \<Rightarrow>
          (if errors (p t') = [] then (\<exists>s'. rs = Inr s' \<and> V s' t')
           else (\<exists>c. rs = Inl (CMORCheckError (Single (hd (errors (p t'))) c))))
      | Inl e \<Rightarrow> rs = Inl e \<or> (\<exists>m c. rs = Inl (CMORCheckError (Single m c))))"

definition in_step_with :: "checker \<times> 'b \<Rightarrow> checker \<times> 'b \<Rightarrow> bool" where
  "in_step_with sx ty = (in_step (fst sx) (fst ty) \<and> snd sx = snd ty)"

text \<open>
  The error policy of a phase, from its description. \<open>checks\<close> are the checks of the
  phase and \<open>phase\<close> is the phase with its final report. In fail-fast mode a
  \<^verbatim>\<open>CMORCheckError\<close> of the phase is the one a \<^verbatim>\<open>report_error\<close> call raised inside the
  checks, and it carries the first error that the same checks collect when they run in
  collect-all mode; when those collect none, the fail-fast checks end as well, with the
  same cube. In collect-all mode no check raises a \<^verbatim>\<open>CMORCheckError\<close>, and the phase
  raises one exactly when the checks ran to their end and left errors: it then carries
  the variable name, all the errors and the cube.
\<close>

definition fail_fast_policy ::
  "(checker \<Rightarrow> error + checker) \<Rightarrow> (checker \<Rightarrow> error + checker) \<Rightarrow> checker \<Rightarrow> bool" where
  "fail_fast_policy checks phase st =
     ((\<forall>r. phase st = Inl (CMORCheckError r) \<longrightarrow>
          (\<exists>m c. r = Single m c \<and> checks st = Inl (CMORCheckError (Single m c))))
      \<and> (\<forall>t' e es. checks (st\<lparr>failerr := False\<rparr>) = Inr t' \<and> errors t' = e # es \<longrightarrow>
            (\<exists>c. phase st = Inl (CMORCheckError (Single e c))))
      \<and> (\<forall>t'. checks (st\<lparr>failerr := False\<rparr>) = Inr t' \<and> errors t' = [] \<longrightarrow>
            (\<exists>s'. checks st = Inr s' \<and> the_cube s' = the_cube t' \<and> errors s' = [])))"

definition collect_all_policy ::
  "(checker \<Rightarrow> error + checker) \<Rightarrow> (checker \<Rightarrow> error + checker) \<Rightarrow> checker \<Rightarrow> bool" where
  "collect_all_policy checks phase st =
     ((\<forall>r. checks st \<noteq> Inl (CMORCheckError r))
      \<and> (\<forall>r. phase st = Inl (CMORCheckError r) \<longleftrightarrow>
            (\<exists>st1. checks st = Inr st1 \<and> errors st1 \<noteq> []
                   \<and> r = Summary (cube_var_name (the_cube st1)) (errors st1) (the_cube st1))))"

text \<open>A sample cube with two faults: another standard name, and a gap of two months.\<close>

definition faulty_cube :: cube where
  "faulty_cube = (time_cube [15, 75])\<lparr>cube_standard_name := Some ''surface_temperature''\<rparr>"

text \<open>
  Two parts of the coordinate checks, named to be reasoned about on their own: the two
  bounds with the re-wrapping that follows them in \<^verbatim>\<open>_check_coord_values\<close>, and what
  \<^verbatim>\<open>_check_coord\<close> does after the units.
\<close>

definition bounds_part ::
  "lib \<Rightarrow> coordinate_info \<Rightarrow> coord \<Rightarrow> string \<Rightarrow> checker \<Rightarrow> error + checker" where
  "bounds_part L ci x v st1 =
     then_do (check_bound L ci x v True (ci_valid_min ci) (st1, False))
       (\<lambda>sf1. then_do (check_bound L ci x v False (ci_valid_max ci) sf1)
          (\<lambda>sf2. if snd sf2
             then Inr ((fst sf2)\<lparr>the_cube := intersection L (the_cube (fst sf2)) v x\<rparr>)
             else Inr (fst sf2)))"

definition coord_tail ::
  "lib \<Rightarrow> coordinate_info \<Rightarrow> string \<Rightarrow> checker \<times> coord \<Rightarrow> error + checker" where
  "coord_tail L cmor v sx =
     then_do (check_coord_values L (fst sx) cmor (snd sx) v)
       (\<lambda>st2. if \<not> automatic_fixes st2
          then check_coord_monotonicity_and_direction L st2 cmor (snd sx) v
          else Inr st2)"

text \<open>
  A cube with more auxiliary coordinates, a checker on such a cube, and an exception
  that carries such a cube: used to compare a run of the checks on a cube with their
  run on the cube that has its auxiliary time coordinates. \<open>aside E v\<close>: the
  coordinates \<open>E\<close> have no variable name, and none has the standard name of a
  coordinate that the specification \<open>v\<close> looks up.
\<close>

definition with_aux :: "coord list \<Rightarrow> cube \<Rightarrow> cube" where
  "with_aux E c = c\<lparr>aux_coords := aux_coords c @ E\<rparr>"

definition on_aux :: "coord list \<Rightarrow> checker \<Rightarrow> checker" where
  "on_aux E s = s\<lparr>the_cube := with_aux E (the_cube s)\<rparr>"

definition on_aux_error :: "coord list \<Rightarrow> error \<Rightarrow> error" where
  "on_aux_error E e =
     (case e of
        CMORCheckError r \<Rightarrow>
          (case r of
             Single m c \<Rightarrow> CMORCheckError (Single m (with_aux E c))
           | Summary n es c \<Rightarrow> CMORCheckError (Summary n es (with_aux E c)))
      | _ \<Rightarrow> e)"

definition aside :: "coord list \<Rightarrow> variable_info \<Rightarrow> bool" where
  "aside E v =
     (list_all (\<lambda>e. c_var_name e = None) E
      \<and> list_all (\<lambda>ci. ci_generic_level ci \<or> ci_standard_name ci \<notin> set (map coord_name E))
          (map snd (vi_coordinates v)))"

section \<open>Reporting\<close>

lemma then_do_Inr [simp]: "then_do (Inr x) f = f x"
  by (simp add: then_do_def)

lemma then_do_Inl [simp]: "then_do (Inl e) f = Inl e"
  by (simp add: then_do_def)

lemma after_call_failfast:
  "failerr st \<Longrightarrow> errors st = [] \<Longrightarrow> warnings st = [] \<Longrightarrow>
   failerr (after_call st c) \<and> errors (after_call st c) = [] \<and> warnings (after_call st c) = []
   \<and> the_cube (after_call st c) = the_cube st"
  by (cases c) (simp_all add: report_error_def report_warning_def)

lemma after_calls_failfast:
  "failerr st \<Longrightarrow> errors st = [] \<Longrightarrow> warnings st = [] \<Longrightarrow>
   failerr (after_calls st cs) \<and> errors (after_calls st cs) = []
   \<and> warnings (after_calls st cs) = [] \<and> the_cube (after_calls st cs) = the_cube st"
  unfolding after_calls_def
proof (induction cs arbitrary: st)
  case Nil
  then show ?case by simp
next
  case (Cons c cs)
  from after_call_failfast [OF Cons.prems, of c] Cons.IH [of "after_call st c"]
  show ?case by simp
qed

section \<open>Frame lemmas\<close>

lemma advances_refl [simp]: "advances st st"
  by (simp add: advances_def)

lemma advances_trans: "advances a b \<Longrightarrow> advances b c \<Longrightarrow> advances a c"
  unfolding advances_def by (auto split: if_splits)

lemma frame_Inr [simp]: "frame R st (Inr st') = (advances st st' \<and> R (the_cube st) (the_cube st'))"
  by (simp add: frame_def)

lemma frame_Inl_other [simp]:
  "frame R st (Inl ValueError)" "frame R st (Inl IndexError)"
  "frame R st (Inl AttributeError)" "frame R st (Inl CoordinateNotFoundError)"
  by (simp_all add: frame_def)

lemma frame_report_error: "R (the_cube st) (the_cube st) \<Longrightarrow> frame R st (report_error st m a)"
  by (simp add: frame_def report_error_def advances_def Let_def)

lemma advances_report_warning [simp]: "advances st (report_warning st m a)"
  by (simp add: report_warning_def advances_def Let_def)

lemma cube_report_warning [simp]: "the_cube (report_warning st m a) = the_cube st"
  by (simp add: report_warning_def Let_def)

lemma frame_then_do:
  assumes "frame R st r" and "\<And>st'. r = Inr st' \<Longrightarrow> frame R st' (f st')"
    and "\<And>a b c. R a b \<Longrightarrow> R b c \<Longrightarrow> R a c"
  shows "frame R st (then_do r f)"
proof (cases r)
  case (Inl e)
  with assms(1) show ?thesis by simp
next
  case (Inr st')
  from assms(1) Inr have a: "advances st st'" and r: "R (the_cube st) (the_cube st')" by simp_all
  from a have fe: "failerr st' = failerr st" by (simp add: advances_def)
  from assms(2) [OF Inr] have f: "frame R st' (f st')" .
  show ?thesis
  proof (cases "f st'")
    case (Inl e)
    with f fe r assms(3) Inr show ?thesis
      by (auto simp: frame_def split: error.splits report.splits)
  next
    case i: (Inr st'')
    with f a r assms(3) Inr show ?thesis
      by (auto intro: advances_trans)
  qed
qed

lemma frame_for_each:
  assumes "\<And>s x. x \<in> set xs \<Longrightarrow> frame R s (f s x)"
    and "\<And>a. R a a" and "\<And>a b c. R a b \<Longrightarrow> R b c \<Longrightarrow> R a c"
  shows "frame R st (for_each f xs st)"
  using assms(1)
proof (induction xs arbitrary: st)
  case Nil
  show ?case by (simp add: assms(2))
next
  case (Cons x xs)
  show ?case
    apply simp
    apply (rule frame_then_do)
      apply (rule Cons.prems, simp)
     apply (rule Cons.IH)
     apply (rule Cons.prems, simp)
    apply (erule (1) assms(3))
    done
qed

lemma frame_mono: "frame R st r \<Longrightarrow> (\<And>a b. R a b \<Longrightarrow> R' a b) \<Longrightarrow> frame R' st r"
  by (auto simp: frame_def split: sum.splits error.splits report.splits)

lemma kept_refl [simp]: "kept c c"
  by (simp add: kept_def same_head_def same_names_def)

lemma kept_trans: "kept a b \<Longrightarrow> kept b c \<Longrightarrow> kept a c"
  by (simp add: kept_def same_head_def same_names_def)

lemma same_names_refl [simp]: "same_names c c"
  by (simp add: same_names_def)

lemma same_names_trans: "same_names a b \<Longrightarrow> same_names b c \<Longrightarrow> same_names a c"
  by (simp add: same_names_def)

lemma kept_same_names: "kept a b \<Longrightarrow> same_names a b"
  by (simp add: kept_def)

lemma frame_shift:
  assumes "advances st st'" and "R (the_cube st) (the_cube st')" and "frame R st' r"
    and "\<And>a b c. R a b \<Longrightarrow> R b c \<Longrightarrow> R a c"
  shows "frame R st r"
  using frame_then_do [of R st "Inr st'" "\<lambda>_. r"] assms by simp

lemma frame_then_do_kept:
  "frame kept st r \<Longrightarrow> (\<And>st'. r = Inr st' \<Longrightarrow> frame kept st' (f st'))
   \<Longrightarrow> frame kept st (then_do r f)"
  by (rule frame_then_do) (auto intro: kept_trans)

lemma frame_then_do_names:
  "frame same_names st r \<Longrightarrow> (\<And>st'. r = Inr st' \<Longrightarrow> frame same_names st' (f st'))
   \<Longrightarrow> frame same_names st (then_do r f)"
  by (rule frame_then_do) (auto intro: same_names_trans)

lemma frame_for_each_kept:
  "(\<And>s x. x \<in> set xs \<Longrightarrow> frame kept s (f s x)) \<Longrightarrow> frame kept st (for_each f xs st)"
  by (rule frame_for_each) (auto intro: kept_trans)

lemma frame_shift_kept:
  "advances st st' \<Longrightarrow> kept (the_cube st) (the_cube st') \<Longrightarrow> frame kept st' r
   \<Longrightarrow> frame kept st r"
  by (rule frame_shift) (auto intro: kept_trans)

lemma frame_shift_names:
  "advances st st' \<Longrightarrow> same_names (the_cube st) (the_cube st') \<Longrightarrow> frame same_names st' r
   \<Longrightarrow> frame same_names st r"
  by (rule frame_shift) (auto intro: same_names_trans)

lemma frame_kept_names: "frame kept st r \<Longrightarrow> frame same_names st r"
  by (erule frame_mono) (rule kept_same_names)

lemma frame_check_standard_name: "frame kept st (check_standard_name st)"
  by (simp add: check_standard_name_def frame_report_error)

lemma frame_check_units: "frame kept st (check_units L st)"
  by (simp add: check_units_def frame_report_error)

lemma frame_check_positive: "frame kept st (check_positive st)"
  by (simp add: check_positive_def frame_report_error Let_def split: option.splits)

lemma advances_fix_invalid_units: "advances st (fix_invalid_units st)"
  by (simp add: fix_invalid_units_def advances_def)

lemma same_names_fix_invalid_units:
  "same_names (the_cube st) (the_cube (fix_invalid_units st))"
  by (simp add: fix_invalid_units_def same_names_def)

lemma frame_check_var_metadata: "frame same_names st (check_var_metadata L st)"
  unfolding check_var_metadata_def
  apply (rule frame_then_do_names)
   apply (rule frame_kept_names [OF frame_check_standard_name])
  apply (rule frame_shift_names [OF advances_fix_invalid_units same_names_fix_invalid_units])
  apply (rule frame_then_do_names)
   apply (rule frame_kept_names [OF frame_check_units])
  apply (rule frame_kept_names [OF frame_check_positive])
  done

lemma frame_check_rank: "frame kept st (check_rank st)"
  by (simp add: check_rank_def frame_report_error Let_def)

lemma frame_check_dim_name: "frame kept st (check_dim_name st x)"
  by (simp add: check_dim_name_def frame_report_error split: option.splits)

lemma frame_check_dim_names: "frame kept st (check_dim_names st)"
  unfolding check_dim_names_def
  by (rule frame_for_each_kept) (rule frame_check_dim_name)

lemma ident_reverse_points [simp]: "ident (reverse_points ds x) = ident x"
  by (simp add: reverse_points_def ident_def split: list.splits)

lemma kept_reverse: "kept c (reverse c ds)"
  by (simp add: kept_def same_head_def same_names_def reverse_def comp_def)

lemma advances_reverse_coord: "advances st (reverse_coord st x)"
  by (simp add: reverse_coord_def advances_def)

lemma kept_reverse_coord: "kept (the_cube st) (the_cube (reverse_coord st x))"
  by (simp add: reverse_coord_def kept_reverse)

lemma frame_check_direction: "frame kept st (check_direction st x v d w)"
  by (simp add: check_direction_def frame_report_error advances_reverse_coord kept_reverse_coord)

lemma frame_check_coord_monotonicity_and_direction:
  "frame kept st (check_coord_monotonicity_and_direction L st cmor x v)"
  unfolding check_coord_monotonicity_and_direction_def
  apply (rule frame_then_do_kept)
   apply (simp add: frame_report_error)
  apply (simp add: frame_check_direction split: list.splits)
  done

lemma fold_warning_advances:
  "advances st (fold (\<lambda>p s. if P p then report_warning s m (a p) else s) ps st)
   \<and> the_cube (fold (\<lambda>p s. if P p then report_warning s m (a p) else s) ps st) = the_cube st"
proof (induction ps arbitrary: st)
  case Nil
  show ?case by simp
next
  case (Cons p ps)
  show ?case
    using Cons.IH [of "if P p then report_warning st m (a p) else st"]
    by (auto intro: advances_trans [OF advances_report_warning])
qed

lemma frame_check_requested_values: "frame kept st (check_requested_values L st x ci v)"
  using fold_warning_advances
    [of st "\<lambda>p. p \<notin> set (c_points x)" contain_msg "\<lambda>p. [PStr v, PFloat p, PStr (c_units x)]"]
  by (simp add: check_requested_values_def split: option.splits)

lemma frame_check_bound:
  "frame kept (fst sf) (map_sum id fst (check_bound L ci x v below b sf))"
proof -
  have "frame kept (fst sf) (map_sum id fst (map_sum id (\<lambda>s. (s, snd sf)) (report_error (fst sf) m a)))"
    for m a
    using frame_report_error [of kept "fst sf" m a]
    by (cases "report_error (fst sf) m a") simp_all
  then show ?thesis
    by (simp add: check_bound_def split: option.splits)
qed

lemma ident_set_points [simp]: "ident (x\<lparr>c_points := ps\<rparr>) = ident x"
  by (simp add: ident_def)

lemma kept_set_dim_coord_by_var_name:
  "located c v x \<Longrightarrow> ident x' = ident x \<Longrightarrow> kept c (set_dim_coord_by_var_name c v x')"
  by (auto simp: kept_def same_head_def same_names_def set_dim_coord_by_var_name_def located_def
      list_all_iff)

lemma located_alt:
  "located c v x = list_all (\<lambda>i. fst i = Some v \<longrightarrow> i = ident x) (map ident (dim_coords c))"
  by (simp add: located_def list_all_iff ident_def)

lemma located_kept: "kept c c' \<Longrightarrow> located c v x \<Longrightarrow> located c' v x"
  by (simp add: located_alt kept_def same_names_def)

lemma frame_then_do_pair:
  assumes "frame kept st (map_sum id fst r)"
    and "\<And>s b. r = Inr (s, b) \<Longrightarrow> frame kept s (f (s, b))"
  shows "frame kept st (then_do r f)"
proof (cases r)
  case (Inl e)
  with assms(1) show ?thesis by (simp add: frame_def)
next
  case (Inr sb)
  obtain s b where sb: "sb = (s, b)" by (cases sb)
  from assms(1) Inr sb have "advances st s" "kept (the_cube st) (the_cube s)" by simp_all
  then show ?thesis
    using assms(2) [of s b] Inr sb by (auto intro: frame_shift_kept)
qed

lemma find_one_Some: "find_one P xs = Some x \<Longrightarrow> x \<in> set xs \<and> P x \<and> (\<forall>y\<in>set xs. P y \<longrightarrow> y = x)"
proof -
  assume "find_one P xs = Some x"
  then have f: "filter P xs = [x]"
    by (auto simp: find_one_def split: list.splits)
  have "set (filter P xs) = {x}" by (simp add: f)
  then show ?thesis by auto
qed

lemma located_lookup: "dim_coord_by_var_name c v = Some x \<Longrightarrow> located c v x"
  by (auto simp: dim_coord_by_var_name_def located_def list_all_iff dest: find_one_Some)

lemma located_set [simp]: "located (set_dim_coord_by_var_name c v x) v x"
  by (auto simp: located_def set_dim_coord_by_var_name_def list_all_iff)

lemma frame_check_coord_values:
  assumes "located (the_cube st) v x"
  shows "frame kept st (check_coord_values L st ci x v)"
  unfolding check_coord_values_def
proof (rule frame_then_do_kept [OF frame_check_requested_values])
  fix st1
  assume r: "check_requested_values L st x ci v = Inr st1"
  from frame_check_requested_values [of st L x ci v] r
  have k1: "kept (the_cube st) (the_cube st1)" by simp
  show "frame kept st1
          (then_do (check_bound L ci x v True (ci_valid_min ci) (st1, False))
             (\<lambda>sf1. then_do (check_bound L ci x v False (ci_valid_max ci) sf1)
                (\<lambda>sf2. if snd sf2
                   then Inr ((fst sf2)\<lparr>the_cube := intersection L (the_cube (fst sf2)) v x\<rparr>)
                   else Inr (fst sf2))))"
  proof (rule frame_then_do_pair)
    show "frame kept st1 (map_sum id fst (check_bound L ci x v True (ci_valid_min ci) (st1, False)))"
      using frame_check_bound [of "(st1, False)"] by simp
  next
    fix s b
    assume b1: "check_bound L ci x v True (ci_valid_min ci) (st1, False) = Inr (s, b)"
    from frame_check_bound [of "(st1, False)" L ci x v True "ci_valid_min ci"] b1
    have k2: "kept (the_cube st1) (the_cube s)" by simp
    show "frame kept s
            (then_do (check_bound L ci x v False (ci_valid_max ci) (s, b))
               (\<lambda>sf2. if snd sf2
                  then Inr ((fst sf2)\<lparr>the_cube := intersection L (the_cube (fst sf2)) v x\<rparr>)
                  else Inr (fst sf2)))"
    proof (rule frame_then_do_pair)
      show "frame kept s (map_sum id fst (check_bound L ci x v False (ci_valid_max ci) (s, b)))"
        using frame_check_bound [of "(s, b)"] by simp
    next
      fix s' b'
      assume b2: "check_bound L ci x v False (ci_valid_max ci) (s, b) = Inr (s', b')"
      from frame_check_bound [of "(s, b)" L ci x v False "ci_valid_max ci"] b2
      have k3: "kept (the_cube s) (the_cube s')" by simp
      have "located (the_cube s') v x"
        using assms k1 k2 k3 by (blast intro: located_kept)
      then have "kept (the_cube s') (intersection L (the_cube s') v x)"
        unfolding intersection_def by (rule kept_set_dim_coord_by_var_name) simp
      then show "frame kept s'
              (if snd (s', b')
               then Inr ((fst (s', b'))\<lparr>the_cube := intersection L (the_cube (fst (s', b'))) v x\<rparr>)
               else Inr (fst (s', b')))"
        by (simp add: advances_def)
    qed
  qed
qed

lemma frame_check_coord_units:
  assumes "located (the_cube st) v x"
  shows "frame kept st (map_sum id fst (check_coord_units L st cmor x v))"
proof -
  have "frame kept st (map_sum id fst (map_sum id (\<lambda>s. (s, x)) (report_error st m a)))" for m a
    using frame_report_error [of kept st m a]
    by (cases "report_error st m a") simp_all
  moreover have "kept (the_cube st) (set_dim_coord_by_var_name (the_cube st) v (x\<lparr>c_units := u, c_points := ps\<rparr>))"
    for u ps
    by (rule kept_set_dim_coord_by_var_name [OF assms]) (simp add: ident_def)
  ultimately show ?thesis
    by (simp add: check_coord_units_def Let_def advances_def split: option.splits)
qed

lemma located_check_coord_units:
  "located (the_cube st) v x \<Longrightarrow> check_coord_units L st cmor x v = Inr (s, x')
   \<Longrightarrow> located (the_cube s) v x'"
  by (auto simp: check_coord_units_def Let_def report_error_def split: if_splits option.splits)

lemma frame_check_coord:
  assumes "located (the_cube st) v x"
  shows "frame kept st (check_coord L st cmor x v)"
  unfolding check_coord_def
  apply (simp, rule impI)
  apply (rule frame_then_do_pair [OF frame_check_coord_units [OF assms]])
  apply simp
  apply (rule frame_then_do_kept)
   apply (rule frame_check_coord_values)
   apply (erule located_check_coord_units [OF assms])
  apply (simp add: frame_check_coord_monotonicity_and_direction)
  done

lemma frame_check_coords: "frame kept st (check_coords L st)"
  unfolding check_coords_def
  by (rule frame_for_each_kept)
    (simp add: check_coords_step_def frame_check_coord located_lookup split: option.splits)

lemma frame_check_coords_data: "frame kept st (check_coords_data L st)"
  unfolding check_coords_data_def
  by (rule frame_for_each_kept)
    (simp add: check_coords_data_step_def frame_check_coord_monotonicity_and_direction
      split: option.splits)

lemma frame_scan_mon: "frame kept st (scan_mon st v ds)"
  by (induction st v ds rule: scan_mon.induct) (simp_all add: frame_report_error Let_def)

lemma frame_scan_yr: "frame kept st (scan_yr st v ds)"
  by (induction st v ds rule: scan_yr.induct) (simp_all add: frame_report_error)

lemma frame_scan_intervals: "frame kept st (scan_intervals st v t ps)"
  by (induction st v t ps rule: scan_intervals.induct) (simp_all add: frame_report_error Let_def)

lemma frame_check_frequency: "frame kept st (check_frequency L st x)"
proof -
  have a: "frame kept st (then_do (cells L x) (scan_mon st v))" for v
    by (simp add: cells_def frame_scan_mon)
  have b: "frame kept st (then_do (cells L x) (scan_yr st v))" for v
    by (simp add: cells_def frame_scan_yr)
  have c: "frame kept st (then_do (target_interval_of L f)
             (\<lambda>t. case t of None \<Rightarrow> report_error st m a
                   | Some ti \<Rightarrow> scan_intervals st v ti ps))" for f m a v ps
    by (simp add: target_interval_of_def Let_def frame_scan_intervals frame_report_error
        split: option.splits)
  show ?thesis
    unfolding check_frequency_def Let_def
    by (simp add: a b c)
qed

lemma coord_name_ident: "ident x' = ident x \<Longrightarrow> coord_name x' = coord_name x"
  by (simp add: ident_def coord_name_def)

lemma kept_set_dim_coord_by_name:
  assumes "dim_coord_by_name c n = Some x" and "ident x' = ident x"
  shows "kept c (set_dim_coord_by_name c n x')"
proof -
  from find_one_Some [OF assms(1) [unfolded dim_coord_by_name_def]]
  have u: "\<forall>y\<in>set (dim_coords c). coord_name y = n \<longrightarrow> y = x" by simp
  have "map ident (map (\<lambda>y. if coord_name y = n then x' else y) (dim_coords c))
          = map ident (dim_coords c)"
    using u assms(2) by (auto simp: map_idI intro!: map_cong)
  then show ?thesis
    by (simp add: kept_def same_head_def same_names_def set_dim_coord_by_name_def)
qed

lemma frame_normalize_time:
  assumes "dim_coord_by_name (the_cube st) ''time'' = Some x"
  shows "frame kept st (map_sum id fst (normalize_time L st x))"
proof -
  have "frame kept st (map_sum id fst (map_sum id (\<lambda>s. (s, x)) (report_error st m a)))" for m a
    using frame_report_error [of kept st m a]
    by (cases "report_error st m a") simp_all
  moreover have "kept (the_cube st)
      (set_dim_coord_by_name (the_cube st) ''time'' (x\<lparr>c_units := u, c_calendar := cal, c_points := ps\<rparr>))"
    for u cal ps
    by (rule kept_set_dim_coord_by_name [OF assms]) (simp add: ident_def)
  ultimately show ?thesis
    by (simp add: normalize_time_def Let_def advances_def split: option.splits)
qed

lemma frame_check_time_coord: "frame kept st (check_time_coord L st)"
  unfolding check_time_coord_def
  by (auto split: option.splits intro!: frame_then_do_pair frame_normalize_time
      simp: frame_check_frequency)

lemma frame_metadata_checks: "frame same_names st (metadata_checks L st)"
  unfolding metadata_checks_def check_fill_value_def
  by (intro frame_then_do_names frame_check_var_metadata frame_kept_names frame_check_dim_names
      frame_check_coords frame_check_time_coord frame_check_rank) simp

lemma frame_convert_cube_units: "frame same_names st (convert_cube_units L st)"
  by (simp add: convert_cube_units_def convert_units_def Let_def advances_def same_names_def)

lemma frame_data_checks: "frame same_names st (data_checks L st)"
  unfolding data_checks_def
  by (intro frame_then_do_names frame_convert_cube_units frame_kept_names frame_check_coords_data)

section \<open>The time coordinate: frequencies\<close>

lemma report_error_cases:
  "report_error st m a =
     (if failerr st then Inl (CMORCheckError (Single (Msg m a) (the_cube st)))
      else Inr (st\<lparr>errors := errors st @ [Msg m a]\<rparr>))"
  by (simp add: report_error_def)

lemma scan_mon_eq:
  "scan_mon st v ds =
     (if monthly ds then Inr st else report_error st freq_msg [v, PStr (frequency st)])"
  by (induction st v ds rule: scan_mon.induct) (auto simp: one_month_apart_def Let_def)

lemma monthly_append: "monthly (ds @ later) \<Longrightarrow> monthly ds"
  by (induction ds rule: monthly.induct) auto

lemma scan_mon_append:
  "\<not> monthly ds \<Longrightarrow> scan_mon st v (ds @ later) = scan_mon st v ds"
  using monthly_append [of ds later] by (auto simp: scan_mon_eq)

lemma scan_intervals_eq:
  "scan_intervals st v (lo, hi) ps =
     (if gaps_within lo hi ps then Inr st else report_error st freq_msg [v, PStr (frequency st)])"
  by (induction st v "(lo, hi)" ps rule: scan_intervals.induct) (auto simp: Let_def)

lemma gaps_within_append: "gaps_within lo hi (ps @ later) \<Longrightarrow> gaps_within lo hi ps"
  by (induction lo hi ps rule: gaps_within.induct) auto

lemma scan_intervals_append:
  "\<not> gaps_within lo hi ps \<Longrightarrow>
   scan_intervals st v (lo, hi) (ps @ later) = scan_intervals st v (lo, hi) ps"
  using gaps_within_append [of lo hi ps later] by (auto simp: scan_intervals_eq)

lemma check_time_coord_normal:
  assumes "dim_coord_by_name (the_cube st) ''time'' = Some x"
    and "is_time_reference L (c_units x)"
    and "convert L (c_units x) (c_calendar x) days_since_1950 (c_points x) = Some ps"
  shows "check_time_coord L st =
           check_frequency L
             (st\<lparr>the_cube := set_dim_coord_by_name (the_cube st) ''time'' (normalized_time x ps)\<rparr>)
             (normalized_time x ps)"
  using assms by (simp add: check_time_coord_def normalize_time_def normalized_time_def Let_def)

text \<open>
  C3. With frequency \<^verbatim>\<open>mon\<close>, the check of a time coordinate in time-reference units
  accepts the series exactly when it is monthly (December of a year followed by January
  of the next). Otherwise exactly one frequency error is reported: raised at once in
  fail-fast mode, appended once in collect-all mode, however many pairs fail; and the
  scan does not look past the first failing pair, since points added after it do not
  change the outcome.
\<close>

theorem mon_frequency:
  assumes "dim_coord_by_name (the_cube st) ''time'' = Some x"
    and "is_time_reference L (c_units x)"
    and "convert L (c_units x) (c_calendar x) days_since_1950 (c_points x) = Some ps"
    and "is_time_reference L days_since_1950"
    and "frequency st = ''mon''"
    and "st' = st\<lparr>the_cube := set_dim_coord_by_name (the_cube st) ''time'' (normalized_time x ps)\<rparr>"
    and "ds = map (num2date L days_since_1950 (simplify_calendar (c_calendar x))) ps"
    and "m = Msg freq_msg [of_opt (c_var_name x), PStr ''mon'']"
  shows "check_time_coord L st =
           (if monthly ds then Inr st'
            else if failerr st then Inl (CMORCheckError (Single m (the_cube st')))
            else Inr (st'\<lparr>errors := errors st @ [m]\<rparr>))
         \<and> (\<not> monthly ds \<longrightarrow>
              scan_mon st' (of_opt (c_var_name x)) (ds @ later)
                = scan_mon st' (of_opt (c_var_name x)) ds)"
proof -
  have l: "length ps < 2 \<Longrightarrow> monthly ds"
    using assms(7) by (cases ps; cases "tl ps") auto
  have "check_time_coord L st =
           (if monthly ds then Inr st'
            else if failerr st then Inl (CMORCheckError (Single m (the_cube st')))
            else Inr (st'\<lparr>errors := errors st @ [m]\<rparr>))"
    unfolding check_time_coord_normal [OF assms(1-3)]
    using assms(4-8) l
    by (auto simp: check_frequency_def cells_def normalized_time_def scan_mon_eq report_error_cases)
  then show ?thesis
    by (simp add: scan_mon_append)
qed

lemma sample_lib_simps [simp]:
  "py_float sample_lib = sample_float"
  "is_convertible sample_lib = sample_is_convertible"
  "is_time_reference sample_lib = sample_is_time_reference"
  "convert sample_lib = sample_convert"
  "is_monotonic sample_lib = sample_is_monotonic"
  "num2date sample_lib = sample_num2date"
  "intersection_points sample_lib = sample_intersection_points"
  "category_points sample_lib = sample_category_points"
  by (simp_all add: sample_lib_def)

lemma time_lookup:
  "dim_coord_by_name (the_cube (time_checker ps f b)) ''time'' = Some (time_coord ps)"
  by (simp add: time_checker_def CMORCheck_def time_cube_def dim_coord_by_name_def find_one_def
      coord_name_def or_else_def time_coord_def)

lemma time_sample_facts:
  "is_time_reference sample_lib (c_units (time_coord ps))"
  "convert sample_lib (c_units (time_coord ps)) (c_calendar (time_coord ps)) days_since_1950
     (c_points (time_coord ps)) = Some ps"
  "is_time_reference sample_lib days_since_1950"
  "frequency (time_checker ps f b) = f"
  "time_checker ps f b =
     (time_checker ps f b)\<lparr>the_cube := set_dim_coord_by_name (the_cube (time_checker ps f b))
        ''time'' (normalized_time (time_coord ps) ps)\<rparr>"
  "c_var_name (time_coord ps) = Some ''time''"
  "simplify_calendar (c_calendar (time_coord ps)) = Some ''360_day''"
  "errors (time_checker ps f b) = []"
  "failerr (time_checker ps f b) = b"
  by (simp_all add: time_coord_def sample_is_time_reference_def days_since_1950_def
      sample_convert_def time_checker_def CMORCheck_def time_cube_def normalized_time_def
      simplify_calendar_def set_dim_coord_by_name_def coord_name_def or_else_def)

theorem mon_frequency_witness:
  "monthly (map (sample_num2date days_since_1950 (Some ''360_day'')) [345, 375])
   \<and> check_time_coord sample_lib (time_checker [345, 375] ''mon'' False)
       = Inr (time_checker [345, 375] ''mon'' False)
   \<and> \<not> monthly (map (sample_num2date days_since_1950 (Some ''360_day'')) [15, 75, 80])
   \<and> check_time_coord sample_lib (time_checker [15, 75, 80] ''mon'' False)
       = Inr ((time_checker [15, 75, 80] ''mon'' False)
               \<lparr>errors := [Msg freq_msg [PStr ''time'', PStr ''mon'']]\<rparr>)"
proof -
  have a: "monthly (map (sample_num2date days_since_1950 (Some ''360_day'')) [345, 375])"
    by (simp add: sample_num2date_def one_month_apart_def)
  have b: "\<not> monthly (map (sample_num2date days_since_1950 (Some ''360_day'')) [15, 75, 80])"
    by (simp add: sample_num2date_def one_month_apart_def)
  note w1 = mon_frequency [OF time_lookup time_sample_facts(1) time_sample_facts(2)
      time_sample_facts(3) time_sample_facts(4) time_sample_facts(5) refl refl,
      of "[345, 375]" False "[]"]
  note w2 = mon_frequency [OF time_lookup time_sample_facts(1) time_sample_facts(2)
      time_sample_facts(3) time_sample_facts(4) time_sample_facts(5) refl refl,
      of "[15, 75, 80]" False "[]"]
  from w1 a have c: "check_time_coord sample_lib (time_checker [345, 375] ''mon'' False)
       = Inr (time_checker [345, 375] ''mon'' False)"
    by (simp add: time_sample_facts(6,7) sample_lib_simps del: monthly.simps)
  from w2 b have d: "check_time_coord sample_lib (time_checker [15, 75, 80] ''mon'' False)
       = Inr ((time_checker [15, 75, 80] ''mon'' False)
               \<lparr>errors := [Msg freq_msg [PStr ''time'', PStr ''mon'']]\<rparr>)"
    by (simp add: time_sample_facts(6,7,8,9) sample_lib_simps of_opt_def del: monthly.simps)
  from a b c d show ?thesis by simp
qed

lemma endswith_append: "endswith (s @ suf) suf"
  by (simp add: endswith_def)

lemma hr_not_named:
  "n @ ''hr'' \<noteq> ''mon''" "n @ ''hr'' \<noteq> ''yr''" "n @ ''hr'' \<noteq> ''dec''" "n @ ''hr'' \<noteq> ''day''"
  using endswith_append [of n "''hr''"] by (auto simp: endswith_def)

lemma target_interval_hr:
  "hr_interval L n = Some (lo, hi) \<Longrightarrow> target_interval_of L (n @ ''hr'') = Inr (Some (lo, hi))"
  by (auto simp: target_interval_of_def hr_interval_def hr_not_named endswith_append tol_def Let_def
      split: if_splits)


lemma sample_float_values:
  "sample_float ''sub '' = None" "sample_float ''3'' = Some 3" "sample_float ''0'' = Some 0"
  "sample_float ''360'' = Some 360"
  by (simp_all add: sample_float_def digit_of_def)



section \<open>Direction of a coordinate\<close>

lemma find_one_map:
  assumes "\<And>y. P (f y) = P y"
  shows "find_one P (map f xs) = map_option f (find_one P xs)"
proof -
  have "filter P (map f xs) = map f (filter P xs)"
    by (simp add: filter_map comp_def assms)
  then show ?thesis
    by (simp add: find_one_def split: list.splits)
qed

lemma lookup_reverse:
  assumes "dim_coord_by_var_name c v = Some x" and "c_dims x = [d]"
  shows "dim_coord_by_var_name (reverse c [d]) v = Some (x\<lparr>c_points := rev (c_points x)\<rparr>)"
proof -
  have "c_var_name (reverse_points [d] y) = c_var_name y" for y
    by (simp add: reverse_points_def split: list.splits)
  then have "find_one (\<lambda>y. c_var_name y = Some v) (map (reverse_points [d]) (dim_coords c))
      = map_option (reverse_points [d]) (find_one (\<lambda>y. c_var_name y = Some v) (dim_coords c))"
    by (intro find_one_map) simp
  with assms show ?thesis
    by (simp add: dim_coord_by_var_name_def reverse_def reverse_points_def)
qed


lemma sample_monotonic_values:
  "sample_is_monotonic (lat_coord [3, 2, 1])" "\<not> sample_is_monotonic (lat_coord [3, 1, 2])"
  by (simp_all add: sample_is_monotonic_def lat_coord_def axis_coord_def)

lemma lat_sample_facts:
  "ci_stored_direction lat_info = ''increasing''"
  "c_points (lat_coord ps) = ps"
  "c_dims (lat_coord ps) = [0]"
  "dim_coord_by_var_name (axis_cube (lat_coord ps)) ''lat'' = Some (lat_coord ps)"
  by (simp_all add: lat_info_def axis_info_def lat_coord_def axis_coord_def axis_cube_def
      dim_coord_by_var_name_def find_one_def)

lemma reverse_lat: "reverse (axis_cube (lat_coord ps)) [0] = axis_cube (lat_coord (rev ps))"
  by (simp add: reverse_def axis_cube_def lat_coord_def axis_coord_def reverse_points_def)



section \<open>Longitudes out of range\<close>

lemma find_one_replace:
  assumes "find_one P xs = Some x" and "P x'"
  shows "find_one P (map (\<lambda>y. if P y then x' else y) xs) = Some x'"
proof -
  have "P (if P y then x' else y) = P y" for y
    using assms(2) by simp
  then have "find_one P (map (\<lambda>y. if P y then x' else y) xs)
      = map_option (\<lambda>y. if P y then x' else y) (find_one P xs)"
    by (rule find_one_map)
  with assms(1) find_one_Some [OF assms(1)] show ?thesis by simp
qed

lemma lookup_intersection:
  assumes "dim_coord_by_var_name c v = Some x"
  shows "dim_coord_by_var_name (intersection L c v x) v
           = Some (x\<lparr>c_points := intersection_points L x\<rparr>)"
proof -
  from find_one_Some [OF assms [unfolded dim_coord_by_var_name_def]]
  have "c_var_name x = Some v" by simp
  then have "c_var_name (x\<lparr>c_points := intersection_points L x\<rparr>) = Some v" by simp
  from find_one_replace [OF assms [unfolded dim_coord_by_var_name_def], of
      "x\<lparr>c_points := intersection_points L x\<rparr>", OF this]
  show ?thesis
    by (simp add: dim_coord_by_var_name_def intersection_def set_dim_coord_by_var_name_def)
qed

lemma check_requested_values_keeps:
  "check_requested_values L st x ci v = Inr st1 \<Longrightarrow>
   errors st1 = errors st \<and> the_cube st1 = the_cube st \<and> failerr st1 = failerr st
   \<and> automatic_fixes st1 = automatic_fixes st"
proof -
  assume a: "check_requested_values L st x ci v = Inr st1"
  have e: "errors (fold (\<lambda>p s. if P p then report_warning s m (a p) else s) ps s0) = errors s0"
    for P m a ps s0
    by (induction ps arbitrary: s0) (simp_all add: report_warning_def Let_def)
  from frame_check_requested_values [of st L x ci v] a
  have "advances st st1" "kept (the_cube st) (the_cube st1)" by simp_all
  moreover from a have "errors st1 = errors st \<and> the_cube st1 = the_cube st"
    using fold_warning_advances
      [of st "\<lambda>p. p \<notin> set (c_points x)" contain_msg "\<lambda>p. [PStr v, PFloat p, PStr (c_units x)]"]
    by (auto simp: check_requested_values_def e split: if_splits option.splits)
  ultimately show ?thesis by (simp add: advances_def)
qed


lemma lon_sample_facts:
  "ci_standard_name lon_info = ''longitude''"
  "ci_valid_min lon_info \<noteq> []"
  "py_float sample_lib (ci_valid_min lon_info) = Some 0"
  "list_ex (\<lambda>p. p < 0) (c_points (lon_coord [- 10, 0, 10]))"
  "ci_valid_max lon_info = [] \<and> \<not> False
   \<or> ci_valid_max lon_info \<noteq> [] \<and> py_float sample_lib (ci_valid_max lon_info) = Some 360
      \<and> False = list_ex (\<lambda>p. p > 360) (c_points (lon_coord [- 10, 0, 10]))"
  "check_requested_values sample_lib st (lon_coord [- 10, 0, 10]) lon_info ''lon'' = Inr st"
  "dim_coord_by_var_name (axis_cube (lon_coord ps)) ''lon'' = Some (lon_coord ps)"
  "intersection sample_lib (axis_cube (lon_coord [- 10, 0, 10])) ''lon'' (lon_coord [- 10, 0, 10])
     = axis_cube (lon_coord [0, 10, 350])"
  by (simp_all add: lon_info_def axis_info_def lon_coord_def axis_coord_def axis_cube_def
      dim_coord_by_var_name_def find_one_def sample_float_values check_requested_values_def
      intersection_def set_dim_coord_by_var_name_def sample_intersection_points_def wrap360_def)


section \<open>Units of the variable\<close>

lemma map_of_dict_del [simp]: "map_of (dict_del d k) k = None"
  by (induction d) (auto simp: dict_del_def)

lemma frame_after_standard_name:
  assumes "check_standard_name st = Inr st1"
  shows "frame kept (fix_invalid_units st1) (metadata_checks L st)"
  unfolding metadata_checks_def check_var_metadata_def check_fill_value_def assms then_do_Inr
  by (intro frame_then_do_kept frame_check_units frame_check_positive frame_check_dim_names
      frame_check_coords frame_check_time_coord frame_check_rank)

lemma metadata_checks_standard_name_raises:
  "check_standard_name st = Inl e \<Longrightarrow> metadata_checks L st = Inl e"
  by (simp add: metadata_checks_def check_var_metadata_def)

lemma same_head_refl [simp]: "same_head c c"
  by (simp add: same_head_def)

lemma same_head_trans: "same_head a b \<Longrightarrow> same_head b c \<Longrightarrow> same_head a c"
  by (simp add: same_head_def)

lemma kept_same_head: "kept a b \<Longrightarrow> same_head a b"
  by (simp add: kept_def)

lemma frame_then_do_head:
  "frame same_head st r \<Longrightarrow> (\<And>st'. r = Inr st' \<Longrightarrow> frame same_head st' (f st'))
   \<Longrightarrow> frame same_head st (then_do r f)"
  by (rule frame_then_do) (auto intro: same_head_trans)

lemma frame_add_if_missing: "frame same_head st (add_if_missing L names n st)"
  by (simp add: add_if_missing_def add_categorised_coord_def advances_def same_head_def
      split: option.splits)

lemma frame_add_auxiliar_time_coordinates:
  "frame same_head st (add_auxiliar_time_coordinates L st)"
  unfolding add_auxiliar_time_coordinates_def Let_def
  by (intro frame_then_do_head frame_add_if_missing)

lemma check_standard_name_keeps:
  "check_standard_name st = Inr st1 \<Longrightarrow>
   the_cube st1 = the_cube st \<and> automatic_fixes st1 = automatic_fixes st"
  by (auto simp: check_standard_name_def report_error_cases split: if_splits)

lemma report_warnings_keeps [simp]:
  "the_cube (report_warnings st) = the_cube st" "errors (report_warnings st) = errors st"
  "failerr (report_warnings st) = failerr st" "warnings (report_warnings st) = warnings st"
  "cmor_var (report_warnings st) = cmor_var st" "frequency (report_warnings st) = frequency st"
  "automatic_fixes (report_warnings st) = automatic_fixes st"
  by (simp_all add: report_warnings_def)

text \<open>
  C4. When the units of the specification are \<^verbatim>\<open>psu\<close> in any case, the effective units
  are the dimensionless \<^verbatim>\<open>1.0\<close>: the metadata phase tests convertibility to them and the
  data phase converts the cube to them. And with automatic fixes, a cube whose
  attribute \<^verbatim>\<open>invalid_units\<close> is \<^verbatim>\<open>psu\<close> in any case leaves \<^verbatim>\<open>check_metadata\<close> with the
  units \<^verbatim>\<open>1.0\<close> and without that attribute: in the cube returned, in the cube of the
  error raised at the end of the phase, and in the cube of an error raised in fail-fast
  mode once the check of the standard name has passed.
\<close>

theorem psu_units:
  "(lower (vi_units (cmor_var st)) = ''psu'' \<longrightarrow>
      get_effective_units st = ''1.0''
      \<and> check_units L st =
          (if is_convertible L (cube_units (the_cube st)) ''1.0'' then Inr st
           else report_error st ''Variable {} units {} can not be converted to {}''
                  [of_opt (cube_var_name (the_cube st)), PStr (cube_units (the_cube st)),
                   PStr (vi_units (cmor_var st))])
      \<and> convert_cube_units L st =
          (if cube_units (the_cube st) = ''1.0'' then Inr st
           else if is_convertible L (cube_units (the_cube st)) ''1.0''
           then Inr (st\<lparr>the_cube := (the_cube st)\<lparr>cube_units := ''1.0''\<rparr>\<rparr>)
           else Inl ValueError))
   \<and> (automatic_fixes st
       \<and> lower (dict_get (attributes (the_cube st)) ''invalid_units'' []) = ''psu'' \<longrightarrow>
       (\<forall>c. (check_metadata L st = Inr c
             \<or> (\<exists>n es. check_metadata L st = Inl (CMORCheckError (Summary n es c)))
             \<or> (\<exists>m st1. check_standard_name st = Inr st1
                  \<and> check_metadata L st = Inl (CMORCheckError (Single m c))))
            \<longrightarrow> cube_units c = ''1.0'' \<and> map_of (attributes c) ''invalid_units'' = None))"
proof -
  have a: "get_effective_units st = ''1.0''
      \<and> check_units L st =
          (if is_convertible L (cube_units (the_cube st)) ''1.0'' then Inr st
           else report_error st ''Variable {} units {} can not be converted to {}''
                  [of_opt (cube_var_name (the_cube st)), PStr (cube_units (the_cube st)),
                   PStr (vi_units (cmor_var st))])
      \<and> convert_cube_units L st =
          (if cube_units (the_cube st) = ''1.0'' then Inr st
           else if is_convertible L (cube_units (the_cube st)) ''1.0''
           then Inr (st\<lparr>the_cube := (the_cube st)\<lparr>cube_units := ''1.0''\<rparr>\<rparr>)
           else Inl ValueError)"
    if "lower (vi_units (cmor_var st)) = ''psu''"
  proof -
    from that have "vi_units (cmor_var st) \<noteq> []" by (auto simp: lower_def)
    with that show ?thesis
      by (simp add: get_effective_units_def check_units_def convert_cube_units_def
          convert_units_def)
  qed
  have b: "cube_units c = ''1.0'' \<and> map_of (attributes c) ''invalid_units'' = None"
    if f: "automatic_fixes st"
      "lower (dict_get (attributes (the_cube st)) ''invalid_units'' []) = ''psu''"
      and o: "check_metadata L st = Inr c
             \<or> (\<exists>n es. check_metadata L st = Inl (CMORCheckError (Summary n es c)))
             \<or> (\<exists>m st1. check_standard_name st = Inr st1
                  \<and> check_metadata L st = Inl (CMORCheckError (Single m c)))"
    for c
  proof (cases "check_standard_name st")
    case (Inl e)
    then have "check_metadata L st = Inl e"
      by (simp add: check_metadata_def check_metadata_st_def metadata_checks_standard_name_raises)
    moreover from Inl obtain m c' where "e = CMORCheckError (Single m c')"
      by (auto simp: check_standard_name_def report_error_cases split: if_splits)
    ultimately show ?thesis using o Inl by auto
  next
    case (Inr st1)
    define s where "s = fix_invalid_units st1"
    from check_standard_name_keeps [OF Inr] f
    have p: "cube_units (the_cube s) = ''1.0''"
      "map_of (attributes (the_cube s)) ''invalid_units'' = None"
      by (simp_all add: s_def fix_invalid_units_def)
    have q: "cube_units c' = ''1.0'' \<and> map_of (attributes c') ''invalid_units'' = None"
      if "same_head (the_cube s) c'" for c'
      using that p by (simp add: same_head_def)
    note fr = frame_after_standard_name [OF Inr, of L, folded s_def]
    show ?thesis
    proof (cases "metadata_checks L st")
      case i: (Inl e)
      with o have "\<exists>m. e = CMORCheckError (Single m c)"
        using fr by (auto simp: check_metadata_def check_metadata_st_def frame_def
            split: error.splits report.splits)
      then obtain m where e: "e = CMORCheckError (Single m c)" by blast
      from fr i e have "kept (the_cube s) c" by (simp add: frame_def)
      then show ?thesis by (intro q kept_same_head)
    next
      case r: (Inr st2)
      with fr have k: "same_head (the_cube s) (the_cube st2)" "advances s st2"
        by (simp_all add: kept_same_head)
      show ?thesis
      proof (cases "has_errors st2")
        case True
        with r o have "c = the_cube st2"
          by (auto simp: check_metadata_def check_metadata_st_def report_errors_def has_errors_def)
        with k show ?thesis by (simp add: q)
      next
        case False
        with r have e: "check_metadata_st L st = add_auxiliar_time_coordinates L (report_warnings st2)"
          by (simp add: check_metadata_st_def report_errors_def has_errors_def)
        note fa = frame_add_auxiliar_time_coordinates [of "report_warnings st2" L]
        from o e fa have "same_head (the_cube st2) c"
          by (auto simp: check_metadata_def frame_def map_sum_def
              split: sum.splits error.splits report.splits)
        with k(1) have "same_head (the_cube s) c" by (rule same_head_trans)
        then show ?thesis by (rule q)
      qed
    qed
  qed
  from a b show ?thesis by blast
qed

lemma lower_values: "lower ''PSU'' = ''psu''" "lower ''psu'' = ''psu''"
  by (simp_all add: lower_def lower_char_def)

lemmas sample_defs =
  CMORCheck_def time_var_def time_info_def time_cube_def time_coord_def
  axis_coord_def axis_info_def axis_cube_def axis_var_def lat_coord_def lat_info_def
  lon_coord_def lon_info_def empty_cube_def no_coords_var_def

lemmas lookup_defs =
  coord_by_var_name_def coord_by_name_def dim_coord_by_var_name_def dim_coord_by_name_def
  find_one_def coords_def coord_name_def or_else_def set_dim_coord_by_var_name_def
  set_dim_coord_by_name_def

lemmas metadata_defs =
  check_metadata_def check_metadata_st_def metadata_checks_def check_var_metadata_def
  check_standard_name_def fix_invalid_units_def check_units_def check_positive_def
  get_effective_units_def check_fill_value_def check_dim_names_def check_dim_name_def
  check_coords_def check_coords_step_def check_coord_def check_coord_units_def
  check_coord_values_def check_requested_values_def check_bound_def
  check_coord_monotonicity_and_direction_def check_direction_def
  check_time_coord_def normalize_time_def check_frequency_def cells_def
  target_interval_of_def check_rank_def rank_dims_def report_errors_def report_warnings_def
  has_errors_def has_warnings_def add_auxiliar_time_coordinates_def add_if_missing_def
  add_categorised_coord_def report_error_cases report_warning_def
  simplify_calendar_def days_since_1950_def dict_get_def dict_del_def

lemmas sample_lib_defs =
  sample_is_convertible_def sample_is_time_reference_def sample_convert_def
  sample_is_monotonic_def sample_num2date_def sample_float_values

lemma psu_metadata:
  "check_metadata sample_lib (CMORCheck psu_cube psu_var None False True)
     = Inr (psu_cube\<lparr>cube_units := ''1.0'', attributes := [],
              aux_coords := map (categorised_coord sample_lib (time_coord [15, 45]))
                 [''day_of_month'', ''day_of_year'', ''month_number'', ''year'']\<rparr>)"
  by (simp add: metadata_defs lookup_defs sample_defs sample_lib_defs psu_cube_def psu_var_def
      lower_values Let_def categorised_coord_def)

theorem psu_units_witness:
  "lower (vi_units (cmor_var (CMORCheck psu_cube psu_var None False True))) = ''psu''
   \<and> get_effective_units (CMORCheck psu_cube psu_var None False True) = ''1.0''
   \<and> automatic_fixes (CMORCheck psu_cube psu_var None False True)
   \<and> dict_get (attributes psu_cube) ''invalid_units'' [] = ''PSU''
   \<and> check_metadata sample_lib (CMORCheck psu_cube psu_var None False True)
       = Inr (psu_cube\<lparr>cube_units := ''1.0'', attributes := [],
              aux_coords := map (categorised_coord sample_lib (time_coord [15, 45]))
                 [''day_of_month'', ''day_of_year'', ''month_number'', ''year'']\<rparr>)
   \<and> cube_units (psu_cube\<lparr>cube_units := ''1.0'', attributes := [],
              aux_coords := map (categorised_coord sample_lib (time_coord [15, 45]))
                 [''day_of_month'', ''day_of_year'', ''month_number'', ''year'']\<rparr>) = ''1.0''
   \<and> map_of (attributes (psu_cube\<lparr>cube_units := ''1.0'', attributes := [],
              aux_coords := map (categorised_coord sample_lib (time_coord [15, 45]))
                 [''day_of_month'', ''day_of_year'', ''month_number'', ''year'']\<rparr>))
         ''invalid_units'' = None"
proof -
  let ?S = "CMORCheck psu_cube psu_var None False True"
  have a: "lower (vi_units (cmor_var ?S)) = ''psu''"
    by (simp add: CMORCheck_def psu_var_def lower_values)
  have b: "automatic_fixes ?S"
    by (simp add: CMORCheck_def)
  have c: "dict_get (attributes psu_cube) ''invalid_units'' [] = ''PSU''"
    by (simp add: psu_cube_def dict_get_def)
  have d: "lower (dict_get (attributes (the_cube ?S)) ''invalid_units'' []) = ''psu''"
    using c by (simp add: CMORCheck_def lower_values)
  from psu_units [of ?S sample_lib] a b d psu_metadata
  have "get_effective_units ?S = ''1.0''"
    and "cube_units (psu_cube\<lparr>cube_units := ''1.0'', attributes := [],
              aux_coords := map (categorised_coord sample_lib (time_coord [15, 45]))
                 [''day_of_month'', ''day_of_year'', ''month_number'', ''year'']\<rparr>) = ''1.0''
         \<and> map_of (attributes (psu_cube\<lparr>cube_units := ''1.0'', attributes := [],
              aux_coords := map (categorised_coord sample_lib (time_coord [15, 45]))
                 [''day_of_month'', ''day_of_year'', ''month_number'', ''year'']\<rparr>))
               ''invalid_units'' = None"
    by blast+
  with a b c psu_metadata show ?thesis by simp
qed

section \<open>Auxiliary time coordinates\<close>

lemma coord_name_categorised:
  "coord_name (categorised_coord L f n) = (if n = [] then ''unknown'' else n)"
  by (simp add: coord_name_def categorised_coord_def or_else_def)

lemma coord_by_name_time_extend:
  assumes "coord_name y \<noteq> ''time''"
  shows "coord_by_name (c\<lparr>aux_coords := aux_coords c @ [y]\<rparr>) ''time'' = coord_by_name c ''time''"
  using assms by (simp add: coord_by_name_def coords_def find_one_def)

lemma add_missing_loop:
  assumes "for_each (\<lambda>s n. add_if_missing L names n s) ns st = Inr st'"
    and "''time'' \<notin> set ns" and "[] \<notin> set ns"
  shows "(filter (\<lambda>n. n \<notin> set names) ns \<noteq> [] \<longrightarrow> coord_by_name (the_cube st) ''time'' \<noteq> None)
       \<and> st' = st\<lparr>the_cube := (the_cube st)\<lparr>aux_coords := aux_coords (the_cube st) @
             (case coord_by_name (the_cube st) ''time'' of
                None \<Rightarrow> []
              | Some from_coord \<Rightarrow>
                  map (categorised_coord L from_coord) (filter (\<lambda>n. n \<notin> set names) ns))\<rparr>\<rparr>"
  using assms
proof (induction ns arbitrary: st)
  case Nil
  then show ?case by (simp split: option.splits)
next
  case (Cons n ns)
  show ?case
  proof (cases "n \<in> set names")
    case True
    with Cons.prems have "for_each (\<lambda>s n. add_if_missing L names n s) ns st = Inr st'"
      by (simp add: add_if_missing_def)
    from Cons.IH [OF this] Cons.prems(2,3) True show ?thesis by (simp split: option.splits)
  next
    case False
    with Cons.prems(1) obtain f where
      f: "coord_by_name (the_cube st) ''time'' = Some f"
      and r: "for_each (\<lambda>s n. add_if_missing L names n s) ns
            (st\<lparr>the_cube := (the_cube st)\<lparr>aux_coords := aux_coords (the_cube st)
                   @ [categorised_coord L f n]\<rparr>\<rparr>) = Inr st'"
      by (auto simp: add_if_missing_def add_categorised_coord_def split: option.splits if_splits)
    from Cons.prems(2,3) have "coord_name (categorised_coord L f n) \<noteq> ''time''"
      by (auto simp: coord_name_categorised)
    from coord_by_name_time_extend [OF this, of "the_cube st"] f
    have f': "coord_by_name ((the_cube st)\<lparr>aux_coords := aux_coords (the_cube st)
                   @ [categorised_coord L f n]\<rparr>) ''time'' = Some f"
      by simp
    from Cons.IH [OF r] Cons.prems(2,3) f f' False show ?thesis by simp
  qed
qed

lemma add_auxiliar_time_coordinates_loop:
  "add_auxiliar_time_coordinates L st =
     for_each (\<lambda>s n. add_if_missing L (map coord_name (aux_coords (the_cube st))) n s)
       time_aux_names st"
  by (simp add: add_auxiliar_time_coordinates_def time_aux_names_def Let_def then_do_def
      split: sum.splits)

lemma add_auxiliar_time_coordinates_result:
  assumes "add_auxiliar_time_coordinates L st = Inr st'"
  shows "st' = st\<lparr>the_cube := (the_cube st)\<lparr>aux_coords := aux_coords (the_cube st) @
             missing_time_aux L (the_cube st)\<rparr>\<rparr>"
    and "set time_aux_names \<subseteq> coord_name ` set (aux_coords (the_cube st'))"
proof -
  have t: "''time'' \<notin> set time_aux_names" "[] \<notin> set time_aux_names"
    by (simp_all add: time_aux_names_def)
  note l = add_missing_loop [OF assms [unfolded add_auxiliar_time_coordinates_loop] t]
  from l show e: "st' = st\<lparr>the_cube := (the_cube st)\<lparr>aux_coords := aux_coords (the_cube st) @
             missing_time_aux L (the_cube st)\<rparr>\<rparr>"
    by (simp add: missing_time_aux_def)
  show "set time_aux_names \<subseteq> coord_name ` set (aux_coords (the_cube st'))"
  proof
    fix n assume n: "n \<in> set time_aux_names"
    show "n \<in> coord_name ` set (aux_coords (the_cube st'))"
    proof (cases "n \<in> set (map coord_name (aux_coords (the_cube st)))")
      case True
      then show ?thesis by (auto simp: e)
    next
      case False
      with n have "filter (\<lambda>n. n \<notin> set (map coord_name (aux_coords (the_cube st)))) time_aux_names \<noteq> []"
        by (auto simp: filter_empty_conv)
      with l obtain f where f: "coord_by_name (the_cube st) ''time'' = Some f" by auto
      from n t(2) have "n \<noteq> []" by auto
      then have "coord_name (categorised_coord L f n) = n" by (simp add: coord_name_categorised)
      moreover have "categorised_coord L f n \<in> set (missing_time_aux L (the_cube st))"
        using f n False by (simp add: missing_time_aux_def)
      ultimately show ?thesis
        by (subst e) (auto simp: image_iff intro: bexI [where x = "categorised_coord L f n"])
    qed
  qed
qed

lemma add_if_missing_cmor_var:
  "add_if_missing L names n (st\<lparr>cmor_var := v\<rparr>)
     = map_sum id (\<lambda>s. s\<lparr>cmor_var := v\<rparr>) (add_if_missing L names n st)"
  by (cases "add_categorised_coord L (the_cube st) n") (simp_all add: add_if_missing_def)

lemma add_loop_cmor_var:
  "for_each (\<lambda>s n. add_if_missing L names n s) ns (st\<lparr>cmor_var := v\<rparr>)
     = map_sum id (\<lambda>s. s\<lparr>cmor_var := v\<rparr>) (for_each (\<lambda>s n. add_if_missing L names n s) ns st)"
proof (induction ns arbitrary: st)
  case Nil
  show ?case by simp
next
  case (Cons n ns)
  show ?case
    by (cases "add_if_missing L names n st") (simp_all add: add_if_missing_cmor_var Cons.IH)
qed

lemma add_loop_without_time:
  assumes "coord_by_name (the_cube st) ''time'' = None" and "\<not> set ns \<subseteq> set names"
  shows "for_each (\<lambda>s n. add_if_missing L names n s) ns st = Inl CoordinateNotFoundError"
  using assms(2)
proof (induction ns)
  case Nil
  then show ?case by simp
next
  case (Cons n ns)
  then show ?case
    using assms(1) by (cases "n \<in> set names") (simp_all add: add_if_missing_def add_categorised_coord_def)
qed

lemma check_metadata_st_passed:
  "metadata_checks L st = Inr st1 \<Longrightarrow> errors st1 = [] \<Longrightarrow>
   check_metadata_st L st = add_auxiliar_time_coordinates L (report_warnings st1)"
  by (simp add: check_metadata_st_def report_errors_def has_errors_def)

lemma check_metadata_st_Inr:
  assumes "check_metadata_st L st = Inr st'"
  shows "\<exists>st1. metadata_checks L st = Inr st1 \<and> errors st1 = []
           \<and> add_auxiliar_time_coordinates L (report_warnings st1) = Inr st'"
proof (cases "metadata_checks L st")
  case (Inl e)
  with assms show ?thesis by (simp add: check_metadata_st_def)
next
  case (Inr st1)
  with assms have "errors st1 = []"
    by (auto simp: check_metadata_st_def report_errors_def has_errors_def split: if_splits)
  with Inr assms check_metadata_st_passed [OF Inr this] show ?thesis by simp
qed

text \<open>
  C10. A cube returned by \<^verbatim>\<open>check_metadata\<close> has auxiliary coordinates named
  \<^verbatim>\<open>day_of_month\<close>, \<^verbatim>\<open>day_of_year\<close>, \<^verbatim>\<open>month_number\<close> and \<^verbatim>\<open>year\<close>; it is the cube the
  checks left, with exactly those of the four added whose name no auxiliary coordinate
  had. The step follows the report of the errors whenever none was found, and it reads
  nothing of the specification: with another specification in the checker it does the
  same, and on a cube without a time coordinate that lacks one of the four it raises
  the library's \<^verbatim>\<open>CoordinateNotFoundError\<close>.
\<close>

theorem aux_time_coordinates:
  "(\<forall>c. check_metadata L st = Inr c \<longrightarrow>
      set time_aux_names \<subseteq> coord_name ` set (aux_coords c)
      \<and> (\<exists>st1. metadata_checks L st = Inr st1 \<and> errors st1 = []
            \<and> c = (the_cube st1)\<lparr>aux_coords := aux_coords (the_cube st1)
                     @ missing_time_aux L (the_cube st1)\<rparr>))
   \<and> (\<forall>st1. metadata_checks L st = Inr st1 \<and> errors st1 = [] \<longrightarrow>
         check_metadata_st L st = add_auxiliar_time_coordinates L (report_warnings st1))
   \<and> add_auxiliar_time_coordinates L (st\<lparr>cmor_var := v\<rparr>)
       = map_sum id (\<lambda>s. s\<lparr>cmor_var := v\<rparr>) (add_auxiliar_time_coordinates L st)
   \<and> (coord_by_name (the_cube st) ''time'' = None
       \<and> \<not> set time_aux_names \<subseteq> set (map coord_name (aux_coords (the_cube st))) \<longrightarrow>
       add_auxiliar_time_coordinates L st = Inl CoordinateNotFoundError)"
proof -
  have a: "set time_aux_names \<subseteq> coord_name ` set (aux_coords c)
      \<and> (\<exists>st1. metadata_checks L st = Inr st1 \<and> errors st1 = []
            \<and> c = (the_cube st1)\<lparr>aux_coords := aux_coords (the_cube st1)
                     @ missing_time_aux L (the_cube st1)\<rparr>)"
    if "check_metadata L st = Inr c" for c
  proof -
    from that obtain st' where s: "check_metadata_st L st = Inr st'" and c: "c = the_cube st'"
      by (cases "check_metadata_st L st") (auto simp: check_metadata_def)
    from check_metadata_st_Inr [OF s] obtain st1 where
      m: "metadata_checks L st = Inr st1" "errors st1 = []"
      and x: "add_auxiliar_time_coordinates L (report_warnings st1) = Inr st'"
      by blast
    from add_auxiliar_time_coordinates_result [OF x] m c show ?thesis
      by auto
  qed
  have b: "add_auxiliar_time_coordinates L (st\<lparr>cmor_var := v\<rparr>)
       = map_sum id (\<lambda>s. s\<lparr>cmor_var := v\<rparr>) (add_auxiliar_time_coordinates L st)"
    by (simp add: add_auxiliar_time_coordinates_loop add_loop_cmor_var)
  have c: "add_auxiliar_time_coordinates L st = Inl CoordinateNotFoundError"
    if "coord_by_name (the_cube st) ''time'' = None"
      "\<not> set time_aux_names \<subseteq> set (map coord_name (aux_coords (the_cube st)))"
    unfolding add_auxiliar_time_coordinates_loop
    using that by (rule add_loop_without_time)
  from a b c check_metadata_st_passed show ?thesis by blast
qed

lemma lower_K: "lower ''K'' \<noteq> ''psu''"
  by (simp add: lower_def)

lemma time_metadata:
  "check_metadata sample_lib (time_checker [15, 45] ''mon'' False)
     = Inr ((time_cube [15, 45])
             \<lparr>aux_coords := map (categorised_coord sample_lib (time_coord [15, 45]))
                 [''day_of_month'', ''day_of_year'', ''month_number'', ''year'']\<rparr>)"
  by (simp add: metadata_defs lookup_defs sample_defs sample_lib_defs time_checker_def
      Let_def categorised_coord_def lower_K one_month_apart_def)

theorem aux_time_coordinates_witness:
  "check_metadata sample_lib (time_checker [15, 45] ''mon'' False)
     = Inr ((time_cube [15, 45])
             \<lparr>aux_coords := map (categorised_coord sample_lib (time_coord [15, 45]))
                 [''day_of_month'', ''day_of_year'', ''month_number'', ''year'']\<rparr>)
   \<and> set time_aux_names \<subseteq> coord_name ` set (aux_coords ((time_cube [15, 45])
             \<lparr>aux_coords := map (categorised_coord sample_lib (time_coord [15, 45]))
                 [''day_of_month'', ''day_of_year'', ''month_number'', ''year'']\<rparr>))
   \<and> coord_by_name empty_cube ''time'' = None
   \<and> add_auxiliar_time_coordinates sample_lib (CMORCheck empty_cube no_coords_var None False False)
       = Inl CoordinateNotFoundError"
proof -
  have n: "coord_by_name (the_cube (CMORCheck empty_cube no_coords_var None False False)) ''time''
             = None"
    "\<not> set time_aux_names \<subseteq> set (map coord_name (aux_coords
         (the_cube (CMORCheck empty_cube no_coords_var None False False))))"
    by (simp_all add: CMORCheck_def empty_cube_def coord_by_name_def coords_def find_one_def
        time_aux_names_def)
  from aux_time_coordinates [of sample_lib "time_checker [15, 45] ''mon'' False"] time_metadata
  have a: "set time_aux_names \<subseteq> coord_name ` set (aux_coords ((time_cube [15, 45])
             \<lparr>aux_coords := map (categorised_coord sample_lib (time_coord [15, 45]))
                 [''day_of_month'', ''day_of_year'', ''month_number'', ''year'']\<rparr>))"
    by blast
  from aux_time_coordinates [of sample_lib "CMORCheck empty_cube no_coords_var None False False"] n
  have b: "add_auxiliar_time_coordinates sample_lib
             (CMORCheck empty_cube no_coords_var None False False) = Inl CoordinateNotFoundError"
    by blast
  from n(1) have c: "coord_by_name empty_cube ''time'' = None"
    by (simp add: CMORCheck_def)
  from time_metadata a b c show ?thesis by simp
qed

section \<open>Units after the data phase\<close>

lemma frame_metadata_tail:
  "frame kept sb
     (then_do (check_positive sb)
        (\<lambda>st1. then_do (check_fill_value st1)
           (\<lambda>st2. then_do (check_dim_names st2)
              (\<lambda>st3. then_do (check_coords L st3)
                 (\<lambda>st4. then_do (check_time_coord L st4) check_rank)))))"
  unfolding check_fill_value_def then_do_Inr
  by (intro frame_then_do_kept frame_check_positive frame_check_dim_names
      frame_check_coords frame_check_time_coord frame_check_rank)

lemma metadata_checks_Inr:
  assumes "metadata_checks L st = Inr st2"
  shows "\<exists>sa sb. check_standard_name st = Inr sa
           \<and> check_units L (fix_invalid_units sa) = Inr sb
           \<and> advances sb st2 \<and> kept (the_cube sb) (the_cube st2)"
proof (cases "check_standard_name st")
  case (Inl e)
  with assms show ?thesis
    by (simp add: metadata_checks_standard_name_raises)
next
  case a: (Inr sa)
  show ?thesis
  proof (cases "check_units L (fix_invalid_units sa)")
    case (Inl e)
    with a assms show ?thesis
      by (simp add: metadata_checks_def check_var_metadata_def)
  next
    case b: (Inr sb)
    have "metadata_checks L st =
        then_do (check_positive sb)
          (\<lambda>st1. then_do (check_fill_value st1)
             (\<lambda>st2. then_do (check_dim_names st2)
                (\<lambda>st3. then_do (check_coords L st3)
                   (\<lambda>st4. then_do (check_time_coord L st4) check_rank))))"
      by (simp add: metadata_checks_def check_var_metadata_def a b)
    with frame_metadata_tail [of sb L] assms a b show ?thesis
      by simp
  qed
qed

lemma advances_errors_empty: "advances s t \<Longrightarrow> errors t = [] \<Longrightarrow> errors s = []"
  by (auto simp: advances_def)

lemma check_units_passed:
  assumes "check_units L s = Inr sb" and "errors sb = []" and "vi_units (cmor_var s) \<noteq> []"
  shows "is_convertible L (cube_units (the_cube s)) (get_effective_units s)
         \<and> the_cube sb = the_cube s \<and> cmor_var sb = cmor_var s"
  using assms by (auto simp: check_units_def report_error_cases split: if_splits)

lemma metadata_passed_convertible:
  assumes "check_metadata_st L st = Inr st1" and "vi_units (cmor_var st) \<noteq> []"
  shows "is_convertible L (cube_units (the_cube st1)) (get_effective_units st1)
         \<and> cmor_var st1 = cmor_var st"
proof -
  from check_metadata_st_Inr [OF assms(1)] obtain st2 where
    m: "metadata_checks L st = Inr st2" and e: "errors st2 = []"
    and x: "add_auxiliar_time_coordinates L (report_warnings st2) = Inr st1"
    by blast
  from metadata_checks_Inr [OF m] obtain sa sb where
    a: "check_standard_name st = Inr sa"
    and b: "check_units L (fix_invalid_units sa) = Inr sb"
    and c: "advances sb st2" "kept (the_cube sb) (the_cube st2)"
    by blast
  from frame_check_standard_name [of st] a have sa: "advances st sa" by simp
  have fa: "advances sa (fix_invalid_units sa)" by (rule advances_fix_invalid_units)
  from sa fa have cv: "cmor_var (fix_invalid_units sa) = cmor_var st"
    by (simp add: advances_def)
  from advances_errors_empty [OF c(1) e] have "errors sb = []" .
  from check_units_passed [OF b this] cv assms(2)
  have u: "is_convertible L (cube_units (the_cube (fix_invalid_units sa)))
             (get_effective_units (fix_invalid_units sa))"
    "the_cube sb = the_cube (fix_invalid_units sa)" "cmor_var sb = cmor_var st"
    by simp_all
  from frame_add_auxiliar_time_coordinates [of "report_warnings st2" L] x
  have y: "advances (report_warnings st2) st1" "same_head (the_cube st2) (the_cube st1)"
    by simp_all
  from c(1) y(1) u(3) have cv1: "cmor_var st1 = cmor_var st"
    by (simp add: advances_def)
  from c(2) y(2) u(2) have "cube_units (the_cube st1) = cube_units (the_cube (fix_invalid_units sa))"
    by (simp add: kept_def same_head_def)
  moreover from cv cv1 have "get_effective_units st1 = get_effective_units (fix_invalid_units sa)"
    by (simp add: get_effective_units_def)
  ultimately show ?thesis using u(1) cv1 by simp
qed

lemma convert_cube_units_cases:
  "convert_cube_units L st =
     (if vi_units (cmor_var st) = [] \<or> cube_units (the_cube st) = get_effective_units st
      then Inr st
      else if is_convertible L (cube_units (the_cube st)) (get_effective_units st)
      then Inr (st\<lparr>the_cube := (the_cube st)\<lparr>cube_units := get_effective_units st\<rparr>\<rparr>)
      else Inl ValueError)"
  by (simp add: convert_cube_units_def convert_units_def Let_def)

lemma check_data_units:
  assumes "vi_units (cmor_var st) \<noteq> []" and "check_data L st = Inr c"
  shows "cube_units c = get_effective_units st"
proof -
  from assms(2) obtain st' where s: "check_data_st L st = Inr st'" and c: "c = the_cube st'"
    by (cases "check_data_st L st") (auto simp: check_data_def)
  from s obtain s1 s2 where
    a: "convert_cube_units L st = Inr s1" and b: "check_coords_data L s1 = Inr s2"
    and r: "report_errors (report_warnings s2) = Inr st'"
    by (auto simp: check_data_st_def data_checks_def then_do_def split: sum.splits)
  from a assms(1) have u: "cube_units (the_cube s1) = get_effective_units st"
    by (auto simp: convert_cube_units_cases split: if_splits)
  from frame_check_coords_data [of s1 L] b have "kept (the_cube s1) (the_cube s2)" by simp
  moreover from r have "the_cube st' = the_cube s2"
    by (auto simp: report_errors_def split: if_splits)
  ultimately show ?thesis using u c by (simp add: kept_def same_head_def)
qed


lemmas data_defs =
  check_data_def check_data_st_def data_checks_def convert_cube_units_def convert_units_def
  check_coords_data_def check_coords_data_step_def

lemma degC_metadata:
  "check_metadata_st sample_lib (CMORCheck degC_cube time_var None False False)
     = Inr (CMORCheck
              (degC_cube\<lparr>aux_coords := map (categorised_coord sample_lib (time_coord [15, 45]))
                 [''day_of_month'', ''day_of_year'', ''month_number'', ''year'']\<rparr>)
              time_var None False False)"
  by (simp add: metadata_defs lookup_defs sample_defs sample_lib_defs degC_cube_def
      Let_def categorised_coord_def lower_K one_month_apart_def)

lemma degC_data:
  "check_data sample_lib (CMORCheck
              (degC_cube\<lparr>aux_coords := map (categorised_coord sample_lib (time_coord [15, 45]))
                 [''day_of_month'', ''day_of_year'', ''month_number'', ''year'']\<rparr>)
              time_var None False False)
     = Inr ((time_cube [15, 45])
              \<lparr>aux_coords := map (categorised_coord sample_lib (time_coord [15, 45]))
                 [''day_of_month'', ''day_of_year'', ''month_number'', ''year'']\<rparr>)"
  by (simp add: data_defs metadata_defs lookup_defs sample_defs sample_lib_defs degC_cube_def
      Let_def categorised_coord_def lower_K)



section \<open>The first error\<close>

lemma follows_Inr [simp]:
  "errors (p t) = [] \<Longrightarrow> follows V p (Inr s) (Inr t) = V s t"
  by (simp add: follows_def)

lemma follows_Inl [simp]: "follows V p (Inl e) (Inl e)"
  by (simp add: follows_def)

lemma follows_then_do:
  assumes "follows V p rs rt"
    and "\<And>s' t'. V s' t' \<Longrightarrow> errors (p t') = [] \<Longrightarrow> follows W q (f s') (f t')"
    and "\<And>t' t''. f t' = Inr t'' \<Longrightarrow> \<exists>es. errors (q t'') = errors (p t') @ es"
  shows "follows W q (then_do rs f) (then_do rt f)"
proof (cases rt)
  case (Inl e)
  with assms(1) show ?thesis by (auto simp: follows_def)
next
  case (Inr t')
  show ?thesis
  proof (cases "errors (p t') = []")
    case True
    with assms(1) Inr obtain s' where "rs = Inr s'" "V s' t'" by (auto simp: follows_def)
    with assms(2) [OF this(2) True] Inr show ?thesis by simp
  next
    case False
    with assms(1) Inr obtain c where
      rs: "rs = Inl (CMORCheckError (Single (hd (errors (p t'))) c))"
      by (auto simp: follows_def)
    show ?thesis
    proof (cases "f t'")
      case (Inl e)
      with rs Inr show ?thesis by (simp add: follows_def)
    next
      case r: (Inr t'')
      from assms(3) [OF r] obtain es where "errors (q t'') = errors (p t') @ es" by blast
      with False rs Inr r show ?thesis by (simp add: follows_def)
    qed
  qed
qed

lemma frame_errors:
  "frame R t r \<Longrightarrow> r = Inr t' \<Longrightarrow> \<exists>es. errors t' = errors t @ es"
  by (simp add: advances_def)

lemma follows_for_each:
  assumes "\<And>s t x. x \<in> set xs \<Longrightarrow> in_step s t \<Longrightarrow> follows in_step (\<lambda>x. x) (f s x) (f t x)"
    and "\<And>t x. x \<in> set xs \<Longrightarrow> frame kept t (f t x)"
    and "in_step s t"
  shows "follows in_step (\<lambda>x. x) (for_each f xs s) (for_each f xs t)"
  using assms
proof (induction xs arbitrary: s t)
  case Nil
  then show ?case by (simp add: in_step_def)
next
  case (Cons x xs)
  show ?case
    unfolding for_each.simps
  proof (rule follows_then_do)
    show "follows in_step (\<lambda>x. x) (f s x) (f t x)"
      using Cons.prems by simp
  next
    fix s' t'
    assume "in_step s' t'"
    then show "follows in_step (\<lambda>x. x) (for_each f xs s') (for_each f xs t')"
      using Cons.prems(1,2) by (intro Cons.IH) simp_all
  next
    fix t' t''
    assume a: "for_each f xs t' = Inr t''"
    have "frame kept t' (for_each f xs t')"
      using Cons.prems(2) by (intro frame_for_each_kept) simp
    from frame_errors [OF this a] show "\<exists>es. errors t'' = errors t' @ es" by simp
  qed
qed

lemma follows_report_error:
  "in_step s t \<Longrightarrow> follows V (\<lambda>x. x) (report_error s m a) (report_error t m a)"
  by (simp add: in_step_def follows_def report_error_cases)

lemma in_step_report_warning:
  "in_step s t \<Longrightarrow> in_step (report_warning s m a) (report_warning t m' a')"
  by (simp add: in_step_def report_warning_def Let_def)

lemma in_step_Inr: "in_step s t \<Longrightarrow> follows in_step (\<lambda>x. x) (Inr s) (Inr t)"
  by (simp add: in_step_def)

lemma follows_check_standard_name:
  "in_step s t \<Longrightarrow> follows in_step (\<lambda>x. x) (check_standard_name s) (check_standard_name t)"
  by (auto simp: check_standard_name_def follows_def report_error_cases in_step_def)

lemma in_step_fix_invalid_units:
  "in_step s t \<Longrightarrow> in_step (fix_invalid_units s) (fix_invalid_units t)"
  by (simp add: in_step_def fix_invalid_units_def)

lemma follows_check_units:
  "in_step s t \<Longrightarrow> follows in_step (\<lambda>x. x) (check_units L s) (check_units L t)"
  by (auto simp: check_units_def get_effective_units_def follows_def report_error_cases in_step_def)

lemma follows_check_positive:
  "in_step s t \<Longrightarrow> follows in_step (\<lambda>x. x) (check_positive s) (check_positive t)"
  by (auto simp: check_positive_def follows_def report_error_cases in_step_def Let_def
      report_warning_def split: option.splits)

lemma follows_check_var_metadata:
  assumes "in_step s t"
  shows "follows in_step (\<lambda>x. x) (check_var_metadata L s) (check_var_metadata L t)"
  unfolding check_var_metadata_def
proof (rule follows_then_do [OF follows_check_standard_name [OF assms]])
  fix s1 t1
  assume i: "in_step s1 t1"
  show "follows in_step (\<lambda>x. x)
          (then_do (check_units L (fix_invalid_units s1)) check_positive)
          (then_do (check_units L (fix_invalid_units t1)) check_positive)"
  proof (rule follows_then_do [OF follows_check_units [OF in_step_fix_invalid_units [OF i]]])
    fix s2 t2
    assume "in_step s2 t2"
    then show "follows in_step (\<lambda>x. x) (check_positive s2) (check_positive t2)"
      by (rule follows_check_positive)
  next
    fix t2 t3
    assume "check_positive t2 = Inr t3"
    from frame_errors [OF frame_check_positive this]
    show "\<exists>es. errors t3 = errors t2 @ es" .
  qed
next
  fix t1 t2
  assume a: "then_do (check_units L (fix_invalid_units t1)) check_positive = Inr t2"
  have "frame same_names t1 (then_do (check_units L (fix_invalid_units t1)) check_positive)"
    by (rule frame_shift_names [OF advances_fix_invalid_units same_names_fix_invalid_units])
      (intro frame_then_do_names frame_kept_names frame_check_units frame_check_positive)
  from frame_errors [OF this a] show "\<exists>es. errors t2 = errors t1 @ es" .
qed

lemma follows_check_rank:
  "in_step s t \<Longrightarrow> follows in_step (\<lambda>x. x) (check_rank s) (check_rank t)"
  by (auto simp: check_rank_def follows_def report_error_cases in_step_def Let_def)

lemma follows_check_dim_name:
  "in_step s t \<Longrightarrow> follows in_step (\<lambda>x. x) (check_dim_name s x) (check_dim_name t x)"
  by (auto simp: check_dim_name_def follows_def report_error_cases in_step_def
      split: option.splits)

lemma in_step_cmor_var: "in_step s t \<Longrightarrow> cmor_var s = cmor_var t"
  by (simp add: in_step_def)

lemma follows_check_dim_names:
  "in_step s t \<Longrightarrow> follows in_step (\<lambda>x. x) (check_dim_names s) (check_dim_names t)"
  unfolding check_dim_names_def
  by (simp add: in_step_cmor_var)
    (rule follows_for_each, auto intro: follows_check_dim_name frame_check_dim_name)

lemma follows_check_direction:
  "in_step s t \<Longrightarrow>
   follows in_step (\<lambda>x. x) (check_direction s x v d w) (check_direction t x v d w)"
  by (auto simp: check_direction_def follows_def report_error_cases in_step_def reverse_coord_def)

lemma check_direction_errors:
  "check_direction t x v d w = Inr t2 \<Longrightarrow> \<exists>es. errors t2 = errors t @ es"
  by (rule frame_errors [OF frame_check_direction])

lemma follows_direction_part:
  assumes "in_step s t"
  shows "follows in_step (\<lambda>x. x)
          (case ps of p0 # p1 # r \<Rightarrow> check_direction s x v d (w p0 p1) | _ \<Rightarrow> Inl IndexError)
          (case ps of p0 # p1 # r \<Rightarrow> check_direction t x v d (w p0 p1) | _ \<Rightarrow> Inl IndexError)"
  using assms by (simp add: follows_check_direction split: list.splits)

lemma follows_check_coord_monotonicity_and_direction:
  assumes "in_step s t"
  shows "follows in_step (\<lambda>x. x)
           (check_coord_monotonicity_and_direction L s cmor x v)
           (check_coord_monotonicity_and_direction L t cmor x v)"
  unfolding check_coord_monotonicity_and_direction_def
proof (rule follows_then_do [where V = in_step and p = "\<lambda>x. x"])
  show "follows in_step (\<lambda>x. x)
          (if \<not> is_monotonic L x then report_error s is_msg [PStr v, PStr ''monotonic''] else Inr s)
          (if \<not> is_monotonic L x then report_error t is_msg [PStr v, PStr ''monotonic''] else Inr t)"
    using assms by (auto simp: follows_def report_error_cases in_step_def)
next
  fix s1 t1
  assume i: "in_step s1 t1"
  then have e: "errors t1 = []" by (simp add: in_step_def)
  show "follows in_step (\<lambda>x. x)
          (if length (c_points x) = 1 then Inr s1
           else if ci_stored_direction cmor \<noteq> [] then
             if ci_stored_direction cmor = ''increasing'' then
               case c_points x of
                 p0 # p1 # xa \<Rightarrow> check_direction s1 x v ''increasing'' (p1 < p0)
               | _ \<Rightarrow> Inl IndexError
             else if ci_stored_direction cmor = ''decreasing'' then
               case c_points x of
                 p0 # p1 # xa \<Rightarrow> check_direction s1 x v ''decreasing'' (p0 < p1)
               | _ \<Rightarrow> Inl IndexError
             else Inr s1
           else Inr s1)
          (if length (c_points x) = 1 then Inr t1
           else if ci_stored_direction cmor \<noteq> [] then
             if ci_stored_direction cmor = ''increasing'' then
               case c_points x of
                 p0 # p1 # xa \<Rightarrow> check_direction t1 x v ''increasing'' (p1 < p0)
               | _ \<Rightarrow> Inl IndexError
             else if ci_stored_direction cmor = ''decreasing'' then
               case c_points x of
                 p0 # p1 # xa \<Rightarrow> check_direction t1 x v ''decreasing'' (p0 < p1)
               | _ \<Rightarrow> Inl IndexError
             else Inr t1
           else Inr t1)"
    using i e by (auto simp: follows_check_direction split: list.splits)
next
  fix t1 t2
  assume a: "(if length (c_points x) = 1 then Inr t1
           else if ci_stored_direction cmor \<noteq> [] then
             if ci_stored_direction cmor = ''increasing'' then
               case c_points x of
                 p0 # p1 # xa \<Rightarrow> check_direction t1 x v ''increasing'' (p1 < p0)
               | _ \<Rightarrow> Inl IndexError
             else if ci_stored_direction cmor = ''decreasing'' then
               case c_points x of
                 p0 # p1 # xa \<Rightarrow> check_direction t1 x v ''decreasing'' (p0 < p1)
               | _ \<Rightarrow> Inl IndexError
             else Inr t1
           else Inr t1) = Inr t2"
  then show "\<exists>es. errors t2 = errors t1 @ es"
    by (auto split: if_splits list.splits dest: check_direction_errors)
qed

lemma in_step_fold_warning:
  "in_step s t \<Longrightarrow>
   in_step (fold (\<lambda>p s. if P p then report_warning s m (a p) else s) ps s)
           (fold (\<lambda>p s. if P p then report_warning s m (a p) else s) ps t)"
proof (induction ps arbitrary: s t)
  case Nil
  then show ?case by simp
next
  case (Cons p ps)
  from Cons.prems have "in_step (if P p then report_warning s m (a p) else s)
                                (if P p then report_warning t m (a p) else t)"
    by (simp add: in_step_report_warning)
  from Cons.IH [OF this] show ?case by simp
qed

lemma follows_check_requested_values:
  assumes "in_step s t"
  shows "follows in_step (\<lambda>x. x) (check_requested_values L s x ci v)
           (check_requested_values L t x ci v)"
proof (cases "ci_requested ci \<noteq> []")
  case False
  with assms show ?thesis
    by (simp add: check_requested_values_def in_step_Inr)
next
  case True
  show ?thesis
  proof (cases "those (map (py_float L) (ci_requested ci))")
    case None
    with True show ?thesis by (simp add: check_requested_values_def)
  next
    case (Some ps)
    with True in_step_Inr [OF in_step_fold_warning [OF assms, of "\<lambda>p. p \<notin> set (c_points x)"
          contain_msg "\<lambda>p. [PStr v, PFloat p, PStr (c_units x)]" ps]]
    show ?thesis by (simp add: check_requested_values_def)
  qed
qed

lemma follows_bounds_part:
  "in_step s t \<Longrightarrow> follows in_step (\<lambda>x. x) (bounds_part L ci x v s) (bounds_part L ci x v t)"
  by (auto simp: bounds_part_def check_bound_def follows_def report_error_cases in_step_def
      split: option.splits)

lemma bounds_part_errors:
  "bounds_part L ci x v t = Inr t' \<Longrightarrow> \<exists>es. errors t' = errors t @ es"
  by (auto simp: bounds_part_def check_bound_def report_error_cases
      split: option.splits if_splits)

lemma check_coord_values_bounds:
  "check_coord_values L st ci x v =
     then_do (check_requested_values L st x ci v) (bounds_part L ci x v)"
  by (simp add: check_coord_values_def bounds_part_def [abs_def])

lemma follows_check_coord_values:
  assumes "in_step s t"
  shows "follows in_step (\<lambda>x. x) (check_coord_values L s ci x v) (check_coord_values L t ci x v)"
  unfolding check_coord_values_bounds
  by (rule follows_then_do [OF follows_check_requested_values [OF assms]])
    (auto intro: follows_bounds_part bounds_part_errors)

lemma check_coord_values_errors:
  assumes "check_coord_values L t ci x v = Inr t'"
  shows "\<exists>es. errors t' = errors t @ es"
proof -
  from assms obtain t1 where a: "check_requested_values L t x ci v = Inr t1"
    and b: "bounds_part L ci x v t1 = Inr t'"
    by (auto simp: check_coord_values_bounds then_do_def split: sum.splits)
  from check_requested_values_keeps [OF a] bounds_part_errors [OF b] show ?thesis by simp
qed

lemma follows_check_coord_units:
  "in_step s t \<Longrightarrow>
   follows in_step_with fst (check_coord_units L s cmor x v) (check_coord_units L t cmor x v)"
  by (auto simp: check_coord_units_def follows_def report_error_cases in_step_def
      in_step_with_def Let_def split: option.splits)

lemma check_coord_units_errors:
  "check_coord_units L t cmor x v = Inr tx \<Longrightarrow> \<exists>es. errors (fst tx) = errors t @ es"
  by (auto simp: check_coord_units_def report_error_cases Let_def split: option.splits if_splits)

lemma mono_part_errors:
  "(if \<not> automatic_fixes t
    then check_coord_monotonicity_and_direction L t cmor x v else Inr t) = Inr t'
   \<Longrightarrow> \<exists>es. errors t' = errors t @ es"
  using frame_errors [OF frame_check_coord_monotonicity_and_direction [of t L cmor x v]]
  by (auto split: if_splits)

lemma coord_tail_errors:
  assumes "coord_tail L cmor v tx = Inr t'"
  shows "\<exists>es. errors t' = errors (fst tx) @ es"
proof -
  from assms obtain t1 where a: "check_coord_values L (fst tx) cmor (snd tx) v = Inr t1"
    and b: "(if \<not> automatic_fixes t1
             then check_coord_monotonicity_and_direction L t1 cmor (snd tx) v else Inr t1) = Inr t'"
    by (auto simp: coord_tail_def then_do_def split: sum.splits)
  from check_coord_values_errors [OF a] mono_part_errors [OF b] show ?thesis by auto
qed

lemma follows_coord_tail:
  assumes "in_step_with sx tx"
  shows "follows in_step (\<lambda>x. x) (coord_tail L cmor v sx) (coord_tail L cmor v tx)"
proof -
  from assms have i: "in_step (fst sx) (fst tx)" and e: "snd sx = snd tx"
    by (simp_all add: in_step_with_def)
  show ?thesis
    unfolding coord_tail_def e
  proof (rule follows_then_do [OF follows_check_coord_values [OF i]])
    fix s1 t1
    assume j: "in_step s1 t1"
    then have "automatic_fixes s1 = automatic_fixes t1" "errors t1 = []"
      by (simp_all add: in_step_def)
    with j show "follows in_step (\<lambda>x. x)
        (if \<not> automatic_fixes s1
         then check_coord_monotonicity_and_direction L s1 cmor (snd tx) v else Inr s1)
        (if \<not> automatic_fixes t1
         then check_coord_monotonicity_and_direction L t1 cmor (snd tx) v else Inr t1)"
      by (simp add: follows_check_coord_monotonicity_and_direction)
  next
    fix t1 t2
    assume "(if \<not> automatic_fixes t1
             then check_coord_monotonicity_and_direction L t1 cmor (snd tx) v else Inr t1) = Inr t2"
    then show "\<exists>es. errors t2 = errors t1 @ es" by (rule mono_part_errors)
  qed
qed

lemma check_coord_tail:
  "check_coord L st cmor x v =
     (if c_var_name x = Some ''time'' then Inr st
      else then_do (check_coord_units L st cmor x v) (coord_tail L cmor v))"
  by (simp add: check_coord_def coord_tail_def [abs_def])

lemma follows_check_coord:
  assumes "in_step s t"
  shows "follows in_step (\<lambda>x. x) (check_coord L s cmor x v) (check_coord L t cmor x v)"
proof (cases "c_var_name x = Some ''time''")
  case True
  with assms show ?thesis by (simp add: check_coord_tail in_step_def)
next
  case False
  have "follows in_step (\<lambda>x. x)
          (then_do (check_coord_units L s cmor x v) (coord_tail L cmor v))
          (then_do (check_coord_units L t cmor x v) (coord_tail L cmor v))"
    by (rule follows_then_do [OF follows_check_coord_units [OF assms]])
      (auto intro: follows_coord_tail coord_tail_errors)
  with False show ?thesis by (simp add: check_coord_tail)
qed

lemma in_step_the_cube: "in_step s t \<Longrightarrow> the_cube s = the_cube t"
  by (simp add: in_step_def)

lemma follows_check_coords_step:
  assumes "in_step s t"
  shows "follows in_step (\<lambda>x. x) (check_coords_step L s ci) (check_coords_step L t ci)"
  using assms follows_check_coord [OF assms] in_step_Inr [OF assms]
  by (simp add: check_coords_step_def in_step_the_cube split: option.splits)

lemma frame_check_coords_step: "frame kept t (check_coords_step L t ci)"
  by (simp add: check_coords_step_def frame_check_coord located_lookup split: option.splits)

lemma follows_check_coords:
  "in_step s t \<Longrightarrow> follows in_step (\<lambda>x. x) (check_coords L s) (check_coords L t)"
  unfolding check_coords_def
  by (simp add: in_step_cmor_var)
    (rule follows_for_each, auto intro: follows_check_coords_step frame_check_coords_step)

lemma follows_check_coords_data_step:
  assumes "in_step s t"
  shows "follows in_step (\<lambda>x. x) (check_coords_data_step L s ci) (check_coords_data_step L t ci)"
  using assms follows_check_coord_monotonicity_and_direction [OF assms] in_step_Inr [OF assms]
  by (simp add: check_coords_data_step_def in_step_the_cube split: option.splits)

lemma frame_check_coords_data_step: "frame kept t (check_coords_data_step L t ci)"
  by (simp add: check_coords_data_step_def frame_check_coord_monotonicity_and_direction
      split: option.splits)

lemma follows_check_coords_data:
  "in_step s t \<Longrightarrow> follows in_step (\<lambda>x. x) (check_coords_data L s) (check_coords_data L t)"
  unfolding check_coords_data_def
  by (simp add: in_step_cmor_var)
    (rule follows_for_each, auto intro: follows_check_coords_data_step frame_check_coords_data_step)

lemma in_step_frequency: "in_step s t \<Longrightarrow> frequency s = frequency t"
  by (simp add: in_step_def)

lemma follows_scan_mon:
  "in_step s t \<Longrightarrow> follows in_step (\<lambda>x. x) (scan_mon s v ds) (scan_mon t v ds)"
  by (auto simp: scan_mon_eq follows_report_error in_step_Inr in_step_frequency)

lemma follows_scan_yr:
  "in_step s t \<Longrightarrow> follows in_step (\<lambda>x. x) (scan_yr s v ds) (scan_yr t v ds)"
proof (induction s v ds rule: scan_yr.induct)
  case (1 st v a b r)
  then show ?case
    by (auto simp: follows_report_error in_step_frequency)
qed (simp_all add: in_step_Inr)

lemma follows_scan_intervals:
  "in_step s t \<Longrightarrow>
   follows in_step (\<lambda>x. x) (scan_intervals s v ti ps) (scan_intervals t v ti ps)"
  by (cases ti) (auto simp: scan_intervals_eq follows_report_error in_step_Inr in_step_frequency)

lemma follows_check_frequency:
  assumes "in_step s t"
  shows "follows in_step (\<lambda>x. x) (check_frequency L s x) (check_frequency L t x)"
proof -
  have a: "follows in_step (\<lambda>x. x) (then_do r (scan_mon s v)) (then_do r (scan_mon t v))"
    if "r = Inl AttributeError \<or> (\<exists>ds. r = Inr ds)" for r v
    using that assms by (auto simp: follows_scan_mon)
  have b: "follows in_step (\<lambda>x. x) (then_do r (scan_yr s v)) (then_do r (scan_yr t v))"
    if "r = Inl AttributeError \<or> (\<exists>ds. r = Inr ds)" for r v
    using that assms by (auto simp: follows_scan_yr)
  have c: "cells L x = Inl AttributeError \<or> (\<exists>ds. cells L x = Inr ds)"
    by (simp add: cells_def)
  have d: "follows in_step (\<lambda>x. x)
      (then_do (target_interval_of L f)
         (\<lambda>ti. case ti of None \<Rightarrow> report_error s m a | Some i \<Rightarrow> scan_intervals s v i ps))
      (then_do (target_interval_of L f)
         (\<lambda>ti. case ti of None \<Rightarrow> report_error t m a | Some i \<Rightarrow> scan_intervals t v i ps))"
    for f m a v ps
    using assms
    by (cases "target_interval_of L f")
      (auto simp: follows_scan_intervals follows_report_error split: option.splits)
  show ?thesis
    unfolding check_frequency_def Let_def in_step_frequency [OF assms]
    using a [OF c] b [OF c] d by simp
qed

lemma follows_normalize_time:
  "in_step s t \<Longrightarrow>
   follows in_step_with fst (normalize_time L s x) (normalize_time L t x)"
  by (auto simp: normalize_time_def follows_def report_error_cases in_step_def
      in_step_with_def Let_def split: option.splits)

lemma follows_check_time_coord:
  assumes "in_step s t"
  shows "follows in_step (\<lambda>x. x) (check_time_coord L s) (check_time_coord L t)"
proof (cases "dim_coord_by_name (the_cube t) ''time''")
  case None
  with assms show ?thesis
    by (simp add: check_time_coord_def in_step_the_cube in_step_Inr)
next
  case (Some x)
  have "follows in_step (\<lambda>x. x)
      (then_do (normalize_time L s x) (\<lambda>sx. check_frequency L (fst sx) (snd sx)))
      (then_do (normalize_time L t x) (\<lambda>sx. check_frequency L (fst sx) (snd sx)))"
  proof (rule follows_then_do [OF follows_normalize_time [OF assms]])
    fix sx tx :: "checker \<times> coord"
    assume "in_step_with sx tx"
    then show "follows in_step (\<lambda>x. x) (check_frequency L (fst sx) (snd sx))
                 (check_frequency L (fst tx) (snd tx))"
      by (simp add: in_step_with_def follows_check_frequency)
  next
    fix tx :: "checker \<times> coord" and t2
    assume "check_frequency L (fst tx) (snd tx) = Inr t2"
    from frame_errors [OF frame_check_frequency this]
    show "\<exists>es. errors t2 = errors (fst tx) @ es" .
  qed
  with Some assms show ?thesis
    by (simp add: check_time_coord_def in_step_the_cube)
qed

lemma follows_metadata_checks:
  assumes "in_step s t"
  shows "follows in_step (\<lambda>x. x) (metadata_checks L s) (metadata_checks L t)"
  unfolding metadata_checks_def check_fill_value_def then_do_Inr
proof (rule follows_then_do [OF follows_check_var_metadata [OF assms]])
  fix s1 t1
  assume i1: "in_step s1 t1"
  show "follows in_step (\<lambda>x. x)
          (then_do (check_dim_names s1)
             (\<lambda>st3. then_do (check_coords L st3)
                (\<lambda>st4. then_do (check_time_coord L st4) check_rank)))
          (then_do (check_dim_names t1)
             (\<lambda>st3. then_do (check_coords L st3)
                (\<lambda>st4. then_do (check_time_coord L st4) check_rank)))"
  proof (rule follows_then_do [OF follows_check_dim_names [OF i1]])
    fix s2 t2
    assume i2: "in_step s2 t2"
    show "follows in_step (\<lambda>x. x)
            (then_do (check_coords L s2) (\<lambda>st4. then_do (check_time_coord L st4) check_rank))
            (then_do (check_coords L t2) (\<lambda>st4. then_do (check_time_coord L st4) check_rank))"
    proof (rule follows_then_do [OF follows_check_coords [OF i2]])
      fix s3 t3
      assume i3: "in_step s3 t3"
      show "follows in_step (\<lambda>x. x)
              (then_do (check_time_coord L s3) check_rank)
              (then_do (check_time_coord L t3) check_rank)"
        by (rule follows_then_do [OF follows_check_time_coord [OF i3]])
          (auto intro: follows_check_rank frame_errors [OF frame_check_rank])
    next
      fix t3 t4
      assume a: "then_do (check_time_coord L t3) check_rank = Inr t4"
      have "frame kept t3 (then_do (check_time_coord L t3) check_rank)"
        by (intro frame_then_do_kept frame_check_time_coord frame_check_rank)
      from frame_errors [OF this a] show "\<exists>es. errors t4 = errors t3 @ es" .
    qed
  next
    fix t2 t4
    assume a: "then_do (check_coords L t2)
                 (\<lambda>st4. then_do (check_time_coord L st4) check_rank) = Inr t4"
    have "frame kept t2 (then_do (check_coords L t2)
                 (\<lambda>st4. then_do (check_time_coord L st4) check_rank))"
      by (intro frame_then_do_kept frame_check_coords frame_check_time_coord frame_check_rank)
    from frame_errors [OF this a] show "\<exists>es. errors t4 = errors t2 @ es" .
  qed
next
  fix t1 t4
  assume a: "then_do (check_dim_names t1)
             (\<lambda>st3. then_do (check_coords L st3)
                (\<lambda>st4. then_do (check_time_coord L st4) check_rank)) = Inr t4"
  have "frame kept t1 (then_do (check_dim_names t1)
             (\<lambda>st3. then_do (check_coords L st3)
                (\<lambda>st4. then_do (check_time_coord L st4) check_rank)))"
    by (intro frame_then_do_kept frame_check_dim_names frame_check_coords
        frame_check_time_coord frame_check_rank)
  from frame_errors [OF this a] show "\<exists>es. errors t4 = errors t1 @ es" .
qed

lemma follows_convert_cube_units:
  "in_step s t \<Longrightarrow>
   follows in_step (\<lambda>x. x) (convert_cube_units L s) (convert_cube_units L t)"
  by (auto simp: convert_cube_units_cases get_effective_units_def follows_def in_step_def)

lemma follows_data_checks:
  assumes "in_step s t"
  shows "follows in_step (\<lambda>x. x) (data_checks L s) (data_checks L t)"
  unfolding data_checks_def
  by (rule follows_then_do [OF follows_convert_cube_units [OF assms]])
    (auto intro: follows_check_coords_data frame_errors [OF frame_check_coords_data])

lemma add_if_missing_no_cmor_error:
  "add_if_missing L names n st \<noteq> Inl (CMORCheckError r)"
  by (simp add: add_if_missing_def add_categorised_coord_def split: option.splits)

lemma add_loop_no_cmor_error:
  "for_each (\<lambda>s n. add_if_missing L names n s) ns st \<noteq> Inl (CMORCheckError r)"
proof (induction ns arbitrary: st)
  case Nil
  show ?case by simp
next
  case (Cons n ns)
  show ?case
    using add_if_missing_no_cmor_error [of L names n st r] Cons.IH
    by (cases "add_if_missing L names n st") simp_all
qed

lemma add_auxiliar_no_cmor_error:
  "add_auxiliar_time_coordinates L st \<noteq> Inl (CMORCheckError r)"
  by (simp add: add_auxiliar_time_coordinates_loop add_loop_no_cmor_error)

lemma frame_no_summary:
  "frame R st (Inl (CMORCheckError r)) \<Longrightarrow> failerr st \<and> (\<exists>m c. r = Single m c)"
  by (cases r) (simp_all add: frame_def)

lemma frame_failfast_errors:
  "frame R st (Inr st1) \<Longrightarrow> failerr st \<Longrightarrow> errors st1 = errors st"
  by (simp add: advances_def)

lemma fail_fast_policy_intro:
  assumes fr: "\<And>s. frame same_names s (checks s)"
    and fo: "\<And>s t. in_step s t \<Longrightarrow> follows in_step (\<lambda>x. x) (checks s) (checks t)"
    and ph: "\<And>s. phase s = then_do (checks s) (\<lambda>s1. then_do (report_errors (report_warnings s1)) fin)"
    and fin: "\<And>s r. then_do (Inr s) fin \<noteq> Inl (CMORCheckError r)"
    and ff: "failerr st" "errors st = []"
  shows "fail_fast_policy checks phase st"
proof -
  have a: "\<exists>m c. r = Single m c \<and> checks st = Inl (CMORCheckError (Single m c))"
    if p: "phase st = Inl (CMORCheckError r)" for r
  proof (cases "checks st")
    case (Inl e)
    with p ph have "e = CMORCheckError r" by simp
    with Inl fr [of st] frame_no_summary [of same_names st r] show ?thesis by auto
  next
    case (Inr s1)
    with fr [of st] ff have "errors s1 = []"
      using frame_failfast_errors [of same_names st s1] by simp
    with Inr p ph fin [of "report_warnings s1" r] show ?thesis
      by (simp add: report_errors_def has_errors_def)
  qed
  have i: "in_step st (st\<lparr>failerr := False\<rparr>)"
    using ff by (simp add: in_step_def)
  note f = fo [OF i]
  have b: "\<exists>c. phase st = Inl (CMORCheckError (Single e c))"
    if "checks (st\<lparr>failerr := False\<rparr>) = Inr t'" "errors t' = e # es" for t' e es
    using f that by (auto simp: follows_def ph)
  have c: "\<exists>s'. checks st = Inr s' \<and> the_cube s' = the_cube t' \<and> errors s' = []"
    if "checks (st\<lparr>failerr := False\<rparr>) = Inr t'" "errors t' = []" for t'
    using f that by (auto simp: follows_def in_step_def)
  from a b c show ?thesis
    unfolding fail_fast_policy_def by blast
qed

lemma collect_all_policy_intro:
  assumes fr: "\<And>s. frame same_names s (checks s)"
    and ph: "\<And>s. phase s = then_do (checks s) (\<lambda>s1. then_do (report_errors (report_warnings s1)) fin)"
    and fin: "\<And>s r. then_do (Inr s) fin \<noteq> Inl (CMORCheckError r)"
    and ca: "\<not> failerr st"
  shows "collect_all_policy checks phase st"
proof -
  have a: "checks st \<noteq> Inl (CMORCheckError r)" for r
    using fr [of st] frame_no_summary [of same_names st r] ca by auto
  have b: "phase st = Inl (CMORCheckError r) \<longleftrightarrow>
            (\<exists>st1. checks st = Inr st1 \<and> errors st1 \<noteq> []
                   \<and> r = Summary (cube_var_name (the_cube st1)) (errors st1) (the_cube st1))"
    for r
  proof (cases "checks st")
    case (Inl e)
    with a ph show ?thesis by auto
  next
    case (Inr s1)
    with ph fin [of "report_warnings s1" r] show ?thesis
      by (auto simp: report_errors_def has_errors_def)
  qed
  from a b show ?thesis
    unfolding collect_all_policy_def by blast
qed

lemma metadata_phase:
  "check_metadata_st L s =
     then_do (metadata_checks L s)
       (\<lambda>s1. then_do (report_errors (report_warnings s1)) (add_auxiliar_time_coordinates L))"
  by (simp add: check_metadata_st_def)

lemma data_phase:
  "check_data_st L s =
     then_do (data_checks L s) (\<lambda>s1. then_do (report_errors (report_warnings s1)) Inr)"
proof -
  have "then_do r Inr = r" for r :: "error + checker"
    by (cases r) simp_all
  then show ?thesis by (simp add: check_data_st_def)
qed


lemma faulty_checks:
  "metadata_checks sample_lib (CMORCheck faulty_cube time_var None False False)
     = Inr ((CMORCheck faulty_cube time_var None False False)
             \<lparr>errors := [Msg attr_msg [PStr ''tas'', PStr ''standard_name'',
                                     PStr ''air_temperature'', PStr ''surface_temperature''],
                          Msg freq_msg [PStr ''time'', PStr ''mon'']]\<rparr>)"
  by (simp add: metadata_defs lookup_defs sample_defs sample_lib_defs faulty_cube_def
      Let_def lower_K of_opt_def one_month_apart_def)

lemma faulty_failfast:
  "check_metadata_st sample_lib (CMORCheck faulty_cube time_var None True False)
     = Inl (CMORCheckError (Single
         (Msg attr_msg [PStr ''tas'', PStr ''standard_name'',
                        PStr ''air_temperature'', PStr ''surface_temperature''])
         faulty_cube))"
  by (simp add: metadata_defs lookup_defs sample_defs sample_lib_defs faulty_cube_def
      Let_def lower_K of_opt_def)


section \<open>A second run of the metadata checks\<close>

lemma with_aux_simps [simp]:
  "cube_var_name (with_aux E c) = cube_var_name c"
  "cube_standard_name (with_aux E c) = cube_standard_name c"
  "cube_units (with_aux E c) = cube_units c"
  "attributes (with_aux E c) = attributes c"
  "ndim (with_aux E c) = ndim c"
  "dim_coords (with_aux E c) = dim_coords c"
  "aux_coords (with_aux E c) = aux_coords c @ E"
  by (simp_all add: with_aux_def)

lemma on_aux_simps [simp]:
  "the_cube (on_aux E s) = with_aux E (the_cube s)"
  "failerr (on_aux E s) = failerr s"
  "errors (on_aux E s) = errors s"
  "warnings (on_aux E s) = warnings s"
  "cmor_var (on_aux E s) = cmor_var s"
  "frequency (on_aux E s) = frequency s"
  "automatic_fixes (on_aux E s) = automatic_fixes s"
  by (simp_all add: on_aux_def)

lemma on_aux_error_simps [simp]:
  "on_aux_error E (CMORCheckError (Single m c)) = CMORCheckError (Single m (with_aux E c))"
  "on_aux_error E (CMORCheckError (Summary n es c)) = CMORCheckError (Summary n es (with_aux E c))"
  "on_aux_error E ValueError = ValueError"
  "on_aux_error E IndexError = IndexError"
  "on_aux_error E AttributeError = AttributeError"
  "on_aux_error E CoordinateNotFoundError = CoordinateNotFoundError"
  by (simp_all add: on_aux_error_def)

lemma then_do_map_sum:
  assumes "\<And>x. f (g x) = map_sum h g2 (f2 x)"
  shows "then_do (map_sum h g r) f = map_sum h g2 (then_do r f2)"
  using assms by (cases r) simp_all

lemma for_each_map_sum:
  assumes "\<And>s x. x \<in> set xs \<Longrightarrow> f (g s) x = map_sum h g (f s x)"
  shows "for_each f xs (g s) = map_sum h g (for_each f xs s)"
  using assms
proof (induction xs arbitrary: s)
  case Nil
  show ?case by simp
next
  case (Cons x xs)
  have "then_do (map_sum h g (f s x)) (for_each f xs) = map_sum h g (then_do (f s x) (for_each f xs))"
    by (rule then_do_map_sum) (simp add: Cons)
  with Cons.prems show ?case by simp
qed

lemma report_error_on_aux:
  "report_error (on_aux E s) m a = map_sum (on_aux_error E) (on_aux E) (report_error s m a)"
  by (simp add: report_error_cases on_aux_def)

lemma report_warning_on_aux:
  "report_warning (on_aux E s) m a = on_aux E (report_warning s m a)"
  by (simp add: report_warning_def on_aux_def Let_def)

lemma check_standard_name_on_aux:
  "check_standard_name (on_aux E s)
     = map_sum (on_aux_error E) (on_aux E) (check_standard_name s)"
  by (simp add: check_standard_name_def report_error_on_aux)

lemma fix_invalid_units_on_aux:
  "fix_invalid_units (on_aux E s) = on_aux E (fix_invalid_units s)"
  by (simp add: fix_invalid_units_def on_aux_def with_aux_def)

lemma check_units_on_aux:
  "check_units L (on_aux E s) = map_sum (on_aux_error E) (on_aux E) (check_units L s)"
  by (simp add: check_units_def report_error_on_aux get_effective_units_def)

lemma check_positive_on_aux:
  "check_positive (on_aux E s) = map_sum (on_aux_error E) (on_aux E) (check_positive s)"
  by (simp add: check_positive_def report_error_on_aux report_warning_on_aux Let_def
      split: option.splits)

lemma check_var_metadata_on_aux:
  "check_var_metadata L (on_aux E s)
     = map_sum (on_aux_error E) (on_aux E) (check_var_metadata L s)"
  unfolding check_var_metadata_def check_standard_name_on_aux
  by (intro then_do_map_sum)
    (simp add: fix_invalid_units_on_aux check_units_on_aux check_positive_on_aux then_do_map_sum)

lemma coord_by_var_name_with_aux:
  "list_all (\<lambda>e. c_var_name e = None) E \<Longrightarrow>
   coord_by_var_name (with_aux E c) v = coord_by_var_name c v"
proof -
  assume "list_all (\<lambda>e. c_var_name e = None) E"
  then have "filter (\<lambda>x. c_var_name x = Some v) E = []"
    by (auto simp: filter_empty_conv list_all_iff)
  then show ?thesis
    by (simp add: coord_by_var_name_def coords_def find_one_def)
qed

lemma coord_by_name_with_aux:
  "n \<notin> set (map coord_name E) \<Longrightarrow> coord_by_name (with_aux E c) n = coord_by_name c n"
proof -
  assume "n \<notin> set (map coord_name E)"
  then have "filter (\<lambda>x. coord_name x = n) E = []"
    by (auto simp: filter_empty_conv)
  then show ?thesis
    by (simp add: coord_by_name_def coords_def find_one_def)
qed

lemma dim_lookup_with_aux [simp]:
  "dim_coord_by_var_name (with_aux E c) v = dim_coord_by_var_name c v"
  "dim_coord_by_name (with_aux E c) n = dim_coord_by_name c n"
  by (simp_all add: dim_coord_by_var_name_def dim_coord_by_name_def)

lemma set_dim_coord_with_aux [simp]:
  "set_dim_coord_by_var_name (with_aux E c) v x = with_aux E (set_dim_coord_by_var_name c v x)"
  "set_dim_coord_by_name (with_aux E c) n x = with_aux E (set_dim_coord_by_name c n x)"
  "intersection L (with_aux E c) v x = with_aux E (intersection L c v x)"
  by (simp_all add: set_dim_coord_by_var_name_def set_dim_coord_by_name_def intersection_def
      with_aux_def)

lemma on_aux_the_cube [simp]:
  "(on_aux E s)\<lparr>the_cube := with_aux E c\<rparr> = on_aux E (s\<lparr>the_cube := c\<rparr>)"
  by (simp add: on_aux_def)

lemma aside_var_names: "aside E v \<Longrightarrow> list_all (\<lambda>e. c_var_name e = None) E"
  by (simp add: aside_def)

lemma aside_names:
  "aside E v \<Longrightarrow> ci \<in> set (map snd (vi_coordinates v)) \<Longrightarrow> \<not> ci_generic_level ci
   \<Longrightarrow> ci_standard_name ci \<notin> set (map coord_name E)"
  by (auto simp: aside_def list_all_iff)

lemma check_dim_name_on_aux:
  assumes "aside E (cmor_var s)" and "ci \<in> set (map snd (vi_coordinates (cmor_var s)))"
  shows "check_dim_name (on_aux E s) ci
           = map_sum (on_aux_error E) (on_aux E) (check_dim_name s ci)"
proof (cases "ci_generic_level ci")
  case True
  then show ?thesis by (simp add: check_dim_name_def)
next
  case False
  note n = coord_by_name_with_aux [OF aside_names [OF assms False]]
  note v = coord_by_var_name_with_aux [OF aside_var_names [OF assms(1)]]
  show ?thesis
    by (simp add: check_dim_name_def n v report_error_on_aux split: option.splits)
qed

lemma for_each_on_aux:
  assumes "\<And>s x. x \<in> set xs \<Longrightarrow> P s \<Longrightarrow>
             f (on_aux E s) x = map_sum (on_aux_error E) (on_aux E) (f s x)"
    and "\<And>s s' x. x \<in> set xs \<Longrightarrow> P s \<Longrightarrow> f s x = Inr s' \<Longrightarrow> P s'"
    and "P s"
  shows "for_each f xs (on_aux E s) = map_sum (on_aux_error E) (on_aux E) (for_each f xs s)"
  using assms
proof (induction xs arbitrary: s)
  case Nil
  show ?case by simp
next
  case (Cons x xs)
  show ?case
  proof (cases "f s x")
    case (Inl e)
    with Cons.prems(1) [of x s] Cons.prems(3) show ?thesis by simp
  next
    case (Inr s')
    from Cons.prems(2) [OF _ Cons.prems(3) Inr] have p: "P s'" by simp
    have "for_each f xs (on_aux E s') = map_sum (on_aux_error E) (on_aux E) (for_each f xs s')"
    proof (rule Cons.IH [OF _ _ p])
      fix s1 x1
      assume "x1 \<in> set xs" "P s1"
      then show "f (on_aux E s1) x1 = map_sum (on_aux_error E) (on_aux E) (f s1 x1)"
        using Cons.prems(1) [of x1 s1] by simp
    next
      fix s1 s2 x1
      assume "x1 \<in> set xs" "P s1" "f s1 x1 = Inr s2"
      then show "P s2"
        using Cons.prems(2) [of x1 s1 s2] by simp
    qed
    with Cons.prems(1) [of x s] Cons.prems(3) Inr show ?thesis by simp
  qed
qed

lemma frame_cmor_var: "frame R s r \<Longrightarrow> r = Inr s' \<Longrightarrow> cmor_var s' = cmor_var s"
  by (simp add: advances_def)

lemma check_dim_names_on_aux:
  assumes "aside E (cmor_var s)"
  shows "check_dim_names (on_aux E s) = map_sum (on_aux_error E) (on_aux E) (check_dim_names s)"
  unfolding check_dim_names_def on_aux_simps
proof (rule for_each_on_aux [where P = "\<lambda>s'. cmor_var s' = cmor_var s"])
  fix s' :: checker and ci
  assume "ci \<in> set (map snd (vi_coordinates (cmor_var s)))" "cmor_var s' = cmor_var s"
  with assms show "check_dim_name (on_aux E s') ci
      = map_sum (on_aux_error E) (on_aux E) (check_dim_name s' ci)"
    by (intro check_dim_name_on_aux) simp_all
next
  fix s1 s2 :: checker and ci
  assume "cmor_var s1 = cmor_var s" "check_dim_name s1 ci = Inr s2"
  with frame_cmor_var [OF frame_check_dim_name this(2)] show "cmor_var s2 = cmor_var s" by simp
qed simp

lemma rank_dims_with_aux:
  assumes "aside E v" and "ci \<in> set (map snd (vi_coordinates v))"
  shows "rank_dims (with_aux E c) ci = rank_dims c ci"
proof (cases "ci_generic_level ci")
  case True
  then show ?thesis by (simp add: rank_dims_def)
next
  case False
  from coord_by_name_with_aux [OF aside_names [OF assms False]] show ?thesis
    by (simp add: rank_dims_def)
qed

lemma check_rank_on_aux:
  assumes "aside E (cmor_var s)"
  shows "check_rank (on_aux E s) = map_sum (on_aux_error E) (on_aux E) (check_rank s)"
proof -
  have "map (rank_dims (with_aux E (the_cube s))) (map snd (vi_coordinates (cmor_var s)))
      = map (rank_dims (the_cube s)) (map snd (vi_coordinates (cmor_var s)))"
    by (rule map_cong [OF refl]) (rule rank_dims_with_aux [OF assms])
  then show ?thesis
    unfolding check_rank_def Let_def on_aux_simps
    by (simp only: with_aux_simps) (simp add: report_error_on_aux)
qed

lemma mono_part_on_aux:
  "(if \<not> automatic_fixes (on_aux E s)
    then check_coord_monotonicity_and_direction L (on_aux E s) cmor x v else Inr (on_aux E s))
   = map_sum (on_aux_error E) (on_aux E)
       (if \<not> automatic_fixes s
        then check_coord_monotonicity_and_direction L s cmor x v else Inr s)"
proof (cases "automatic_fixes s")
  case True
  then show ?thesis by simp
next
  case False
  have d: "check_direction (on_aux E s1) x v d w
             = map_sum (on_aux_error E) (on_aux E) (check_direction s1 x v d w)"
    if "\<not> automatic_fixes s1" for s1 d w
    using that by (simp add: check_direction_def report_error_on_aux)
  have a: "automatic_fixes s1 = automatic_fixes s"
    if "(if \<not> is_monotonic L x then report_error s is_msg [PStr v, PStr ''monotonic'']
         else Inr s) = Inr s1" for s1
    using that by (auto simp: report_error_cases split: if_splits)
  have "check_coord_monotonicity_and_direction L (on_aux E s) cmor x v
      = map_sum (on_aux_error E) (on_aux E) (check_coord_monotonicity_and_direction L s cmor x v)"
  proof (cases "if \<not> is_monotonic L x then report_error s is_msg [PStr v, PStr ''monotonic'']
         else Inr s")
    case (Inl e)
    then show ?thesis
      by (auto simp: check_coord_monotonicity_and_direction_def report_error_on_aux
          split: if_splits)
  next
    case (Inr s1)
    from a [OF Inr] False have n: "\<not> automatic_fixes s1" by simp
    from Inr show ?thesis
      by (auto simp: check_coord_monotonicity_and_direction_def report_error_on_aux d [OF n]
          split: if_splits list.splits)
  qed
  with False show ?thesis by simp
qed

lemma fold_warning_on_aux:
  "fold (\<lambda>p s. if P p then report_warning s m (a p) else s) ps (on_aux E s)
     = on_aux E (fold (\<lambda>p s. if P p then report_warning s m (a p) else s) ps s)"
proof (induction ps arbitrary: s)
  case Nil
  show ?case by simp
next
  case (Cons p ps)
  show ?case
  proof (cases "P p")
    case True
    with Cons.IH [of "report_warning s m (a p)"] show ?thesis
      by (simp add: report_warning_on_aux)
  next
    case False
    with Cons.IH [of s] show ?thesis by simp
  qed
qed

lemma check_requested_values_on_aux:
  "check_requested_values L (on_aux E s) x ci v
     = map_sum (on_aux_error E) (on_aux E) (check_requested_values L s x ci v)"
  by (simp add: check_requested_values_def fold_warning_on_aux split: option.splits)

lemma bounds_part_on_aux:
  "bounds_part L ci x v (on_aux E s)
     = map_sum (on_aux_error E) (on_aux E) (bounds_part L ci x v s)"
  by (auto simp: bounds_part_def check_bound_def report_error_cases on_aux_def
      split: option.splits)

lemma check_coord_values_on_aux:
  "check_coord_values L (on_aux E s) ci x v
     = map_sum (on_aux_error E) (on_aux E) (check_coord_values L s ci x v)"
  unfolding check_coord_values_bounds check_requested_values_on_aux
  by (rule then_do_map_sum) (rule bounds_part_on_aux)

lemma check_coord_units_on_aux:
  "check_coord_units L (on_aux E s) cmor x v
     = map_sum (on_aux_error E) (map_prod (on_aux E) (\<lambda>y. y)) (check_coord_units L s cmor x v)"
  by (auto simp: check_coord_units_def report_error_cases on_aux_def Let_def
      split: option.splits)

lemma coord_tail_on_aux:
  "coord_tail L cmor v (map_prod (on_aux E) (\<lambda>y. y) sx)
     = map_sum (on_aux_error E) (on_aux E) (coord_tail L cmor v sx)"
proof -
  obtain s x where sx: "sx = (s, x)" by (cases sx)
  have "then_do (map_sum (on_aux_error E) (on_aux E) (check_coord_values L s cmor x v))
          (\<lambda>st2. if \<not> automatic_fixes st2
             then check_coord_monotonicity_and_direction L st2 cmor x v else Inr st2)
      = map_sum (on_aux_error E) (on_aux E)
          (then_do (check_coord_values L s cmor x v)
            (\<lambda>st2. if \<not> automatic_fixes st2
               then check_coord_monotonicity_and_direction L st2 cmor x v else Inr st2))"
    by (rule then_do_map_sum) (rule mono_part_on_aux)
  then show ?thesis
    unfolding coord_tail_def sx map_prod_simp snd_conv fst_conv check_coord_values_on_aux .
qed

lemma check_coord_on_aux:
  "check_coord L (on_aux E s) cmor x v
     = map_sum (on_aux_error E) (on_aux E) (check_coord L s cmor x v)"
proof -
  have "then_do (map_sum (on_aux_error E) (map_prod (on_aux E) (\<lambda>y. y))
            (check_coord_units L s cmor x v)) (coord_tail L cmor v)
      = map_sum (on_aux_error E) (on_aux E)
          (then_do (check_coord_units L s cmor x v) (coord_tail L cmor v))"
    by (rule then_do_map_sum) (rule coord_tail_on_aux)
  then show ?thesis
    unfolding check_coord_tail check_coord_units_on_aux by simp
qed

lemma check_coords_step_on_aux:
  "check_coords_step L (on_aux E s) ci
     = map_sum (on_aux_error E) (on_aux E) (check_coords_step L s ci)"
  by (simp add: check_coords_step_def check_coord_on_aux split: option.splits)

lemma check_coords_on_aux:
  "check_coords L (on_aux E s) = map_sum (on_aux_error E) (on_aux E) (check_coords L s)"
  unfolding check_coords_def on_aux_simps
  by (rule for_each_map_sum) (rule check_coords_step_on_aux)

lemma scan_mon_on_aux:
  "scan_mon (on_aux E s) v ds = map_sum (on_aux_error E) (on_aux E) (scan_mon s v ds)"
  by (simp add: scan_mon_eq report_error_on_aux)

lemma scan_yr_on_aux:
  "scan_yr (on_aux E s) v ds = map_sum (on_aux_error E) (on_aux E) (scan_yr s v ds)"
  by (induction s v ds rule: scan_yr.induct) (simp_all add: report_error_on_aux)

lemma scan_intervals_on_aux:
  "scan_intervals (on_aux E s) v ti ps
     = map_sum (on_aux_error E) (on_aux E) (scan_intervals s v ti ps)"
  by (cases ti) (simp add: scan_intervals_eq report_error_on_aux)

lemma check_frequency_on_aux:
  "check_frequency L (on_aux E s) x
     = map_sum (on_aux_error E) (on_aux E) (check_frequency L s x)"
proof -
  have a: "then_do r (scan_mon (on_aux E s) v)
             = map_sum (on_aux_error E) (on_aux E) (then_do r (scan_mon s v))"
    if "r = Inl AttributeError \<or> (\<exists>ds. r = Inr ds)" for r v
    using that by (auto simp: scan_mon_on_aux)
  have b: "then_do r (scan_yr (on_aux E s) v)
             = map_sum (on_aux_error E) (on_aux E) (then_do r (scan_yr s v))"
    if "r = Inl AttributeError \<or> (\<exists>ds. r = Inr ds)" for r v
    using that by (auto simp: scan_yr_on_aux)
  have c: "cells L x = Inl AttributeError \<or> (\<exists>ds. cells L x = Inr ds)"
    by (simp add: cells_def)
  have d: "then_do (target_interval_of L f)
         (\<lambda>ti. case ti of None \<Rightarrow> report_error (on_aux E s) m a
                | Some i \<Rightarrow> scan_intervals (on_aux E s) v i ps)
      = map_sum (on_aux_error E) (on_aux E) (then_do (target_interval_of L f)
         (\<lambda>ti. case ti of None \<Rightarrow> report_error s m a | Some i \<Rightarrow> scan_intervals s v i ps))"
    for f m a v ps
    by (cases "target_interval_of L f")
      (auto simp: target_interval_of_def scan_intervals_on_aux report_error_on_aux Let_def
        split: option.splits if_splits)
  show ?thesis
    unfolding check_frequency_def Let_def on_aux_simps
    using a [OF c] b [OF c] d by simp
qed

lemma normalize_time_on_aux:
  "normalize_time L (on_aux E s) x
     = map_sum (on_aux_error E) (map_prod (on_aux E) (\<lambda>y. y)) (normalize_time L s x)"
  by (auto simp: normalize_time_def report_error_cases on_aux_def Let_def split: option.splits)

lemma check_time_coord_on_aux:
  "check_time_coord L (on_aux E s)
     = map_sum (on_aux_error E) (on_aux E) (check_time_coord L s)"
proof (cases "dim_coord_by_name (the_cube s) ''time''")
  case None
  then show ?thesis by (simp add: check_time_coord_def)
next
  case (Some x)
  have "then_do (map_sum (on_aux_error E) (map_prod (on_aux E) (\<lambda>y. y)) (normalize_time L s x))
          (\<lambda>sx. check_frequency L (fst sx) (snd sx))
      = map_sum (on_aux_error E) (on_aux E)
          (then_do (normalize_time L s x) (\<lambda>sx. check_frequency L (fst sx) (snd sx)))"
    by (rule then_do_map_sum) (simp add: check_frequency_on_aux)
  with Some show ?thesis
    by (simp add: check_time_coord_def normalize_time_on_aux)
qed

lemma then_do_map_sum_Inr:
  assumes "\<And>x. r = Inr x \<Longrightarrow> f (g x) = map_sum h g2 (f2 x)"
  shows "then_do (map_sum h g r) f = map_sum h g2 (then_do r f2)"
  using assms by (cases r) simp_all

lemma metadata_checks_on_aux:
  assumes "aside E (cmor_var s)"
  shows "metadata_checks L (on_aux E s)
           = map_sum (on_aux_error E) (on_aux E) (metadata_checks L s)"
proof -
  have r: "then_do (check_time_coord L (on_aux E s4)) check_rank
         = map_sum (on_aux_error E) (on_aux E) (then_do (check_time_coord L s4) check_rank)"
    if "cmor_var s4 = cmor_var s" for s4
    unfolding check_time_coord_on_aux
  proof (rule then_do_map_sum_Inr)
    fix s5 assume "check_time_coord L s4 = Inr s5"
    from frame_cmor_var [OF frame_check_time_coord this] that assms
    have "aside E (cmor_var s5)" by simp
    then show "check_rank (on_aux E s5) = map_sum (on_aux_error E) (on_aux E) (check_rank s5)"
      by (rule check_rank_on_aux)
  qed
  have c: "then_do (check_coords L (on_aux E s3))
             (\<lambda>st4. then_do (check_time_coord L st4) check_rank)
         = map_sum (on_aux_error E) (on_aux E)
             (then_do (check_coords L s3) (\<lambda>st4. then_do (check_time_coord L st4) check_rank))"
    if "cmor_var s3 = cmor_var s" for s3
    unfolding check_coords_on_aux
  proof (rule then_do_map_sum_Inr)
    fix s4 assume "check_coords L s3 = Inr s4"
    from frame_cmor_var [OF frame_check_coords this] that
    have "cmor_var s4 = cmor_var s" by simp
    then show "then_do (check_time_coord L (on_aux E s4)) check_rank
         = map_sum (on_aux_error E) (on_aux E) (then_do (check_time_coord L s4) check_rank)"
      by (rule r)
  qed
  have d: "then_do (check_dim_names (on_aux E s2))
             (\<lambda>st3. then_do (check_coords L st3)
                (\<lambda>st4. then_do (check_time_coord L st4) check_rank))
         = map_sum (on_aux_error E) (on_aux E)
             (then_do (check_dim_names s2)
               (\<lambda>st3. then_do (check_coords L st3)
                  (\<lambda>st4. then_do (check_time_coord L st4) check_rank)))"
    if "cmor_var s2 = cmor_var s" for s2
  proof -
    from that assms have "aside E (cmor_var s2)" by simp
    note check_dim_names_on_aux [OF this]
    moreover have "then_do (map_sum (on_aux_error E) (on_aux E) (check_dim_names s2))
             (\<lambda>st3. then_do (check_coords L st3)
                (\<lambda>st4. then_do (check_time_coord L st4) check_rank))
         = map_sum (on_aux_error E) (on_aux E)
             (then_do (check_dim_names s2)
               (\<lambda>st3. then_do (check_coords L st3)
                  (\<lambda>st4. then_do (check_time_coord L st4) check_rank)))"
    proof (rule then_do_map_sum_Inr)
      fix s3 assume "check_dim_names s2 = Inr s3"
      from frame_cmor_var [OF frame_check_dim_names this] that
      have "cmor_var s3 = cmor_var s" by simp
      then show "then_do (check_coords L (on_aux E s3))
             (\<lambda>st4. then_do (check_time_coord L st4) check_rank)
         = map_sum (on_aux_error E) (on_aux E)
             (then_do (check_coords L s3) (\<lambda>st4. then_do (check_time_coord L st4) check_rank))"
        by (rule c)
    qed
    ultimately show ?thesis by simp
  qed
  show ?thesis
    unfolding metadata_checks_def check_fill_value_def then_do_Inr check_var_metadata_on_aux
  proof (rule then_do_map_sum_Inr)
    fix s2 assume "check_var_metadata L s = Inr s2"
    from frame_cmor_var [OF frame_check_var_metadata this]
    show "then_do (check_dim_names (on_aux E s2))
             (\<lambda>st3. then_do (check_coords L st3)
                (\<lambda>st4. then_do (check_time_coord L st4) check_rank))
         = map_sum (on_aux_error E) (on_aux E)
             (then_do (check_dim_names s2)
               (\<lambda>st3. then_do (check_coords L st3)
                  (\<lambda>st4. then_do (check_time_coord L st4) check_rank)))"
      by (rule d)
  qed
qed

lemma check_dim_name_passed:
  assumes "check_dim_name s ci = Inr s1" and "errors s1 = []" and "\<not> ci_generic_level ci"
    and "ci_standard_name ci \<noteq> []"
  shows "ci_standard_name ci \<in> coord_name ` set (coords (the_cube s))"
proof (cases "coord_by_var_name (the_cube s) (ci_out_name ci)")
  case None
  with assms show ?thesis
    by (auto simp: check_dim_name_def report_error_cases split: option.splits if_splits)
next
  case (Some x)
  with assms have n: "c_standard_name x = Some (ci_standard_name ci)"
    by (auto simp: check_dim_name_def report_error_cases split: if_splits)
  from find_one_Some [OF Some [unfolded coord_by_var_name_def]]
  have x: "x \<in> set (coords (the_cube s))" by simp
  from n assms(4) have "coord_name x = ci_standard_name ci"
    by (simp add: coord_name_def or_else_def)
  with x show ?thesis by force
qed

lemma check_dim_name_cube: "check_dim_name s ci = Inr s1 \<Longrightarrow> the_cube s1 = the_cube s"
  by (auto simp: check_dim_name_def report_error_cases split: option.splits if_splits)

lemma check_dim_names_passed:
  assumes "for_each check_dim_name infos s = Inr s'" and "errors s' = []"
    and "ci \<in> set infos" and "\<not> ci_generic_level ci" and "ci_standard_name ci \<noteq> []"
  shows "ci_standard_name ci \<in> coord_name ` set (coords (the_cube s))"
  using assms(1,3)
proof (induction infos arbitrary: s)
  case Nil
  then show ?case by simp
next
  case (Cons a infos)
  from Cons.prems(1) obtain s1 where a: "check_dim_name s a = Inr s1"
    and r: "for_each check_dim_name infos s1 = Inr s'"
    by (cases "check_dim_name s a") simp_all
  have "frame kept s1 (for_each check_dim_name infos s1)"
    by (rule frame_for_each_kept) (rule frame_check_dim_name)
  with r have "advances s1 s'" by simp
  from advances_errors_empty [OF this assms(2)] have e: "errors s1 = []" .
  show ?case
  proof (cases "ci = a")
    case True
    with check_dim_name_passed [OF a e] assms(4,5) show ?thesis by simp
  next
    case False
    with Cons.prems(2) have "ci \<in> set infos" by simp
    from Cons.IH [OF r this] check_dim_name_cube [OF a] show ?thesis by simp
  qed
qed

lemma coord_name_not_empty [simp]: "coord_name x \<noteq> []"
  by (simp add: coord_name_def or_else_def split: option.splits)

lemma same_names_coord_names:
  assumes "same_names c c'"
  shows "coord_name ` set (coords c') = coord_name ` set (coords c)"
proof -
  define g where "g = (\<lambda>i :: string option \<times> string option \<times> string option \<times> nat list.
      or_else (fst (snd i)) (or_else (fst (snd (snd i))) (or_else (fst i) ''unknown'')))"
  have n: "coord_name = (\<lambda>x. g (ident x))"
    by (rule ext) (simp add: g_def coord_name_def ident_def)
  have m: "map coord_name xs = map g (map ident xs)" for xs
    unfolding n by (simp add: comp_def)
  from assms have "map g (map ident (coords c')) = map g (map ident (coords c))"
    by (simp add: same_names_def coords_def)
  then have "map coord_name (coords c') = map coord_name (coords c)"
    unfolding m .
  then have "set (map coord_name (coords c')) = set (map coord_name (coords c))" by simp
  then show ?thesis by simp
qed

lemma then_do_eq_Inr: "then_do r f = Inr y \<Longrightarrow> \<exists>x. r = Inr x \<and> f x = Inr y"
  by (cases r) simp_all

lemma metadata_checks_names:
  assumes "metadata_checks L st = Inr st'" and "errors st' = []"
    and "ci \<in> set (map snd (vi_coordinates (cmor_var st)))"
    and "\<not> ci_generic_level ci" and "ci_standard_name ci \<noteq> []"
  shows "ci_standard_name ci \<in> coord_name ` set (coords (the_cube st'))"
proof -
  from then_do_eq_Inr [OF assms(1) [unfolded metadata_checks_def check_fill_value_def then_do_Inr]]
  obtain s2 where v: "check_var_metadata L st = Inr s2"
    and r2: "then_do (check_dim_names s2)
             (\<lambda>st3. then_do (check_coords L st3)
                (\<lambda>st4. then_do (check_time_coord L st4) check_rank)) = Inr st'"
    by blast
  from then_do_eq_Inr [OF r2] obtain s3 where d: "check_dim_names s2 = Inr s3"
    and r3: "then_do (check_coords L s3) (\<lambda>st4. then_do (check_time_coord L st4) check_rank)
               = Inr st'"
    by blast
  have "frame kept s3
      (then_do (check_coords L s3) (\<lambda>st4. then_do (check_time_coord L st4) check_rank))"
    by (intro frame_then_do_kept frame_check_coords frame_check_time_coord frame_check_rank)
  with r3 have a3: "advances s3 st'" and k3: "kept (the_cube s3) (the_cube st')" by simp_all
  from frame_check_dim_names [of s2] d have k2: "kept (the_cube s2) (the_cube s3)" by simp
  from frame_cmor_var [OF frame_check_var_metadata v] assms(3)
  have ci: "ci \<in> set (map snd (vi_coordinates (cmor_var s2)))" by simp
  from advances_errors_empty [OF a3 assms(2)] have "errors s3 = []" .
  from check_dim_names_passed [OF d [unfolded check_dim_names_def] this ci assms(4,5)]
  have "ci_standard_name ci \<in> coord_name ` set (coords (the_cube s2))" .
  also from kept_trans [OF k2 k3] have "same_names (the_cube s2) (the_cube st')"
    by (rule kept_same_names)
  from same_names_coord_names [OF this]
  have "coord_name ` set (coords (the_cube s2)) = coord_name ` set (coords (the_cube st'))"
    by simp
  finally show ?thesis .
qed

lemma add_missing_fresh:
  assumes "for_each (\<lambda>s n. add_if_missing L names n s) ns st = Inr st'"
    and "n \<in> set ns" and "n \<notin> set names"
  shows "n \<notin> coord_name ` set (coords (the_cube st))"
  using assms(1,2)
proof (induction ns arbitrary: st)
  case Nil
  then show ?case by simp
next
  case (Cons a ns)
  from Cons.prems(1) obtain s1 where a: "add_if_missing L names a st = Inr s1"
    and r: "for_each (\<lambda>s n. add_if_missing L names n s) ns s1 = Inr st'"
    by (cases "add_if_missing L names a st") simp_all
  from a have sub: "set (coords (the_cube st)) \<subseteq> set (coords (the_cube s1))"
    by (auto simp: add_if_missing_def add_categorised_coord_def coords_def
        split: if_splits option.splits)
  show ?case
  proof (cases "n = a")
    case True
    with a assms(3) have "filter (\<lambda>x. coord_name x = n) (coords (the_cube st)) = []"
      by (auto simp: add_if_missing_def add_categorised_coord_def split: if_splits option.splits)
    then show ?thesis by (auto simp: filter_empty_conv)
  next
    case False
    with Cons.prems(2) have "n \<in> set ns" by simp
    from Cons.IH [OF r this] sub show ?thesis by auto
  qed
qed

lemma aside_missing_time_aux:
  assumes "metadata_checks L st = Inr st'" and "errors st' = []"
    and "add_auxiliar_time_coordinates L (report_warnings st') = Inr st1"
  shows "aside (missing_time_aux L (the_cube st')) (cmor_var st)"
proof -
  let ?c = "the_cube st'"
  let ?names = "map coord_name (aux_coords ?c)"
  have c: "the_cube (report_warnings st') = ?c" by (simp add: report_warnings_def)
  note loop = assms(3) [unfolded add_auxiliar_time_coordinates_loop c]
  have fresh: "n \<notin> coord_name ` set (coords ?c)"
    if "n \<in> set time_aux_names" "n \<notin> set ?names" for n
    using add_missing_fresh [OF loop that] by (simp add: c)
  have names: "set (map coord_name (missing_time_aux L ?c))
      \<subseteq> {n \<in> set time_aux_names. n \<notin> set ?names}"
    by (auto simp: missing_time_aux_def coord_name_categorised time_aux_names_def
        split: option.splits)
  have v: "list_all (\<lambda>e. c_var_name e = None) (missing_time_aux L ?c)"
    by (auto simp: missing_time_aux_def categorised_coord_def list_all_iff split: option.splits)
  have "ci_generic_level ci \<or> ci_standard_name ci \<notin> set (map coord_name (missing_time_aux L ?c))"
    if ci: "ci \<in> set (map snd (vi_coordinates (cmor_var st)))" for ci
  proof (cases "ci_generic_level ci \<or> ci_standard_name ci = []")
    case True
    then show ?thesis
    proof
      assume "ci_standard_name ci = []"
      moreover have "[] \<notin> set (map coord_name (missing_time_aux L ?c))"
        using coord_name_not_empty by (auto simp del: coord_name_not_empty dest!: sym [of "[]"])
      ultimately show ?thesis by simp
    qed simp
  next
    case False
    with metadata_checks_names [OF assms(1,2) ci]
    have "ci_standard_name ci \<in> coord_name ` set (coords ?c)" by simp
    with fresh names show ?thesis by blast
  qed
  with v show ?thesis by (simp add: aside_def list_all_iff)
qed

lemma add_auxiliar_time_coordinates_present:
  assumes "set time_aux_names \<subseteq> coord_name ` set (aux_coords (the_cube s))"
  shows "add_auxiliar_time_coordinates L s = Inr s"
  using assms
  by (simp add: add_auxiliar_time_coordinates_def add_if_missing_def time_aux_names_def Let_def)

lemma time_checks:
  "metadata_checks sample_lib (time_checker [15, 45] ''mon'' False)
     = Inr (time_checker [15, 45] ''mon'' False)"
  by (simp add: metadata_defs lookup_defs sample_defs sample_lib_defs time_checker_def
      Let_def lower_K one_month_apart_def)

lemma time_checked:
  "check_metadata_st sample_lib (time_checker [15, 45] ''mon'' False)
     = Inr ((time_checker [15, 45] ''mon'' False)
         \<lparr>the_cube := (time_cube [15, 45])
             \<lparr>aux_coords := map (categorised_coord sample_lib (time_coord [15, 45]))
                 [''day_of_month'', ''day_of_year'', ''month_number'', ''year'']\<rparr>\<rparr>)"
  by (simp add: metadata_defs lookup_defs sample_defs sample_lib_defs time_checker_def
      Let_def categorised_coord_def lower_K one_month_apart_def)



section \<open>The lists in fail-fast mode\<close>

lemma lists_report_warnings [simp]:
  "errors (report_warnings st) = errors st" "warnings (report_warnings st) = warnings st"
  "failerr (report_warnings st) = failerr st"
  by (simp_all add: report_warnings_def)

lemma metadata_failfast_lists:
  assumes "failerr st" and "check_metadata_st L st = Inr st'"
  shows "errors st' = errors st \<and> warnings st' = warnings st"
proof -
  from then_do_eq_Inr [OF assms(2) [unfolded check_metadata_st_def]]
  obtain s1 where m: "metadata_checks L st = Inr s1"
    and r: "then_do (report_errors (report_warnings s1)) (add_auxiliar_time_coordinates L) = Inr st'"
    by blast
  from then_do_eq_Inr [OF r] obtain s2 where e: "report_errors (report_warnings s1) = Inr s2"
    and a: "add_auxiliar_time_coordinates L s2 = Inr st'"
    by blast
  from e have s2: "s2 = report_warnings s1"
    by (simp add: report_errors_def split: if_splits)
  from frame_metadata_checks [of st L] m assms(1)
  have 1: "errors s1 = errors st \<and> warnings s1 = warnings st"
    by (simp add: advances_def)
  from frame_add_auxiliar_time_coordinates [of s2 L] a assms(1) s2 frame_metadata_checks [of st L] m
  have "errors st' = errors s2 \<and> warnings st' = warnings s2"
    by (simp add: advances_def)
  with 1 s2 show ?thesis by simp
qed

lemma data_failfast_lists:
  assumes "failerr st" and "check_data_st L st = Inr st'"
  shows "errors st' = errors st \<and> warnings st' = warnings st"
proof -
  from then_do_eq_Inr [OF assms(2) [unfolded check_data_st_def]]
  obtain s1 where m: "data_checks L st = Inr s1"
    and e: "report_errors (report_warnings s1) = Inr st'"
    by blast
  from e have s2: "st' = report_warnings s1"
    by (simp add: report_errors_def split: if_splits)
  from frame_data_checks [of st L] m assms(1)
  have "errors s1 = errors st \<and> warnings s1 = warnings st"
    by (simp add: advances_def)
  with s2 show ?thesis by simp
qed

lemma time_failfast_checked:
  "check_metadata_st sample_lib (time_checker [15, 45] ''mon'' True)
     = Inr ((time_checker [15, 45] ''mon'' True)
         \<lparr>the_cube := (time_cube [15, 45])
             \<lparr>aux_coords := map (categorised_coord sample_lib (time_coord [15, 45]))
                 [''day_of_month'', ''day_of_year'', ''month_number'', ''year'']\<rparr>\<rparr>)"
  by (simp add: metadata_defs lookup_defs sample_defs sample_lib_defs time_checker_def
      Let_def categorised_coord_def lower_K one_month_apart_def)

lemma time_failfast_data:
  "check_data_st sample_lib (time_checker [15, 45] ''mon'' True)
     = Inr (time_checker [15, 45] ''mon'' True)"
  by (simp add: data_defs metadata_defs lookup_defs sample_defs sample_lib_defs time_checker_def
      Let_def lower_K)

text \<open>
  C9. In fail-fast mode the two lists stay empty: \<^verbatim>\<open>report_error\<close> raises and returns
  no changed checker, \<^verbatim>\<open>report_warning\<close> prints and leaves both lists alone, so after
  any sequence of report calls \<^verbatim>\<open>has_errors()\<close> and \<^verbatim>\<open>has_warnings()\<close> are false, and the
  next \<^verbatim>\<open>report_error\<close> raises again. The same holds across the two phases: a checker
  that \<^verbatim>\<open>check_metadata\<close> or \<^verbatim>\<open>check_data\<close> leaves without raising has both lists empty.
\<close>

theorem failfast_lists_stay_empty:
  assumes "failerr st" and "errors st = []" and "warnings st = []"
  shows "\<not> has_errors (after_calls st cs) \<and> \<not> has_warnings (after_calls st cs)
         \<and> report_error (after_calls st cs) message args
             = Inl (CMORCheckError (Single (Msg message args) (the_cube st)))
         \<and> warnings (report_warning (after_calls st cs) message args) = []
         \<and> errors (report_warning (after_calls st cs) message args) = []
         \<and> stdout (report_warning (after_calls st cs) message args)
             = stdout (after_calls st cs) @ [Msg message args]
         \<and> (\<forall>st'. check_metadata_st L st = Inr st' \<longrightarrow>
               \<not> has_errors st' \<and> \<not> has_warnings st')
         \<and> (\<forall>st'. check_data_st L st = Inr st' \<longrightarrow>
               \<not> has_errors st' \<and> \<not> has_warnings st')"
proof -
  from after_calls_failfast [OF assms, of cs]
  have "\<not> has_errors (after_calls st cs) \<and> \<not> has_warnings (after_calls st cs)
         \<and> report_error (after_calls st cs) message args
             = Inl (CMORCheckError (Single (Msg message args) (the_cube st)))
         \<and> warnings (report_warning (after_calls st cs) message args) = []
         \<and> errors (report_warning (after_calls st cs) message args) = []
         \<and> stdout (report_warning (after_calls st cs) message args)
             = stdout (after_calls st cs) @ [Msg message args]"
    by (simp add: has_errors_def has_warnings_def report_error_def report_warning_def)
  moreover from metadata_failfast_lists [OF assms(1), of L] assms(2,3)
  have "\<forall>st'. check_metadata_st L st = Inr st' \<longrightarrow> \<not> has_errors st' \<and> \<not> has_warnings st'"
    by (simp add: has_errors_def has_warnings_def)
  moreover from data_failfast_lists [OF assms(1), of L] assms(2,3)
  have "\<forall>st'. check_data_st L st = Inr st' \<longrightarrow> \<not> has_errors st' \<and> \<not> has_warnings st'"
    by (simp add: has_errors_def has_warnings_def)
  ultimately show ?thesis by simp
qed

theorem failfast_lists_stay_empty_witness:
  "failerr (time_checker [15, 45] ''mon'' True)
   \<and> \<not> has_errors (after_calls (time_checker [15, 45] ''mon'' True)
        [Report_warning ''w'' [], Report_error ''e'' [], Report_warning ''v'' []])
   \<and> \<not> has_warnings (after_calls (time_checker [15, 45] ''mon'' True)
        [Report_warning ''w'' [], Report_error ''e'' [], Report_warning ''v'' []])
   \<and> stdout (after_calls (time_checker [15, 45] ''mon'' True)
        [Report_warning ''w'' [], Report_error ''e'' [], Report_warning ''v'' []])
      = [Msg ''w'' [], Msg ''v'' []]
   \<and> check_metadata_st sample_lib (time_checker [15, 45] ''mon'' True)
     = Inr ((time_checker [15, 45] ''mon'' True)
         \<lparr>the_cube := (time_cube [15, 45])
             \<lparr>aux_coords := map (categorised_coord sample_lib (time_coord [15, 45]))
                 [''day_of_month'', ''day_of_year'', ''month_number'', ''year'']\<rparr>\<rparr>)
   \<and> \<not> has_errors ((time_checker [15, 45] ''mon'' True)
         \<lparr>the_cube := (time_cube [15, 45])
             \<lparr>aux_coords := map (categorised_coord sample_lib (time_coord [15, 45]))
                 [''day_of_month'', ''day_of_year'', ''month_number'', ''year'']\<rparr>\<rparr>)
   \<and> check_data_st sample_lib (time_checker [15, 45] ''mon'' True)
       = Inr (time_checker [15, 45] ''mon'' True)
   \<and> \<not> has_warnings (time_checker [15, 45] ''mon'' True)"
  using failfast_lists_stay_empty
    [where st = "time_checker [15, 45] ''mon'' True"
       and cs = "[Report_warning ''w'' [], Report_error ''e'' [], Report_warning ''v'' []]"
       and L = sample_lib]
    time_failfast_checked time_failfast_data
  by (simp add: time_checker_def CMORCheck_def after_calls_def report_error_def
      report_warning_def)

end
